(* ===== verification/Prelude.thy ===== *)
theory Prelude
  imports Main "HOL-Library.Word"
begin

text \<open>
  The prelude of the development: the machine integers of the C++ sources, the two ways of
  reading a register pair, the list lemmas and the theorem collections that the components
  share.  \<open>u8\<close>, \<open>u16\<close> and \<open>u32\<close> are \<^verbatim>\<open>uint8_t\<close>, \<^verbatim>\<open>uint16_t\<close> and
  \<^verbatim>\<open>uint32_t\<close>; a C \<^verbatim>\<open>int\<close> that only carries an address, a port or a byte is a
  \<open>u32\<close> too.
\<close>

unbundle bit_operations_syntax

type_synonym u8 = "8 word"
type_synonym u16 = "16 word"
type_synonym u32 = "32 word"

named_theorems cpu_simps "reading back what a register or flag update wrote"
named_theorems bus_simps "what a bus access returns and what it leaves alone"

subsection \<open>The two halves of a 16-bit word\<close>

definition hi8 :: "u16 \<Rightarrow> u8" where
  "hi8 w = ucast (drop_bit 8 w)"

definition lo8 :: "u16 \<Rightarrow> u8" where
  "lo8 w = ucast w"

definition mk16 :: "u8 \<Rightarrow> u8 \<Rightarrow> u16" where
  "mk16 h l = push_bit 8 (ucast h) OR ucast l"

lemma bit_hi8 [simp]: "bit (hi8 w) n \<longleftrightarrow> n < 8 \<and> bit w (n + 8)"
  by (auto simp: hi8_def bit_simps add.commute)

lemma bit_lo8 [simp]: "bit (lo8 w) n \<longleftrightarrow> n < 8 \<and> bit w n"
  by (simp add: lo8_def bit_simps)

lemma bit_u8_bound: "bit (w :: u8) n \<Longrightarrow> n < 8"
  using bit_imp_le_length [of w n] by simp

lemma bit_mk16 [simp]:
  "bit (mk16 h l) n \<longleftrightarrow> (if n < 8 then bit l n else n < 16 \<and> bit h (n - 8))"
  by (auto simp: mk16_def bit_simps dest: bit_u8_bound)

lemma hi8_mk16 [simp]: "hi8 (mk16 h l) = h"
  by (rule bit_word_eqI) simp

lemma lo8_mk16 [simp]: "lo8 (mk16 h l) = l"
  by (rule bit_word_eqI) simp

lemma mk16_hi8_lo8 [simp]: "mk16 (hi8 w) (lo8 w) = w"
  by (rule bit_word_eqI) auto

lemma mk16_eq_iff [simp]: "mk16 h l = mk16 h' l' \<longleftrightarrow> h = h' \<and> l = l'"
  by (metis hi8_mk16 lo8_mk16)

lemma unat_u8_lt [simp]: "unat (w :: u8) < 256"
  using unsigned_less [where 'a = nat, of w] by simp

lemma unat_u16_lt [simp]: "unat (w :: u16) < 65536"
  using unsigned_less [where 'a = nat, of w] by simp

lemma unat_ucast_u16 [simp]: "unat (ucast (w :: u8) :: u16) = unat w"
  by (simp add: unsigned_ucast_eq take_bit_nat_eq_self less_trans [OF unat_u8_lt])

lemma unat_ucast_u8: "unat (ucast (w :: u16) :: u8) = unat w mod 256"
  by (simp add: unsigned_ucast_eq take_bit_eq_mod)

lemma unat_mk16: "unat (mk16 h l) = 256 * unat h + unat l"
proof -
  have "push_bit 8 (ucast h :: u16) AND ucast l = 0"
    by (rule bit_word_eqI) (auto simp: bit_simps dest: bit_u8_bound)
  then have "mk16 h l = push_bit 8 (ucast h) + ucast l"
    by (simp add: mk16_def disjunctive_add_eq_or)
  moreover have "256 * unat h + unat l < 65536"
    using unat_u8_lt [of h] unat_u8_lt [of l] by linarith
  ultimately show ?thesis
    by (simp add: unat_word_ariths push_bit_eq_mult)
qed

lemma bit_unat_odd: "bit (w :: 'a::len word) n \<longleftrightarrow> odd (unat w div 2 ^ n)"
proof -
  have "bit w n \<longleftrightarrow> bit (unat w) n"
    by (auto simp: bit_simps dest: bit_imp_le_length)
  then show ?thesis by (simp add: bit_iff_odd)
qed

lemma low_bits:
  "(w8 :: u8) AND 0x0f = take_bit 4 w8" "(w :: u16) AND 0xff = take_bit 8 w"
  "(x :: u32) AND 0xff = take_bit 8 x" "x AND 0xffff = take_bit 16 x"
  by (simp_all add: take_bit_eq_mask mask_eq_exp_minus_1)

lemma unat_low_bits:
  "unat ((w8 :: u8) AND 0x0f) = unat w8 mod 16" "unat ((w :: u16) AND 0xff) = unat w mod 256"
  "unat ((x :: u32) AND 0xff) = unat x mod 256" "unat (x AND 0xffff) = unat x mod 65536"
  by (simp_all only: low_bits unsigned_take_bit_eq) (simp_all add: take_bit_eq_mod)

lemma ucast_low8 [simp]: "(ucast ((w :: u16) AND 0xff) :: u8) = ucast w"
  by (rule bit_word_eqI) (simp add: bit_simps low_bits)

lemma unat_ucast_u32 [simp]: "unat (ucast (w :: u16) :: u32) = unat w"
  by (simp add: unsigned_ucast_eq take_bit_nat_eq_self less_trans [OF unat_u16_lt])

text \<open>Bytes and words survive the way through a wider integer.\<close>

lemma ucast_ucast_u8 [simp]: "(ucast (ucast (v :: u8) :: u32) :: u8) = v"
  by (rule bit_word_eqI) (auto simp: bit_simps)

lemma ucast_ucast_u16 [simp]: "(ucast (ucast (v :: u16) :: u32) :: u16) = v"
  by (rule bit_word_eqI) (auto simp: bit_simps)

lemma ucast_ucast_add2 [simp]: "(ucast (ucast (v :: u16) + 2 :: u32) :: u16) = v + 2"
  by (simp add: word_unat_eq_iff unsigned_ucast_eq take_bit_eq_mod unat_word_ariths
      mod_mod_cancel)

text \<open>A fact about all bytes can be checked byte by byte.\<close>

lemma list_all_u8:
  assumes "list_all P (map word_of_nat [0..<256])"
  shows "P (w :: u8)"
proof -
  have "P (word_of_nat (unat w))" using assms unat_u8_lt [of w]
    unfolding list_all_iff by (metis (mono_tags) atLeastLessThan_iff image_eqI set_map set_upt zero_le)
  then show ?thesis by simp
qed

text \<open>Disjoint bit fields add up.\<close>

lemma or_shifted_digit:
  assumes "r < 2 ^ n"
  shows "(r :: nat) OR push_bit n d = r + push_bit n d"
proof -
  have "take_bit n r = r" using assms by (simp add: take_bit_nat_eq_self)
  then have "r AND push_bit n d = 0"
    by (intro bit_eqI) (metis bit_and_iff bit_push_bit_iff_nat bit_take_bit_iff bit_0_eq bot_apply
        bot_bool_def linorder_not_le)
  then show ?thesis by (simp add: disjunctive_add_eq_or)
qed

subsection \<open>Exceptions\<close>

text \<open>A computation that may throw: the exception on the left, the result on the right.
  \<open>Undefined\<close> stands for undefined behaviour of C++, such as an index outside an array.\<close>

datatype fault = Out_of_range | Undefined

type_synonym 'a res = "fault + 'a"

definition bind_res :: "'a res \<Rightarrow> ('a \<Rightarrow> 'b res) \<Rightarrow> 'b res" where
  "bind_res r f = (case r of Inl e \<Rightarrow> Inl e | Inr x \<Rightarrow> f x)"

lemma bind_res_simps [simp]: "bind_res (Inl e) f = Inl e" "bind_res (Inr x) f = f x"
  by (simp_all add: bind_res_def)

lemma bind_res_Inr_iff: "bind_res r f = Inr y \<longleftrightarrow> (\<exists>x. r = Inr x \<and> f x = Inr y)"
  by (cases r) auto

end
