(* ===== verification/I8080_Alu.thy ===== *)
theory I8080_Alu
  imports Prelude
begin

text \<open>
  The arithmetic of the CPU core (\<^verbatim>\<open>src/i8080.cpp\<close>): the flag structure, the lookup
  tables and the macros \<^verbatim>\<open>INR\<close> to \<^verbatim>\<open>DAD\<close>, each a function from the operands and
  the flags to the result and the new flags.  The flags are bytes, as in the source.  The second
  half gives every macro its arithmetic meaning: the half-carry tables are carries out of bit 3,
  the 9-bit intermediate results are carries and borrows, the parity table is the parity of the
  number of ones, and the decimal adjustment adds packed decimal digits.
\<close>

record flag_reg =
  carry_flag :: u8
  unused1 :: u8
  parity_flag :: u8
  unused3 :: u8
  half_carry_flag :: u8
  unused5 :: u8
  zero_flag :: u8
  sign_flag :: u8

definition parity_table :: "u8 list" where
  "parity_table = [
     1, 0, 0, 1, 0, 1, 1, 0, 0, 1, 1, 0, 1, 0, 0, 1,
     0, 1, 1, 0, 1, 0, 0, 1, 1, 0, 0, 1, 0, 1, 1, 0,
     0, 1, 1, 0, 1, 0, 0, 1, 1, 0, 0, 1, 0, 1, 1, 0,
     1, 0, 0, 1, 0, 1, 1, 0, 0, 1, 1, 0, 1, 0, 0, 1,
     0, 1, 1, 0, 1, 0, 0, 1, 1, 0, 0, 1, 0, 1, 1, 0,
     1, 0, 0, 1, 0, 1, 1, 0, 0, 1, 1, 0, 1, 0, 0, 1,
     1, 0, 0, 1, 0, 1, 1, 0, 0, 1, 1, 0, 1, 0, 0, 1,
     0, 1, 1, 0, 1, 0, 0, 1, 1, 0, 0, 1, 0, 1, 1, 0,
     0, 1, 1, 0, 1, 0, 0, 1, 1, 0, 0, 1, 0, 1, 1, 0,
     1, 0, 0, 1, 0, 1, 1, 0, 0, 1, 1, 0, 1, 0, 0, 1,
     1, 0, 0, 1, 0, 1, 1, 0, 0, 1, 1, 0, 1, 0, 0, 1,
     0, 1, 1, 0, 1, 0, 0, 1, 1, 0, 0, 1, 0, 1, 1, 0,
     1, 0, 0, 1, 0, 1, 1, 0, 0, 1, 1, 0, 1, 0, 0, 1,
     0, 1, 1, 0, 1, 0, 0, 1, 1, 0, 0, 1, 0, 1, 1, 0,
     0, 1, 1, 0, 1, 0, 0, 1, 1, 0, 0, 1, 0, 1, 1, 0,
     1, 0, 0, 1, 0, 1, 1, 0, 0, 1, 1, 0, 1, 0, 0, 1]"

definition half_carry_table :: "u8 list" where
  "half_carry_table = [0, 0, 1, 0, 1, 0, 1, 1]"

definition sub_half_carry_table :: "u8 list" where
  "sub_half_carry_table = [0, 1, 1, 1, 0, 0, 0, 1]"

definition PARITY :: "u8 \<Rightarrow> u8" where
  "PARITY reg = parity_table ! unat reg"

text \<open>\<open>index\<close>: bits 3 and 7 of the accumulator, the operand and the result, interleaved.\<close>

definition hc_index :: "u8 \<Rightarrow> u8 \<Rightarrow> u16 \<Rightarrow> u16" where
  "hc_index a val work16 =
     drop_bit 1 (ucast a AND 0x88) OR drop_bit 2 (ucast val AND 0x88) OR
     drop_bit 3 (work16 AND 0x88)"

text \<open>The sign, zero and parity flags as every macro sets them from the result byte.\<close>

definition INR :: "u8 \<Rightarrow> flag_reg \<Rightarrow> u8 \<times> flag_reg" where
  "INR reg fl =
     (let reg = reg + 1
      in (reg, fl\<lparr>sign_flag := of_bool (reg AND 0x80 \<noteq> 0), zero_flag := of_bool (reg = 0),
                  half_carry_flag := of_bool (reg AND 0x0f = 0),
                  parity_flag := PARITY reg\<rparr>))"

definition DCR :: "u8 \<Rightarrow> flag_reg \<Rightarrow> u8 \<times> flag_reg" where
  "DCR reg fl =
     (let reg = reg - 1
      in (reg, fl\<lparr>sign_flag := of_bool (reg AND 0x80 \<noteq> 0), zero_flag := of_bool (reg = 0),
                  half_carry_flag := of_bool (\<not> (reg AND 0x0f = 0x0f)),
                  parity_flag := PARITY reg\<rparr>))"

definition ADD :: "u8 \<Rightarrow> u8 \<Rightarrow> flag_reg \<Rightarrow> u8 \<times> flag_reg" where
  "ADD val a fl =
     (let work16 = ucast a + ucast val :: u16; index = hc_index a val work16;
          a = ucast (work16 AND 0xff)
      in (a, fl\<lparr>sign_flag := of_bool (a AND 0x80 \<noteq> 0), zero_flag := of_bool (a = 0),
                half_carry_flag := half_carry_table ! unat (index AND 0x7),
                parity_flag := PARITY a,
                carry_flag := of_bool (work16 AND 0x0100 \<noteq> 0)\<rparr>))"

definition ADC :: "u8 \<Rightarrow> u8 \<Rightarrow> flag_reg \<Rightarrow> u8 \<times> flag_reg" where
  "ADC val a fl =
     (let work16 = ucast a + ucast val + ucast (carry_flag fl) :: u16;
          index = hc_index a val work16;
          a = ucast (work16 AND 0xff)
      in (a, fl\<lparr>sign_flag := of_bool (a AND 0x80 \<noteq> 0), zero_flag := of_bool (a = 0),
                half_carry_flag := half_carry_table ! unat (index AND 0x7),
                parity_flag := PARITY a,
                carry_flag := of_bool (work16 AND 0x0100 \<noteq> 0)\<rparr>))"

definition SUB :: "u8 \<Rightarrow> u8 \<Rightarrow> flag_reg \<Rightarrow> u8 \<times> flag_reg" where
  "SUB val a fl =
     (let work16 = ucast a - ucast val :: u16; index = hc_index a val work16;
          a = ucast (work16 AND 0xff)
      in (a, fl\<lparr>sign_flag := of_bool (a AND 0x80 \<noteq> 0), zero_flag := of_bool (a = 0),
                half_carry_flag := of_bool (sub_half_carry_table ! unat (index AND 0x7) = 0),
                parity_flag := PARITY a,
                carry_flag := of_bool (work16 AND 0x0100 \<noteq> 0)\<rparr>))"

definition SBB :: "u8 \<Rightarrow> u8 \<Rightarrow> flag_reg \<Rightarrow> u8 \<times> flag_reg" where
  "SBB val a fl =
     (let work16 = ucast a - ucast val - ucast (carry_flag fl) :: u16;
          index = hc_index a val work16;
          a = ucast (work16 AND 0xff)
      in (a, fl\<lparr>sign_flag := of_bool (a AND 0x80 \<noteq> 0), zero_flag := of_bool (a = 0),
                half_carry_flag := of_bool (sub_half_carry_table ! unat (index AND 0x7) = 0),
                parity_flag := PARITY a,
                carry_flag := of_bool (work16 AND 0x0100 \<noteq> 0)\<rparr>))"

definition CMP :: "u8 \<Rightarrow> u8 \<Rightarrow> flag_reg \<Rightarrow> flag_reg" where
  "CMP val a fl =
     (let work16 = ucast a - ucast val :: u16; index = hc_index a val work16
      in fl\<lparr>sign_flag := of_bool (work16 AND 0x80 \<noteq> 0),
            zero_flag := of_bool (work16 AND 0xff = 0),
            half_carry_flag := of_bool (sub_half_carry_table ! unat (index AND 0x7) = 0),
            carry_flag := of_bool (work16 AND 0x0100 \<noteq> 0),
            parity_flag := PARITY (ucast (work16 AND 0xff))\<rparr>)"

definition ANA :: "u8 \<Rightarrow> u8 \<Rightarrow> flag_reg \<Rightarrow> u8 \<times> flag_reg" where
  "ANA val a fl =
     (let hc = of_bool ((a OR val) AND 0x08 \<noteq> 0); a = a AND val
      in (a, fl\<lparr>half_carry_flag := hc, sign_flag := of_bool (a AND 0x80 \<noteq> 0),
                zero_flag := of_bool (a = 0), parity_flag := PARITY a, carry_flag := 0\<rparr>))"

definition XRA :: "u8 \<Rightarrow> u8 \<Rightarrow> flag_reg \<Rightarrow> u8 \<times> flag_reg" where
  "XRA val a fl =
     (let a = a XOR val
      in (a, fl\<lparr>sign_flag := of_bool (a AND 0x80 \<noteq> 0), zero_flag := of_bool (a = 0),
                half_carry_flag := 0, parity_flag := PARITY a, carry_flag := 0\<rparr>))"

definition ORA :: "u8 \<Rightarrow> u8 \<Rightarrow> flag_reg \<Rightarrow> u8 \<times> flag_reg" where
  "ORA val a fl =
     (let a = a OR val
      in (a, fl\<lparr>sign_flag := of_bool (a AND 0x80 \<noteq> 0), zero_flag := of_bool (a = 0),
                half_carry_flag := 0, parity_flag := PARITY a, carry_flag := 0\<rparr>))"

definition DAD :: "u16 \<Rightarrow> u16 \<Rightarrow> flag_reg \<Rightarrow> u16 \<times> flag_reg" where
  "DAD reg hl fl =
     (let work32 = ucast hl + ucast reg :: u32
      in (ucast (work32 AND 0xffff), fl\<lparr>carry_flag := of_bool (work32 AND 0x10000 \<noteq> 0)\<rparr>))"

text \<open>\<^verbatim>\<open>case 0x27\<close> of the switch.\<close>

definition DAA :: "u8 \<Rightarrow> flag_reg \<Rightarrow> u8 \<times> flag_reg" where
  "DAA a fl =
     (let carry = carry_flag fl; add = 0 :: u8;
          add = (if half_carry_flag fl \<noteq> 0 \<or> a AND 0x0f > 9 then 0x06 else add);
          (add, carry) =
            (if carry_flag fl \<noteq> 0 \<or> drop_bit 4 a > 9 \<or> (drop_bit 4 a \<ge> 9 \<and> a AND 0x0f > 9)
             then (add OR 0x60, 1) else (add, carry));
          (a, fl) = ADD add a fl
      in (a, fl\<lparr>parity_flag := PARITY a, carry_flag := carry\<rparr>))"


subsection \<open>Arithmetic meaning\<close>

definition szp :: "u8 \<Rightarrow> flag_reg \<Rightarrow> flag_reg" where
  "szp r fl = fl\<lparr>sign_flag := of_bool (bit r 7), zero_flag := of_bool (r = 0),
                 parity_flag := of_bool (even (length (filter (bit r) [0..<8])))\<rparr>"

definition add_spec :: "nat \<Rightarrow> u8 \<Rightarrow> u8 \<Rightarrow> flag_reg \<Rightarrow> u8 \<times> flag_reg" where
  "add_spec c v a fl =
     (let r = a + v + word_of_nat c
      in (r, (szp r fl)\<lparr>half_carry_flag := of_bool (16 \<le> unat a mod 16 + unat v mod 16 + c),
                       carry_flag := of_bool (256 \<le> unat a + unat v + c)\<rparr>))"

definition sub_spec :: "nat \<Rightarrow> u8 \<Rightarrow> u8 \<Rightarrow> flag_reg \<Rightarrow> u8 \<times> flag_reg" where
  "sub_spec c v a fl =
     (let r = a - v - word_of_nat c
      in (r, (szp r fl)\<lparr>half_carry_flag := of_bool (unat v mod 16 + c \<le> unat a mod 16),
                       carry_flag := of_bool (unat a < unat v + c)\<rparr>))"

lemma and_0x80_u8 [simp]: "((w :: u8) AND 0x80 = 0) \<longleftrightarrow> \<not> bit w 7"
  using and_exp_eq_0_iff_not_bit [of w 7] by simp

lemma and_0x80_u16 [simp]: "((w :: u16) AND 0x80 = 0) \<longleftrightarrow> \<not> bit w 7"
  using and_exp_eq_0_iff_not_bit [of w 7] by simp

lemma and_0x100_u16 [simp]: "((w :: u16) AND 0x100 = 0) \<longleftrightarrow> \<not> bit w 8"
  using and_exp_eq_0_iff_not_bit [of w 8] by simp

lemma and_exp_cases: "(w :: 'a::len word) AND push_bit n 1 = (if bit w n then push_bit n 1 else 0)"
  by (rule bit_word_eqI) (auto simp: bit_simps)

lemma and_0x88_u16:
  "(w :: u16) AND 0x88 = (if bit w 7 then 0x80 else 0) OR (if bit w 3 then 0x08 else 0)"
proof -
  have "(0x88 :: u16) = push_bit 7 1 OR push_bit 3 1" by (simp add: push_bit_eq_mult)
  then have "w AND 0x88 = (w AND push_bit 7 1) OR (w AND push_bit 3 1)"
    by (simp only: bit.conj_disj_distrib)
  also have "\<dots> = (if bit w 7 then 0x80 else 0) OR (if bit w 3 then 0x08 else 0)"
    unfolding and_exp_cases by (simp add: push_bit_eq_mult)
  finally show ?thesis .
qed

lemma bit3_nat: "bit (w :: 'a::len word) 3 \<longleftrightarrow> odd (unat w div 8)"
  by (simp add: bit_unat_odd)

lemma hc_index_and_7:
  "unat (hc_index a val w AND 7) =
     (if bit a 3 then 4 else 0) + (if bit val 3 then 2 else 0) + (if bit w 3 then 1 else 0)"
  by (simp add: hc_index_def and_0x88_u16 bit_simps)

primrec even_ones :: "nat \<Rightarrow> int \<Rightarrow> bool" where
  "even_ones 0 n = True"
| "even_ones (Suc k) n = (if n mod 2 = 1 then \<not> even_ones k (n div 2) else even_ones k (n div 2))"

lemma even_ones_filter: "even_ones k n = even (length (filter (bit n) [0..<k]))"
proof (induction k arbitrary: n)
  case (Suc k)
  have "[0..<Suc k] = 0 # map Suc [0..<k]" by (simp add: upt_conv_Cons map_Suc_upt del: upt_Suc)
  then have "filter (bit n) [0..<Suc k] =
      (if odd n then [0] else []) @ map Suc (filter (bit (n div 2)) [0..<k])"
    by (simp add: bit_0 bit_Suc filter_map comp_def del: upt_Suc)
  with Suc.IH [of "n div 2"] show ?case
    by (simp add: odd_iff_mod_2_eq_one del: upt_Suc)
qed simp

lemma PARITY_eq: "PARITY r = of_bool (even (length (filter (bit r) [0..<8])))"
proof -
  have "parity_table = map (\<lambda>n. of_bool (even_ones 8 n)) [0..255]"
    by code_simp
  moreover have "map (\<lambda>n. of_bool (even_ones 8 n) :: u8) [0..255] ! unat r =
      of_bool (even_ones 8 (uint r))"
  proof -
    have "uint r \<le> 255" using unsigned_less [where 'a = int, of r] by simp
    then show ?thesis using nth_upto [of 0 "unat r" 255] unat_u8_lt [of r]
      by (subst nth_map) (simp_all del: unat_u8_lt)
  qed
  ultimately have "PARITY r = of_bool (even_ones 8 (uint r))"
    by (simp only: PARITY_def)
  moreover have "filter (bit (uint r)) [0..<8] = filter (bit r) [0..<8]"
    by (rule filter_cong) (simp_all add: bit_uint_iff)
  ultimately show ?thesis by (simp only: even_ones_filter)
qed

lemma nibble_parts:
  fixes a :: nat
  obtains q x r where "a = 16 * q + 8 * x + r" "x < 2" "r < 8"
    "a mod 16 = 8 * x + r" "odd (a div 8) = (x = 1)"
proof
  have "a = 2 * (a div 16) * 8 + (a div 8 mod 2) * 8 + a mod 8"
    by (metis add_mult_distrib div_mult2_eq div_mult_mod_eq mult.commute mult_2_right numeral_Bit0)
  then show "a = 16 * (a div 16) + 8 * (a div 8 mod 2) + a mod 8" by linarith
  show "a mod 16 = 8 * (a div 8 mod 2) + a mod 8"
    using mod_mult2_eq [of a 8 2] by simp
  show "odd (a div 8) = (a div 8 mod 2 = 1)" by (simp add: odd_iff_mod_2_eq_one)
qed simp_all

lemma half_carry_nat:
  fixes a v c :: nat
  assumes "c \<le> 1"
  shows "(16 \<le> a mod 16 + v mod 16 + c) \<longleftrightarrow>
    (let x = odd (a div 8); y = odd (v div 8); w = odd ((a + v + c) div 8)
     in (x \<and> y) \<or> ((x \<or> y) \<and> \<not> w))"
proof -
  obtain q x r where a: "a = 16 * q + 8 * x + r" "x < 2" "r < 8"
    "a mod 16 = 8 * x + r" "odd (a div 8) = (x = 1)" by (rule nibble_parts)
  obtain p y s where v: "v = 16 * p + 8 * y + s" "y < 2" "s < 8"
    "v mod 16 = 8 * y + s" "odd (v div 8) = (y = 1)" by (rule nibble_parts)
  define k where "k = (if 8 \<le> r + s + c then 1 else 0 :: nat)"
  have "(a + v + c) div 8 = 2 * (q + p) + x + y + k"
    using a(1-3) v(1-3) assms unfolding k_def
    by (intro div_nat_eqI) (auto split: if_splits)
  then have "odd ((a + v + c) div 8) = odd (x + y + k)" by auto
  then show ?thesis unfolding Let_def a(4,5) v(4,5)
    using a(2,3) v(2,3) assms unfolding k_def
    by (auto split: if_splits simp: less_2_cases_iff)
qed

lemma half_borrow_nat:
  fixes a v c d k :: nat
  assumes c: "c \<le> 1" and eq: "d + v + c = a + 65536 * k"
  shows "(v mod 16 + c \<le> a mod 16) \<longleftrightarrow>
    (let x = odd (a div 8); y = odd (v div 8); w = odd (d div 8)
     in \<not> ((\<not> x \<and> y) \<or> ((\<not> x \<or> y) \<and> w)))"
proof -
  have "a + 65536 * k = a + 4096 * k * 16" by simp
  then have k1: "(a + 65536 * k) mod 16 = a mod 16" by (simp only: mod_mult_self1)
  have "a + 65536 * k = a + 8192 * k * 8" by simp
  then have "(a + 65536 * k) div 8 = 8192 * k + a div 8" by (simp only: div_mult_self1)
  then have k2: "odd ((a + 65536 * k) div 8) = odd (a div 8)" by simp
  have "(d mod 16 + v mod 16 + c) mod 16 = (d + v + c) mod 16"
    using mod_add_left_eq [of "d mod 16 + v mod 16" 16 c] mod_add_left_eq [of "d + v" 16 c]
      mod_add_eq [of d 16 v] by simp
  then have a: "a mod 16 = (d mod 16 + v mod 16 + c) mod 16"
    "odd ((d + v + c) div 8) = odd (a div 8)"
    unfolding eq using k1 k2 by simp_all
  define D V where "D = d mod 16" and "V = v mod 16"
  have b: "D < 16" "V < 16" unfolding D_def V_def by simp_all
  have "(D + V + c) mod 16 = (if 16 \<le> D + V + c then D + V + c - 16 else D + V + c)"
    using b c by (simp add: le_mod_geq)
  then have "(V + c \<le> (D + V + c) mod 16) \<longleftrightarrow> \<not> 16 \<le> D + V + c"
    using b by auto
  then show ?thesis
    using half_carry_nat [OF c, of d v] a unfolding Let_def D_def V_def by auto
qed
lemma half_carry_lookup:
  "half_carry_table ! unat (hc_index a v w AND 7) =
     of_bool ((bit a 3 \<and> bit v 3) \<or> ((bit a 3 \<or> bit v 3) \<and> \<not> bit w 3))"
  by (simp add: hc_index_and_7 half_carry_table_def)

lemma sub_half_carry_lookup:
  "(sub_half_carry_table ! unat (hc_index a v w AND 7) = 0) \<longleftrightarrow>
     \<not> ((\<not> bit a 3 \<and> bit v 3) \<or> ((\<not> bit a 3 \<or> bit v 3) \<and> bit w 3))"
  by (simp add: hc_index_and_7 sub_half_carry_table_def)

lemma szp_eq:
  "fl\<lparr>sign_flag := of_bool (r AND 0x80 \<noteq> 0), zero_flag := of_bool (r = 0),
      parity_flag := PARITY r\<rparr> = szp r fl"
  by (simp add: szp_def PARITY_eq)

lemma add_work16:
  fixes a v c :: u8
  defines "w \<equiv> ucast a + ucast v + ucast c :: u16"
  assumes "unat c \<le> 1"
  shows "unat w = unat a + unat v + unat c"
    and "(ucast w :: u8) = a + v + c"
    and "bit w 8 \<longleftrightarrow> 256 \<le> unat a + unat v + unat c"
proof -
  have lt: "unat a + unat v + unat c < 512"
    using assms(2) unat_u8_lt [of a] unat_u8_lt [of v] by linarith
  then show w: "unat w = unat a + unat v + unat c"
    by (simp add: w_def unat_word_ariths)
  then show "(ucast w :: u8) = a + v + c"
    by (simp add: word_unat_eq_iff unat_ucast_u8 unat_word_ariths mod_simps)
  show "bit w 8 \<longleftrightarrow> 256 \<le> unat a + unat v + unat c"
    unfolding bit_unat_odd w using lt by (auto simp: odd_iff_mod_2_eq_one div_if)
qed

lemma ADC_spec: "unat (carry_flag fl) \<le> 1 \<Longrightarrow> ADC v a fl = add_spec (unat (carry_flag fl)) v a fl"
  by (cases fl) (simp add: ADC_def add_spec_def Let_def add_work16 half_carry_lookup PARITY_eq szp_def
      half_carry_nat bit3_nat)

lemma ADD_ADC: "ADD v a fl = ADC v a (fl\<lparr>carry_flag := 0\<rparr>)"
  by (simp add: ADD_def ADC_def Let_def)

lemma ADD_spec: "ADD v a fl = add_spec 0 v a fl"
  by (cases fl) (simp add: ADD_ADC ADC_spec add_spec_def szp_def Let_def)

lemma sub_work16:
  fixes a v c :: u8
  defines "w \<equiv> ucast a - ucast v - ucast c :: u16"
  assumes "unat c \<le> 1"
  shows "unat w + unat v + unat c = unat a + 65536 * of_bool (unat a < unat v + unat c)"
    and "(ucast w :: u8) = a - v - c"
    and "bit w 8 \<longleftrightarrow> unat a < unat v + unat c"
proof -
  define s where "s = unat v + unat c"
  have lt: "s < 257" using assms(2) unat_u8_lt [of v] unfolding s_def by linarith
  have eq: "w + (ucast v + ucast c) = ucast a" by (simp add: w_def)
  have "unat (ucast v + ucast c :: u16) = s"
    using lt by (simp add: unat_word_ariths s_def)
  then have m: "(unat w + s) mod 65536 = unat a"
    using arg_cong [OF eq, of unat] by (simp add: unat_word_ariths)
  have w: "unat w + s = unat a + 65536 * of_bool (unat a < s)"
  proof (cases "unat w + s < 65536")
    case False
    then have "unat a = unat w + s - 65536" using m lt unat_u16_lt [of w] by (simp add: le_mod_geq)
    moreover have "unat w < 65536" by simp
    ultimately have "unat a < s \<and> unat w + s = unat a + 65536" using False by linarith
    then show ?thesis by simp
  qed (use m in simp)
  then show "unat w + unat v + unat c = unat a + 65536 * of_bool (unat a < unat v + unat c)"
    unfolding s_def by simp
  have "(unat (ucast w :: u8) + s) mod 256 = unat a mod 256"
    unfolding unat_ucast_u8 mod_add_left_eq w
    using mod_mult_self1 [of "unat a" 256 256] by (simp add: of_bool_def)
  then have "(ucast w :: u8) + (v + c) = a"
    by (simp add: word_unat_eq_iff unat_word_ariths s_def mod_simps)
  then show "(ucast w :: u8) = a - v - c" by (simp add: algebra_simps)
  show "bit w 8 \<longleftrightarrow> unat a < unat v + unat c"
  proof (cases "unat a < s")
    case True
    then have "unat w div 256 = 255"
      using w lt by (intro div_nat_eqI) auto
    with True show ?thesis unfolding bit_unat_odd s_def by simp
  next
    case False
    then have "unat w \<le> unat a" using w by simp
    then have "unat w < 256" using unat_u8_lt [of a] by linarith
    then have "unat w div 256 = 0" by simp
    with False show ?thesis unfolding bit_unat_odd s_def by simp
  qed
qed

lemma SBB_spec: "unat (carry_flag fl) \<le> 1 \<Longrightarrow> SBB v a fl = sub_spec (unat (carry_flag fl)) v a fl"
  by (cases fl) (simp add: SBB_def sub_spec_def Let_def sub_work16 sub_half_carry_lookup PARITY_eq szp_def
      half_borrow_nat [OF _ sub_work16(1)] bit3_nat)

lemma SUB_SBB: "SUB v a fl = SBB v a (fl\<lparr>carry_flag := 0\<rparr>)"
  by (simp add: SUB_def SBB_def Let_def)

lemma SUB_spec: "SUB v a fl = sub_spec 0 v a fl"
  by (cases fl) (simp add: SUB_SBB SBB_spec sub_spec_def szp_def Let_def)

lemma CMP_spec: "CMP v a fl = snd (sub_spec 0 v a fl)"
proof -
  define w where "w = (ucast a - ucast v :: u16)"
  have "bit (ucast w :: u8) 7 = bit w 7" by (simp add: bit_simps)
  moreover have "(w AND 0xff = 0) = ((ucast w :: u8) = 0)"
    by (simp add: word_unat_eq_iff unat_low_bits unat_ucast_u8)
  ultimately have "CMP v a fl = snd (SUB v a fl)"
    by (cases fl) (simp add: CMP_def SUB_def Let_def w_def [symmetric])
  then show ?thesis by (simp add: SUB_spec)
qed

lemma INR_spec:
  "INR r fl = (r + 1, (szp (r + 1) fl)\<lparr>half_carry_flag := of_bool (unat r mod 16 = 15)\<rparr>)"
proof -
  have "(r + 1) AND 0x0f = 0 \<longleftrightarrow> unat r mod 16 = 15"
    unfolding word_unat_eq_iff unat_low_bits by (simp add: unat_word_ariths mod_mod_cancel) presburger
  then show ?thesis by (cases fl) (simp add: INR_def Let_def szp_def PARITY_eq)
qed

lemma DCR_spec:
  "DCR r fl = (r - 1, (szp (r - 1) fl)\<lparr>half_carry_flag := of_bool (unat r mod 16 \<noteq> 0)\<rparr>)"
proof -
  define s where "s = r - 1"
  have r: "r = s + 1" by (simp add: s_def)
  have "s AND 0x0f = 0x0f \<longleftrightarrow> unat r mod 16 = 0"
    unfolding word_unat_eq_iff unat_low_bits r
    by (simp add: unat_word_ariths mod_mod_cancel) presburger
  then show ?thesis by (cases fl) (simp add: DCR_def Let_def szp_def PARITY_eq s_def)
qed

lemma DAD_spec:
  "DAD r hl fl = (hl + r, fl\<lparr>carry_flag := of_bool (65536 \<le> unat hl + unat r)\<rparr>)"
proof -
  define w where "w = (ucast hl + ucast r :: u32)"
  have lt: "unat hl + unat r < 131072" using unat_u16_lt [of hl] unat_u16_lt [of r] by linarith
  then have w: "unat w = unat hl + unat r" by (simp add: w_def unat_word_ariths)
  have "(ucast (w AND 0xffff) :: u16) = hl + r"
    by (simp add: word_unat_eq_iff unsigned_ucast_eq take_bit_eq_mod unat_word_ariths
        unat_low_bits w)
  moreover have "(w AND 0x10000 = 0) \<longleftrightarrow> \<not> bit w 16"
    using and_exp_eq_0_iff_not_bit [of w 16] by simp
  moreover have "bit w 16 \<longleftrightarrow> 65536 \<le> unat hl + unat r"
    unfolding bit_unat_odd w using lt by (auto simp: odd_iff_mod_2_eq_one div_if)
  ultimately show ?thesis by (simp add: DAD_def Let_def w_def [symmetric])
qed

subsection \<open>Decimal addition\<close>

text \<open>\<open>bcd n\<close> is the packed decimal byte of a number below 100.\<close>

definition bcd :: "nat \<Rightarrow> u8" where
  "bcd n = word_of_nat (16 * (n div 10) + n mod 10)"

definition daa_adjust :: "bool \<Rightarrow> bool \<Rightarrow> u8 \<Rightarrow> u8 \<times> bool" where
  "daa_adjust h c a =
     (let lo = h \<or> a AND 0x0f > 9;
          hi = c \<or> drop_bit 4 a > 9 \<or> (drop_bit 4 a \<ge> 9 \<and> a AND 0x0f > 9)
      in (a + (if lo then 0x06 else 0) + (if hi then 0x60 else 0), hi))"

lemma DAA_adjust:
  assumes "half_carry_flag fl = of_bool h" "carry_flag fl = of_bool c"
  shows "fst (DAA a fl) = fst (daa_adjust h c a)"
    and "carry_flag (snd (DAA a fl)) = of_bool (snd (daa_adjust h c a))"
  using assms by (simp_all add: DAA_def daa_adjust_def ADD_spec add_spec_def Let_def split_def)

lemma daa_adjust_digits:
  assumes "h \<le> 18" "s \<le> 19"
  shows "daa_adjust (16 \<le> s) (256 \<le> 16 * h + s) (word_of_nat (16 * h + s)) =
    (bcd ((10 * h + s) mod 100), 100 \<le> 10 * h + s)"
proof -
  define a where "a = (word_of_nat (16 * h + s) :: u8)"
  define k where "k = (if 16 \<le> s then 1 else 0 :: nat)"
  have s16: "s mod 16 = s - 16 * k" "s = s mod 16 + 16 * k" "s div 16 = k"
    using assms by (auto simp: k_def le_mod_geq intro: div_nat_eqI)
  have ua: "unat a = (16 * h + s) mod 256" by (simp only: a_def unat_of_nat) simp
  have lo: "unat (a AND 0x0f) = s mod 16"
    by (simp add: unat_low_bits ua mod_mod_cancel)
  have "16 * h + s = 16 * (h + k) + s mod 16" using s16(2) by simp
  then have hi: "unat (drop_bit 4 a) = (h + k) mod 16"
    by (simp only: unat_drop_bit_eq) (simp add: drop_bit_eq_div ua s16(3) mod_mult2_eq [of _ 16 16, simplified])
  have hi': "256 \<le> 16 * h + s \<longleftrightarrow> 16 \<le> h + k" using s16 assms by auto
  define h' s' where "h' = h + (if 10 \<le> s then 1 else 0)" and "s' = s - (if 10 \<le> s then 10 else 0)"
  have d: "s' < 10" "10 * h + s = 10 * h' + s'" "h' \<le> 19"
    using assms by (auto simp: h'_def s'_def)
  have c1: "(16 \<le> s \<or> a AND 0x0f > 9) \<longleftrightarrow> 10 \<le> s"
    using s16 assms by (auto simp: word_less_nat_alt lo k_def split: if_splits)
  have c2: "(256 \<le> 16 * h + s \<or> drop_bit 4 a > 9 \<or> (drop_bit 4 a \<ge> 9 \<and> a AND 0x0f > 9))
      \<longleftrightarrow> 100 \<le> 10 * h + s"
  proof (cases "16 \<le> h + k")
    case True
    then show ?thesis using s16(2) unfolding hi' by auto
  next
    case False
    then have "unat (drop_bit 4 a) = h + k" using hi by simp
    then show ?thesis using False s16 assms
      by (auto simp: hi' word_less_nat_alt word_le_nat_alt lo k_def split: if_splits)
  qed
  have "16 * h + s + (if 10 \<le> s then 6 else 0) + (if 100 \<le> 10 * h + s then 96 else 0)
     = 16 * h' + s' + (if 10 \<le> h' then 96 else 0)"
    using assms by (auto simp: h'_def s'_def)
  from arg_cong [OF this, of "word_of_nat :: nat \<Rightarrow> u8"]
  have "word_of_nat (16 * h + s) + (if 10 \<le> s then 6 else 0) + (if 100 \<le> 10 * h + s then 96 else 0)
     = (word_of_nat (16 * h' + s' + (if 10 \<le> h' then 96 else 0)) :: u8)"
    by (simp only: of_nat_add if_distrib [of of_nat] of_nat_numeral semiring_1_class.of_nat_0)
  also have "\<dots> = bcd ((10 * h + s) mod 100)"
  proof (cases "10 \<le> h'")
    case True
    then obtain g where g: "h' = g + 10" by (metis add.commute le_Suc_ex)
    then have e: "10 * h' + s' = 10 * g + s' + 100" and lt: "10 * g + s' < 100"
      and v: "16 * h' + s' + 96 = 16 * g + s' + 256"
      using d by simp_all
    have "(10 * h' + s') mod 100 = 10 * g + s'" unfolding e mod_add_self2 using lt by simp
    with v show ?thesis using True d(1,2) by (simp add: bcd_def)
  qed (use d in \<open>simp add: bcd_def\<close>)
  finally show ?thesis
    using c1 c2 unfolding daa_adjust_def a_def Let_def by simp
qed
lemma bcd_ADC_DAA:
  assumes "x < 100" "y < 100" "unat (carry_flag fl) \<le> 1"
  defines "n \<equiv> x + y + unat (carry_flag fl)"
  defines "r \<equiv> ADC (bcd y) (bcd x) fl"
  shows "fst (DAA (fst r) (snd r)) = bcd (n mod 100)"
    and "carry_flag (snd (DAA (fst r) (snd r))) = of_bool (100 \<le> n)"
proof -
  define h s where "h = x div 10 + y div 10" and "s = x mod 10 + y mod 10 + unat (carry_flag fl)"
  have hs: "h \<le> 18" "s \<le> 19"
    using assms(1-3) less_mult_imp_div_less [of x 10 10] less_mult_imp_div_less [of y 10 10]
      mod_less_divisor [of 10 x] mod_less_divisor [of 10 y]
    unfolding h_def s_def by linarith+
  have n: "10 * h + s = n"
    unfolding h_def s_def n_def by (simp add: add_mult_distrib2 algebra_simps)
  have u: "unat (bcd k) = 16 * (k div 10) + k mod 10" if "k < 100" for k
  proof -
    have "16 * (k div 10) + k mod 10 < 256"
      using that less_mult_imp_div_less [of k 10 10] mod_less_divisor [of 10 k] by linarith
    then show ?thesis by (simp only: bcd_def unat_of_nat) simp
  qed
  have m: "unat (bcd k) mod 16 = k mod 10" if "k < 100" for k
    using that by (simp add: u)
  have sum: "unat (bcd x) + unat (bcd y) + unat (carry_flag fl) = 16 * h + s"
    using assms(1,2) by (simp add: u h_def s_def)
  have a: "bcd x + bcd y + word_of_nat (unat (carry_flag fl)) = word_of_nat (16 * h + s)"
    by (simp flip: sum)
  have r: "fst r = word_of_nat (16 * h + s)" "carry_flag (snd r) = of_bool (256 \<le> 16 * h + s)"
    "half_carry_flag (snd r) = of_bool (16 \<le> s)"
    using assms(1-3) a
    by (simp_all add: r_def ADC_spec add_spec_def Let_def sum m s_def)
  show "fst (DAA (fst r) (snd r)) = bcd (n mod 100)"
    and "carry_flag (snd (DAA (fst r) (snd r))) = of_bool (100 \<le> n)"
    using DAA_adjust [OF r(3,2), of "fst r"] daa_adjust_digits [OF hs] n r(1)
    by simp_all
qed

end
