(* ===== verification/I8080.thy ===== *)
theory I8080
  imports I8080_Alu
begin

text \<open>
  The CPU core of \<^verbatim>\<open>src/i8080.cpp\<close>.  The processor state is the record \<open>i8080\<close>;
  a register pair is one 16-bit word and its halves are read with \<open>hi8\<close> and \<open>lo8\<close>
  (the union of the source on a little-endian host).  The functions of
  \<^verbatim>\<open>src/i8080_hal.h\<close>, which connect the core to a machine, are the record \<open>'h hal\<close>
  over an arbitrary machine state \<open>'h\<close>; the theory \<^verbatim>\<open>Hal\<close> instantiates it with
  the Vector-06C.  The switch of \<^verbatim>\<open>i8080_execute\<close> is cut into sixteen definitions, one
  per row of sixteen opcodes; each case yields the pair \<^verbatim>\<open>(cpu_cycles, v_cycles)\<close> and
  the new state.  The scratch variables \<^verbatim>\<open>work8\<close>, \<^verbatim>\<open>work16\<close>, \<^verbatim>\<open>work32\<close>,
  \<^verbatim>\<open>index\<close>, \<^verbatim>\<open>carry\<close> and \<^verbatim>\<open>add\<close> are always assigned before they are
  used, so they are local here.
\<close>

subsection \<open>State\<close>

record i8080 =
  cpu_f :: flag_reg
  cpu_af :: u16
  cpu_bc :: u16
  cpu_de :: u16
  cpu_hl :: u16
  cpu_sp :: u16
  cpu_pc :: u16
  cpu_iff :: u16
  cpu_ei_pending :: u8
  cpu_cpu_cycles :: u8
  cpu_last_pc :: u16

text \<open>The hardware abstraction layer: what \<^verbatim>\<open>i8080_hal.h\<close> declares.\<close>

record 'h hal =
  hal_memory_read_byte :: "u32 \<Rightarrow> 'h \<Rightarrow> u32 \<times> 'h"
  hal_memory_write_byte :: "u32 \<Rightarrow> u32 \<Rightarrow> 'h \<Rightarrow> 'h"
  hal_memory_read_word :: "u32 \<Rightarrow> bool \<Rightarrow> 'h \<Rightarrow> u32 \<times> 'h"
  hal_memory_write_word :: "u32 \<Rightarrow> u32 \<Rightarrow> bool \<Rightarrow> 'h \<Rightarrow> 'h"
  hal_io_input :: "u32 \<Rightarrow> 'h \<Rightarrow> u32 \<times> 'h"
  hal_io_output :: "u32 \<Rightarrow> u32 \<Rightarrow> 'h \<Rightarrow> 'h"
  hal_iff :: "u32 \<Rightarrow> 'h \<Rightarrow> 'h"

text \<open>The core and the machine it is bound to.\<close>

record 'h mach =
  cpu :: i8080
  bus :: 'h

abbreviation FLAGS :: "'h mach \<Rightarrow> flag_reg" where "FLAGS s \<equiv> cpu_f (cpu s)"
abbreviation AF :: "'h mach \<Rightarrow> u16" where "AF s \<equiv> cpu_af (cpu s)"
abbreviation BC :: "'h mach \<Rightarrow> u16" where "BC s \<equiv> cpu_bc (cpu s)"
abbreviation DE :: "'h mach \<Rightarrow> u16" where "DE s \<equiv> cpu_de (cpu s)"
abbreviation HL :: "'h mach \<Rightarrow> u16" where "HL s \<equiv> cpu_hl (cpu s)"
abbreviation SP :: "'h mach \<Rightarrow> u16" where "SP s \<equiv> cpu_sp (cpu s)"
abbreviation PC :: "'h mach \<Rightarrow> u16" where "PC s \<equiv> cpu_pc (cpu s)"
abbreviation IFF :: "'h mach \<Rightarrow> u16" where "IFF s \<equiv> cpu_iff (cpu s)"
abbreviation EI_PENDING :: "'h mach \<Rightarrow> u8" where "EI_PENDING s \<equiv> cpu_ei_pending (cpu s)"
abbreviation CPU_CYCLES :: "'h mach \<Rightarrow> u8" where "CPU_CYCLES s \<equiv> cpu_cpu_cycles (cpu s)"
abbreviation reg_A :: "'h mach \<Rightarrow> u8" where "reg_A s \<equiv> hi8 (cpu_af (cpu s))"
abbreviation reg_F :: "'h mach \<Rightarrow> u8" where "reg_F s \<equiv> lo8 (cpu_af (cpu s))"
abbreviation reg_B :: "'h mach \<Rightarrow> u8" where "reg_B s \<equiv> hi8 (cpu_bc (cpu s))"
abbreviation reg_C :: "'h mach \<Rightarrow> u8" where "reg_C s \<equiv> lo8 (cpu_bc (cpu s))"
abbreviation reg_D :: "'h mach \<Rightarrow> u8" where "reg_D s \<equiv> hi8 (cpu_de (cpu s))"
abbreviation reg_E :: "'h mach \<Rightarrow> u8" where "reg_E s \<equiv> lo8 (cpu_de (cpu s))"
abbreviation reg_H :: "'h mach \<Rightarrow> u8" where "reg_H s \<equiv> hi8 (cpu_hl (cpu s))"
abbreviation reg_L :: "'h mach \<Rightarrow> u8" where "reg_L s \<equiv> lo8 (cpu_hl (cpu s))"

definition set_FLAGS :: "flag_reg \<Rightarrow> 'h mach \<Rightarrow> 'h mach" where
  "set_FLAGS v s = s\<lparr>cpu := (cpu s)\<lparr>cpu_f := v\<rparr>\<rparr>"

definition set_AF :: "u16 \<Rightarrow> 'h mach \<Rightarrow> 'h mach" where
  "set_AF v s = s\<lparr>cpu := (cpu s)\<lparr>cpu_af := v\<rparr>\<rparr>"

definition set_BC :: "u16 \<Rightarrow> 'h mach \<Rightarrow> 'h mach" where
  "set_BC v s = s\<lparr>cpu := (cpu s)\<lparr>cpu_bc := v\<rparr>\<rparr>"

definition set_DE :: "u16 \<Rightarrow> 'h mach \<Rightarrow> 'h mach" where
  "set_DE v s = s\<lparr>cpu := (cpu s)\<lparr>cpu_de := v\<rparr>\<rparr>"

definition set_HL :: "u16 \<Rightarrow> 'h mach \<Rightarrow> 'h mach" where
  "set_HL v s = s\<lparr>cpu := (cpu s)\<lparr>cpu_hl := v\<rparr>\<rparr>"

definition set_SP :: "u16 \<Rightarrow> 'h mach \<Rightarrow> 'h mach" where
  "set_SP v s = s\<lparr>cpu := (cpu s)\<lparr>cpu_sp := v\<rparr>\<rparr>"

definition set_PC :: "u16 \<Rightarrow> 'h mach \<Rightarrow> 'h mach" where
  "set_PC v s = s\<lparr>cpu := (cpu s)\<lparr>cpu_pc := v\<rparr>\<rparr>"

definition set_IFF :: "u16 \<Rightarrow> 'h mach \<Rightarrow> 'h mach" where
  "set_IFF v s = s\<lparr>cpu := (cpu s)\<lparr>cpu_iff := v\<rparr>\<rparr>"

definition set_EI_PENDING :: "u8 \<Rightarrow> 'h mach \<Rightarrow> 'h mach" where
  "set_EI_PENDING v s = s\<lparr>cpu := (cpu s)\<lparr>cpu_ei_pending := v\<rparr>\<rparr>"

definition set_CPU_CYCLES :: "u8 \<Rightarrow> 'h mach \<Rightarrow> 'h mach" where
  "set_CPU_CYCLES v s = s\<lparr>cpu := (cpu s)\<lparr>cpu_cpu_cycles := v\<rparr>\<rparr>"

definition set_C_FLAG :: "u8 \<Rightarrow> 'h mach \<Rightarrow> 'h mach" where
  "set_C_FLAG v s = set_FLAGS ((FLAGS s)\<lparr>carry_flag := v\<rparr>) s"

definition set_A :: "u8 \<Rightarrow> 'h mach \<Rightarrow> 'h mach" where
  "set_A v s = set_AF (mk16 v (lo8 (AF s))) s"

definition set_F :: "u8 \<Rightarrow> 'h mach \<Rightarrow> 'h mach" where
  "set_F v s = set_AF (mk16 (hi8 (AF s)) v) s"

definition set_B :: "u8 \<Rightarrow> 'h mach \<Rightarrow> 'h mach" where
  "set_B v s = set_BC (mk16 v (lo8 (BC s))) s"

definition set_C :: "u8 \<Rightarrow> 'h mach \<Rightarrow> 'h mach" where
  "set_C v s = set_BC (mk16 (hi8 (BC s)) v) s"

definition set_D :: "u8 \<Rightarrow> 'h mach \<Rightarrow> 'h mach" where
  "set_D v s = set_DE (mk16 v (lo8 (DE s))) s"

definition set_E :: "u8 \<Rightarrow> 'h mach \<Rightarrow> 'h mach" where
  "set_E v s = set_DE (mk16 (hi8 (DE s)) v) s"

definition set_H :: "u8 \<Rightarrow> 'h mach \<Rightarrow> 'h mach" where
  "set_H v s = set_HL (mk16 v (lo8 (HL s))) s"

definition set_L :: "u8 \<Rightarrow> 'h mach \<Rightarrow> 'h mach" where
  "set_L v s = set_HL (mk16 (hi8 (HL s)) v) s"

lemmas set_defs [cpu_simps] =
  set_FLAGS_def set_AF_def set_BC_def set_DE_def set_HL_def
  set_SP_def set_PC_def set_IFF_def set_EI_PENDING_def set_CPU_CYCLES_def
  set_C_FLAG_def set_A_def set_F_def set_B_def set_C_def
  set_D_def set_E_def set_H_def set_L_def

subsection \<open>Memory and stack macros\<close>

definition RD_BYTE :: "'h hal \<Rightarrow> u16 \<Rightarrow> 'h mach \<Rightarrow> u8 \<times> 'h mach" where
  "RD_BYTE H addr s =
     (let (v, b) = hal_memory_read_byte H (ucast addr) (bus s) in (ucast v, s\<lparr>bus := b\<rparr>))"

definition RD_WORD :: "'h hal \<Rightarrow> u16 \<Rightarrow> 'h mach \<Rightarrow> u16 \<times> 'h mach" where
  "RD_WORD H addr s =
     (let (v, b) = hal_memory_read_word H (ucast addr) False (bus s) in (ucast v, s\<lparr>bus := b\<rparr>))"

definition RD_STACK :: "'h hal \<Rightarrow> u16 \<Rightarrow> 'h mach \<Rightarrow> u16 \<times> 'h mach" where
  "RD_STACK H addr s =
     (let (v, b) = hal_memory_read_word H (ucast addr) True (bus s) in (ucast v, s\<lparr>bus := b\<rparr>))"

definition WR_BYTE :: "'h hal \<Rightarrow> u16 \<Rightarrow> u8 \<Rightarrow> 'h mach \<Rightarrow> 'h mach" where
  "WR_BYTE H addr v s = s\<lparr>bus := hal_memory_write_byte H (ucast addr) (ucast v) (bus s)\<rparr>"

definition WR_WORD :: "'h hal \<Rightarrow> u16 \<Rightarrow> u32 \<Rightarrow> 'h mach \<Rightarrow> 'h mach" where
  "WR_WORD H addr w s = s\<lparr>bus := hal_memory_write_word H (ucast addr) w False (bus s)\<rparr>"

definition WR_STACK :: "'h hal \<Rightarrow> u16 \<Rightarrow> u32 \<Rightarrow> 'h mach \<Rightarrow> 'h mach" where
  "WR_STACK H addr w s = s\<lparr>bus := hal_memory_write_word H (ucast addr) w True (bus s)\<rparr>"

text \<open>\<^verbatim>\<open>RD_BYTE(PC++)\<close>: the increment happens before the call.\<close>

definition FETCH :: "'h hal \<Rightarrow> 'h mach \<Rightarrow> u8 \<times> 'h mach" where
  "FETCH H s = (let pc = PC s; s = set_PC (pc + 1) s in RD_BYTE H pc s)"

definition POP :: "'h hal \<Rightarrow> (u16 \<Rightarrow> 'h mach \<Rightarrow> 'h mach) \<Rightarrow> 'h mach \<Rightarrow> 'h mach" where
  "POP H set_reg s =
     (let (w, s) = RD_STACK H (SP s) s; s = set_reg w s in set_SP (SP s + 2) s)"

definition PUSH :: "'h hal \<Rightarrow> u32 \<Rightarrow> 'h mach \<Rightarrow> 'h mach" where
  "PUSH H reg s = (let s = set_SP (SP s - 2) s in WR_STACK H (SP s) reg s)"

definition CALL :: "'h hal \<Rightarrow> 'h mach \<Rightarrow> 'h mach" where
  "CALL H s =
     (let s = PUSH H (ucast (PC s) + 2) s; (w, s) = RD_STACK H (PC s) s in set_PC w s)"

definition RST :: "'h hal \<Rightarrow> u16 \<Rightarrow> 'h mach \<Rightarrow> 'h mach" where
  "RST H addr s = (let s = PUSH H (ucast (PC s)) s in set_PC addr s)"

text \<open>
  The arithmetic macros applied to an lvalue: \<open>upd8\<close> for \<^verbatim>\<open>INR(reg)\<close> and
  \<^verbatim>\<open>DCR(reg)\<close>, \<open>upd_a\<close> for the macros that write the accumulator, \<open>upd_hl\<close>
  for \<^verbatim>\<open>DAD\<close>.
\<close>

definition upd8 ::
  "(u8 \<Rightarrow> flag_reg \<Rightarrow> u8 \<times> flag_reg) \<Rightarrow> ('h mach \<Rightarrow> u8) \<Rightarrow> (u8 \<Rightarrow> 'h mach \<Rightarrow> 'h mach) \<Rightarrow>
   'h mach \<Rightarrow> 'h mach" where
  "upd8 f get_reg set_reg s = (let (r, fl) = f (get_reg s) (FLAGS s) in set_reg r (set_FLAGS fl s))"

definition upd_a :: "(u8 \<Rightarrow> flag_reg \<Rightarrow> u8 \<times> flag_reg) \<Rightarrow> 'h mach \<Rightarrow> 'h mach" where
  "upd_a f s = (let (a, fl) = f (reg_A s) (FLAGS s) in set_A a (set_FLAGS fl s))"

definition upd_hl :: "(u16 \<Rightarrow> flag_reg \<Rightarrow> u16 \<times> flag_reg) \<Rightarrow> 'h mach \<Rightarrow> 'h mach" where
  "upd_hl f s = (let (w, fl) = f (HL s) (FLAGS s) in set_HL w (set_FLAGS fl s))"

subsection \<open>Initialisation and the flag byte\<close>

definition i8080_init :: "'h mach \<Rightarrow> 'h mach" where
  "i8080_init s =
     (let fl = (FLAGS s)\<lparr>carry_flag := 0, sign_flag := 0, zero_flag := 0, half_carry_flag := 0,
                 parity_flag := 0, unused1 := 1, unused3 := 0, unused5 := 0\<rparr>
      in set_PC 0 (set_FLAGS fl s))"

definition F_CARRY :: u8 where "F_CARRY = 0x01"
definition F_UN1 :: u8 where "F_UN1 = 0x02"
definition F_PARITY :: u8 where "F_PARITY = 0x04"
definition F_UN3 :: u8 where "F_UN3 = 0x08"
definition F_HCARRY :: u8 where "F_HCARRY = 0x10"
definition F_UN5 :: u8 where "F_UN5 = 0x20"
definition F_ZERO :: u8 where "F_ZERO = 0x40"
definition F_NEG :: u8 where "F_NEG = 0x80"

definition store_flag :: "u8 \<Rightarrow> u8 \<Rightarrow> u8 \<Rightarrow> u8" where
  "store_flag flag bits f = (if flag \<noteq> 0 then f OR bits else f AND NOT bits)"

definition i8080_store_flags :: "'h mach \<Rightarrow> 'h mach" where
  "i8080_store_flags s =
     (let fl = FLAGS s; f = reg_F s;
          f = store_flag (sign_flag fl) F_NEG f;
          f = store_flag (zero_flag fl) F_ZERO f;
          f = store_flag (half_carry_flag fl) F_HCARRY f;
          f = store_flag (parity_flag fl) F_PARITY f;
          f = store_flag (carry_flag fl) F_CARRY f;
          f = f OR F_UN1;
          f = f AND NOT F_UN3;
          f = f AND NOT F_UN5
      in set_F f s)"

definition i8080_retrieve_flags :: "'h mach \<Rightarrow> 'h mach" where
  "i8080_retrieve_flags s =
     (let f = reg_F s
      in set_FLAGS ((FLAGS s)\<lparr>sign_flag := (if f AND F_NEG \<noteq> 0 then 1 else 0),
            zero_flag := (if f AND F_ZERO \<noteq> 0 then 1 else 0),
            half_carry_flag := (if f AND F_HCARRY \<noteq> 0 then 1 else 0),
            parity_flag := (if f AND F_PARITY \<noteq> 0 then 1 else 0),
            carry_flag := (if f AND F_CARRY \<noteq> 0 then 1 else 0)\<rparr>) s)"

subsection \<open>The switch, one row of sixteen opcodes at a time\<close>

definition exec_0x :: "'h hal \<Rightarrow> u32 \<Rightarrow> 'h mach \<Rightarrow> (int \<times> int) \<times> 'h mach" where
  "exec_0x H opcode s =
     (if opcode = 0x00 \<or> opcode = 0x08 then
        ((4, 4), s)
      else if opcode = 0x01 then
        (let (w, s) = RD_WORD H (PC s) s; s = set_BC w s in ((10, 12), set_PC (PC s + 2) s))
      else if opcode = 0x02 then
        ((7, 8), WR_BYTE H (BC s) (reg_A s) s)
      else if opcode = 0x03 then
        ((5, 8), set_BC (BC s + 1) s)
      else if opcode = 0x04 then
        ((5, 8), upd8 INR reg_B set_B s)
      else if opcode = 0x05 then
        ((5, 8), upd8 DCR reg_B set_B s)
      else if opcode = 0x06 then
        (let (v, s) = FETCH H s in ((7, 8), set_B v s))
      else if opcode = 0x07 then
        (let cf = of_bool (reg_A s AND 0x80 \<noteq> 0); s = set_C_FLAG cf s
          in ((4, 4), set_A (push_bit 1 (reg_A s) OR cf) s))
      else if opcode = 0x09 then
        ((10, 12), upd_hl (DAD (BC s)) s)
      else if opcode = 0x0a then
        (let (v, s) = RD_BYTE H (BC s) s in ((7, 8), set_A v s))
      else if opcode = 0x0b then
        ((5, 8), set_BC (BC s - 1) s)
      else if opcode = 0x0c then
        ((5, 8), upd8 INR reg_C set_C s)
      else if opcode = 0x0d then
        ((5, 8), upd8 DCR reg_C set_C s)
      else if opcode = 0x0e then
        (let (v, s) = FETCH H s in ((7, 8), set_C v s))
      else \<comment> \<open>case 0x0f\<close>
        (let cf = reg_A s AND 0x01; s = set_C_FLAG cf s
          in ((4, 4), set_A (drop_bit 1 (reg_A s) OR push_bit 7 cf) s)))"

definition exec_1x :: "'h hal \<Rightarrow> u32 \<Rightarrow> 'h mach \<Rightarrow> (int \<times> int) \<times> 'h mach" where
  "exec_1x H opcode s =
     (if opcode = 0x10 \<or> opcode = 0x18 then
        ((4, 4), s)
      else if opcode = 0x11 then
        (let (w, s) = RD_WORD H (PC s) s; s = set_DE w s in ((10, 12), set_PC (PC s + 2) s))
      else if opcode = 0x12 then
        ((7, 8), WR_BYTE H (DE s) (reg_A s) s)
      else if opcode = 0x13 then
        ((5, 8), set_DE (DE s + 1) s)
      else if opcode = 0x14 then
        ((5, 8), upd8 INR reg_D set_D s)
      else if opcode = 0x15 then
        ((5, 8), upd8 DCR reg_D set_D s)
      else if opcode = 0x16 then
        (let (v, s) = FETCH H s in ((7, 8), set_D v s))
      else if opcode = 0x17 then
        (let work8 = carry_flag (FLAGS s);
          s = set_C_FLAG (of_bool (reg_A s AND 0x80 \<noteq> 0)) s
            in ((4, 4), set_A (push_bit 1 (reg_A s) OR work8) s))
      else if opcode = 0x19 then
        ((10, 12), upd_hl (DAD (DE s)) s)
      else if opcode = 0x1a then
        (let (v, s) = RD_BYTE H (DE s) s in ((7, 8), set_A v s))
      else if opcode = 0x1b then
        ((5, 8), set_DE (DE s - 1) s)
      else if opcode = 0x1c then
        ((5, 8), upd8 INR reg_E set_E s)
      else if opcode = 0x1d then
        ((5, 8), upd8 DCR reg_E set_E s)
      else if opcode = 0x1e then
        (let (v, s) = FETCH H s in ((7, 8), set_E v s))
      else \<comment> \<open>case 0x1f\<close>
        (let work8 = carry_flag (FLAGS s); s = set_C_FLAG (reg_A s AND 0x01) s
          in ((4, 4), set_A (drop_bit 1 (reg_A s) OR push_bit 7 work8) s)))"

definition exec_2x :: "'h hal \<Rightarrow> u32 \<Rightarrow> 'h mach \<Rightarrow> (int \<times> int) \<times> 'h mach" where
  "exec_2x H opcode s =
     (if opcode = 0x20 \<or> opcode = 0x28 then
        ((4, 4), s)
      else if opcode = 0x21 then
        (let (w, s) = RD_WORD H (PC s) s; s = set_HL w s in ((10, 12), set_PC (PC s + 2) s))
      else if opcode = 0x22 then
        (let (w, s) = RD_WORD H (PC s) s; s = WR_WORD H w (ucast (HL s)) s
          in ((16, 20), set_PC (PC s + 2) s))
      else if opcode = 0x23 then
        ((5, 8), set_HL (HL s + 1) s)
      else if opcode = 0x24 then
        ((5, 8), upd8 INR reg_H set_H s)
      else if opcode = 0x25 then
        ((5, 8), upd8 DCR reg_H set_H s)
      else if opcode = 0x26 then
        (let (v, s) = FETCH H s in ((7, 8), set_H v s))
      else if opcode = 0x27 then
        ((4, 4), upd_a DAA s)
      else if opcode = 0x29 then
        ((10, 12), upd_hl (DAD (HL s)) s)
      else if opcode = 0x2a then
        (let (w, s) = RD_WORD H (PC s) s; (v, s) = RD_WORD H w s; s = set_HL v s
          in ((16, 20), set_PC (PC s + 2) s))
      else if opcode = 0x2b then
        ((5, 8), set_HL (HL s - 1) s)
      else if opcode = 0x2c then
        ((5, 8), upd8 INR reg_L set_L s)
      else if opcode = 0x2d then
        ((5, 8), upd8 DCR reg_L set_L s)
      else if opcode = 0x2e then
        (let (v, s) = FETCH H s in ((7, 8), set_L v s))
      else \<comment> \<open>case 0x2f\<close>
        ((4, 4), set_A (reg_A s XOR 0xff) s))"

definition exec_3x :: "'h hal \<Rightarrow> u32 \<Rightarrow> 'h mach \<Rightarrow> (int \<times> int) \<times> 'h mach" where
  "exec_3x H opcode s =
     (if opcode = 0x30 \<or> opcode = 0x38 then
        ((4, 4), s)
      else if opcode = 0x31 then
        (let (w, s) = RD_WORD H (PC s) s; s = set_SP w s in ((10, 12), set_PC (PC s + 2) s))
      else if opcode = 0x32 then
        (let (w, s) = RD_WORD H (PC s) s; s = WR_BYTE H w (reg_A s) s
          in ((13, 16), set_PC (PC s + 2) s))
      else if opcode = 0x33 then
        ((5, 8), set_SP (SP s + 1) s)
      else if opcode = 0x34 then
        (let (work8, s) = RD_BYTE H (HL s) s; (work8, fl) = INR work8 (FLAGS s);
          s = set_FLAGS fl s in ((10, 12), WR_BYTE H (HL s) work8 s))
      else if opcode = 0x35 then
        (let (work8, s) = RD_BYTE H (HL s) s; (work8, s) = RD_BYTE H (HL s) s;
          (work8, fl) = DCR work8 (FLAGS s); s = set_FLAGS fl s
            in ((10, 12), WR_BYTE H (HL s) work8 s))
      else if opcode = 0x36 then
        (let (work8, s) = RD_BYTE H (HL s) s; (v, s) = FETCH H s
          in ((10, 12), WR_BYTE H (HL s) v s))
      else if opcode = 0x37 then
        ((4, 4), set_C_FLAG 1 s)
      else if opcode = 0x39 then
        ((10, 12), upd_hl (DAD (SP s)) s)
      else if opcode = 0x3a then
        (let (w, s) = RD_WORD H (PC s) s; (v, s) = RD_BYTE H w s; s = set_A v s
          in ((13, 16), set_PC (PC s + 2) s))
      else if opcode = 0x3b then
        ((5, 8), set_SP (SP s - 1) s)
      else if opcode = 0x3c then
        ((5, 8), upd8 INR reg_A set_A s)
      else if opcode = 0x3d then
        ((5, 8), upd8 DCR reg_A set_A s)
      else if opcode = 0x3e then
        (let (v, s) = FETCH H s in ((7, 8), set_A v s))
      else \<comment> \<open>case 0x3f\<close>
        ((4, 4), set_C_FLAG (of_bool (carry_flag (FLAGS s) = 0)) s))"

definition exec_4x :: "'h hal \<Rightarrow> u32 \<Rightarrow> 'h mach \<Rightarrow> (int \<times> int) \<times> 'h mach" where
  "exec_4x H opcode s =
     (if opcode = 0x40 then
        ((5, 8), s)
      else if opcode = 0x41 then
        ((5, 8), set_B (reg_C s) s)
      else if opcode = 0x42 then
        ((5, 8), set_B (reg_D s) s)
      else if opcode = 0x43 then
        ((5, 8), set_B (reg_E s) s)
      else if opcode = 0x44 then
        ((5, 8), set_B (reg_H s) s)
      else if opcode = 0x45 then
        ((5, 8), set_B (reg_L s) s)
      else if opcode = 0x46 then
        (let (v, s) = RD_BYTE H (HL s) s in ((7, 8), set_B v s))
      else if opcode = 0x47 then
        ((5, 8), set_B (reg_A s) s)
      else if opcode = 0x48 then
        ((5, 8), set_C (reg_B s) s)
      else if opcode = 0x49 then
        ((5, 8), s)
      else if opcode = 0x4a then
        ((5, 8), set_C (reg_D s) s)
      else if opcode = 0x4b then
        ((5, 8), set_C (reg_E s) s)
      else if opcode = 0x4c then
        ((5, 8), set_C (reg_H s) s)
      else if opcode = 0x4d then
        ((5, 8), set_C (reg_L s) s)
      else if opcode = 0x4e then
        (let (v, s) = RD_BYTE H (HL s) s in ((7, 8), set_C v s))
      else \<comment> \<open>case 0x4f\<close>
        ((5, 8), set_C (reg_A s) s))"

definition exec_5x :: "'h hal \<Rightarrow> u32 \<Rightarrow> 'h mach \<Rightarrow> (int \<times> int) \<times> 'h mach" where
  "exec_5x H opcode s =
     (if opcode = 0x50 then
        ((5, 8), set_D (reg_B s) s)
      else if opcode = 0x51 then
        ((5, 8), set_D (reg_C s) s)
      else if opcode = 0x52 then
        ((5, 8), s)
      else if opcode = 0x53 then
        ((5, 8), set_D (reg_E s) s)
      else if opcode = 0x54 then
        ((5, 8), set_D (reg_H s) s)
      else if opcode = 0x55 then
        ((5, 8), set_D (reg_L s) s)
      else if opcode = 0x56 then
        (let (v, s) = RD_BYTE H (HL s) s in ((7, 8), set_D v s))
      else if opcode = 0x57 then
        ((5, 8), set_D (reg_A s) s)
      else if opcode = 0x58 then
        ((5, 8), set_E (reg_B s) s)
      else if opcode = 0x59 then
        ((5, 8), set_E (reg_C s) s)
      else if opcode = 0x5a then
        ((5, 8), set_E (reg_D s) s)
      else if opcode = 0x5b then
        ((5, 8), s)
      else if opcode = 0x5c then
        ((5, 8), set_E (reg_H s) s)
      else if opcode = 0x5d then
        ((5, 8), set_E (reg_L s) s)
      else if opcode = 0x5e then
        (let (v, s) = RD_BYTE H (HL s) s in ((7, 8), set_E v s))
      else \<comment> \<open>case 0x5f\<close>
        ((5, 8), set_E (reg_A s) s))"

definition exec_6x :: "'h hal \<Rightarrow> u32 \<Rightarrow> 'h mach \<Rightarrow> (int \<times> int) \<times> 'h mach" where
  "exec_6x H opcode s =
     (if opcode = 0x60 then
        ((5, 8), set_H (reg_B s) s)
      else if opcode = 0x61 then
        ((5, 8), set_H (reg_C s) s)
      else if opcode = 0x62 then
        ((5, 8), set_H (reg_D s) s)
      else if opcode = 0x63 then
        ((5, 8), set_H (reg_E s) s)
      else if opcode = 0x64 then
        ((5, 8), s)
      else if opcode = 0x65 then
        ((5, 8), set_H (reg_L s) s)
      else if opcode = 0x66 then
        (let (v, s) = RD_BYTE H (HL s) s in ((7, 8), set_H v s))
      else if opcode = 0x67 then
        ((5, 8), set_H (reg_A s) s)
      else if opcode = 0x68 then
        ((5, 8), set_L (reg_B s) s)
      else if opcode = 0x69 then
        ((5, 8), set_L (reg_C s) s)
      else if opcode = 0x6a then
        ((5, 8), set_L (reg_D s) s)
      else if opcode = 0x6b then
        ((5, 8), set_L (reg_E s) s)
      else if opcode = 0x6c then
        ((5, 8), set_L (reg_H s) s)
      else if opcode = 0x6d then
        ((5, 8), s)
      else if opcode = 0x6e then
        (let (v, s) = RD_BYTE H (HL s) s in ((7, 8), set_L v s))
      else \<comment> \<open>case 0x6f\<close>
        ((5, 8), set_L (reg_A s) s))"

definition exec_7x :: "'h hal \<Rightarrow> u32 \<Rightarrow> 'h mach \<Rightarrow> (int \<times> int) \<times> 'h mach" where
  "exec_7x H opcode s =
     (if opcode = 0x70 then
        ((7, 8), WR_BYTE H (HL s) (reg_B s) s)
      else if opcode = 0x71 then
        ((7, 8), WR_BYTE H (HL s) (reg_C s) s)
      else if opcode = 0x72 then
        ((7, 8), WR_BYTE H (HL s) (reg_D s) s)
      else if opcode = 0x73 then
        ((7, 8), WR_BYTE H (HL s) (reg_E s) s)
      else if opcode = 0x74 then
        ((7, 8), WR_BYTE H (HL s) (reg_H s) s)
      else if opcode = 0x75 then
        ((7, 8), WR_BYTE H (HL s) (reg_L s) s)
      else if opcode = 0x76 then
        ((4, 4), set_PC (PC s - 1) s)
      else if opcode = 0x77 then
        ((7, 8), WR_BYTE H (HL s) (reg_A s) s)
      else if opcode = 0x78 then
        ((5, 8), set_A (reg_B s) s)
      else if opcode = 0x79 then
        ((5, 8), set_A (reg_C s) s)
      else if opcode = 0x7a then
        ((5, 8), set_A (reg_D s) s)
      else if opcode = 0x7b then
        ((5, 8), set_A (reg_E s) s)
      else if opcode = 0x7c then
        ((5, 8), set_A (reg_H s) s)
      else if opcode = 0x7d then
        ((5, 8), set_A (reg_L s) s)
      else if opcode = 0x7e then
        (let (v, s) = RD_BYTE H (HL s) s in ((7, 8), set_A v s))
      else \<comment> \<open>case 0x7f\<close>
        ((5, 8), s))"

definition exec_8x :: "'h hal \<Rightarrow> u32 \<Rightarrow> 'h mach \<Rightarrow> (int \<times> int) \<times> 'h mach" where
  "exec_8x H opcode s =
     (if opcode = 0x80 then
        ((4, 4), upd_a (ADD (reg_B s)) s)
      else if opcode = 0x81 then
        ((4, 4), upd_a (ADD (reg_C s)) s)
      else if opcode = 0x82 then
        ((4, 4), upd_a (ADD (reg_D s)) s)
      else if opcode = 0x83 then
        ((4, 4), upd_a (ADD (reg_E s)) s)
      else if opcode = 0x84 then
        ((4, 4), upd_a (ADD (reg_H s)) s)
      else if opcode = 0x85 then
        ((4, 4), upd_a (ADD (reg_L s)) s)
      else if opcode = 0x86 then
        (let (work8, s) = RD_BYTE H (HL s) s in ((7, 8), upd_a (ADD work8) s))
      else if opcode = 0x87 then
        ((4, 4), upd_a (ADD (reg_A s)) s)
      else if opcode = 0x88 then
        ((4, 4), upd_a (ADC (reg_B s)) s)
      else if opcode = 0x89 then
        ((4, 4), upd_a (ADC (reg_C s)) s)
      else if opcode = 0x8a then
        ((4, 4), upd_a (ADC (reg_D s)) s)
      else if opcode = 0x8b then
        ((4, 4), upd_a (ADC (reg_E s)) s)
      else if opcode = 0x8c then
        ((4, 4), upd_a (ADC (reg_H s)) s)
      else if opcode = 0x8d then
        ((4, 4), upd_a (ADC (reg_L s)) s)
      else if opcode = 0x8e then
        (let (work8, s) = RD_BYTE H (HL s) s in ((7, 8), upd_a (ADC work8) s))
      else \<comment> \<open>case 0x8f\<close>
        ((4, 4), upd_a (ADC (reg_A s)) s))"

definition exec_9x :: "'h hal \<Rightarrow> u32 \<Rightarrow> 'h mach \<Rightarrow> (int \<times> int) \<times> 'h mach" where
  "exec_9x H opcode s =
     (if opcode = 0x90 then
        ((4, 4), upd_a (SUB (reg_B s)) s)
      else if opcode = 0x91 then
        ((4, 4), upd_a (SUB (reg_C s)) s)
      else if opcode = 0x92 then
        ((4, 4), upd_a (SUB (reg_D s)) s)
      else if opcode = 0x93 then
        ((4, 4), upd_a (SUB (reg_E s)) s)
      else if opcode = 0x94 then
        ((4, 4), upd_a (SUB (reg_H s)) s)
      else if opcode = 0x95 then
        ((4, 4), upd_a (SUB (reg_L s)) s)
      else if opcode = 0x96 then
        (let (work8, s) = RD_BYTE H (HL s) s in ((7, 8), upd_a (SUB work8) s))
      else if opcode = 0x97 then
        ((4, 4), upd_a (SUB (reg_A s)) s)
      else if opcode = 0x98 then
        ((4, 4), upd_a (SBB (reg_B s)) s)
      else if opcode = 0x99 then
        ((4, 4), upd_a (SBB (reg_C s)) s)
      else if opcode = 0x9a then
        ((4, 4), upd_a (SBB (reg_D s)) s)
      else if opcode = 0x9b then
        ((4, 4), upd_a (SBB (reg_E s)) s)
      else if opcode = 0x9c then
        ((4, 4), upd_a (SBB (reg_H s)) s)
      else if opcode = 0x9d then
        ((4, 4), upd_a (SBB (reg_L s)) s)
      else if opcode = 0x9e then
        (let (work8, s) = RD_BYTE H (HL s) s in ((7, 8), upd_a (SBB work8) s))
      else \<comment> \<open>case 0x9f\<close>
        ((4, 4), upd_a (SBB (reg_A s)) s))"

definition exec_Ax :: "'h hal \<Rightarrow> u32 \<Rightarrow> 'h mach \<Rightarrow> (int \<times> int) \<times> 'h mach" where
  "exec_Ax H opcode s =
     (if opcode = 0xa0 then
        ((4, 4), upd_a (ANA (reg_B s)) s)
      else if opcode = 0xa1 then
        ((4, 4), upd_a (ANA (reg_C s)) s)
      else if opcode = 0xa2 then
        ((4, 4), upd_a (ANA (reg_D s)) s)
      else if opcode = 0xa3 then
        ((4, 4), upd_a (ANA (reg_E s)) s)
      else if opcode = 0xa4 then
        ((4, 4), upd_a (ANA (reg_H s)) s)
      else if opcode = 0xa5 then
        ((4, 4), upd_a (ANA (reg_L s)) s)
      else if opcode = 0xa6 then
        (let (work8, s) = RD_BYTE H (HL s) s in ((7, 8), upd_a (ANA work8) s))
      else if opcode = 0xa7 then
        ((4, 4), upd_a (ANA (reg_A s)) s)
      else if opcode = 0xa8 then
        ((4, 4), upd_a (XRA (reg_B s)) s)
      else if opcode = 0xa9 then
        ((4, 4), upd_a (XRA (reg_C s)) s)
      else if opcode = 0xaa then
        ((4, 4), upd_a (XRA (reg_D s)) s)
      else if opcode = 0xab then
        ((4, 4), upd_a (XRA (reg_E s)) s)
      else if opcode = 0xac then
        ((4, 4), upd_a (XRA (reg_H s)) s)
      else if opcode = 0xad then
        ((4, 4), upd_a (XRA (reg_L s)) s)
      else if opcode = 0xae then
        (let (work8, s) = RD_BYTE H (HL s) s in ((7, 8), upd_a (XRA work8) s))
      else \<comment> \<open>case 0xaf\<close>
        ((4, 4), upd_a (XRA (reg_A s)) s))"

definition exec_Bx :: "'h hal \<Rightarrow> u32 \<Rightarrow> 'h mach \<Rightarrow> (int \<times> int) \<times> 'h mach" where
  "exec_Bx H opcode s =
     (if opcode = 0xb0 then
        ((4, 4), upd_a (ORA (reg_B s)) s)
      else if opcode = 0xb1 then
        ((4, 4), upd_a (ORA (reg_C s)) s)
      else if opcode = 0xb2 then
        ((4, 4), upd_a (ORA (reg_D s)) s)
      else if opcode = 0xb3 then
        ((4, 4), upd_a (ORA (reg_E s)) s)
      else if opcode = 0xb4 then
        ((4, 4), upd_a (ORA (reg_H s)) s)
      else if opcode = 0xb5 then
        ((4, 4), upd_a (ORA (reg_L s)) s)
      else if opcode = 0xb6 then
        (let (work8, s) = RD_BYTE H (HL s) s in ((7, 8), upd_a (ORA work8) s))
      else if opcode = 0xb7 then
        ((4, 4), upd_a (ORA (reg_A s)) s)
      else if opcode = 0xb8 then
        ((4, 4), set_FLAGS (CMP (reg_B s) (reg_A s) (FLAGS s)) s)
      else if opcode = 0xb9 then
        ((4, 4), set_FLAGS (CMP (reg_C s) (reg_A s) (FLAGS s)) s)
      else if opcode = 0xba then
        ((4, 4), set_FLAGS (CMP (reg_D s) (reg_A s) (FLAGS s)) s)
      else if opcode = 0xbb then
        ((4, 4), set_FLAGS (CMP (reg_E s) (reg_A s) (FLAGS s)) s)
      else if opcode = 0xbc then
        ((4, 4), set_FLAGS (CMP (reg_H s) (reg_A s) (FLAGS s)) s)
      else if opcode = 0xbd then
        ((4, 4), set_FLAGS (CMP (reg_L s) (reg_A s) (FLAGS s)) s)
      else if opcode = 0xbe then
        (let (work8, s) = RD_BYTE H (HL s) s
          in ((7, 8), set_FLAGS (CMP work8 (reg_A s) (FLAGS s)) s))
      else \<comment> \<open>case 0xbf\<close>
        ((4, 4), set_FLAGS (CMP (reg_A s) (reg_A s) (FLAGS s)) s))"

definition exec_Cx :: "'h hal \<Rightarrow> u32 \<Rightarrow> 'h mach \<Rightarrow> (int \<times> int) \<times> 'h mach" where
  "exec_Cx H opcode s =
     (if opcode = 0xc0 then
        (if zero_flag (FLAGS s) = 0 then ((11, 16), POP H set_PC s) else ((5, 8), s))
      else if opcode = 0xc1 then
        ((11, 12), POP H set_BC s)
      else if opcode = 0xc2 then
        (if zero_flag (FLAGS s) = 0 then let (w, s) = RD_WORD H (PC s) s
          in ((10, 12), set_PC w s) else ((10, 12), set_PC (PC s + 2) s))
      else if opcode = 0xc3 \<or> opcode = 0xcb then
        (let (w, s) = RD_WORD H (PC s) s in ((10, 12), set_PC w s))
      else if opcode = 0xc4 then
        (if zero_flag (FLAGS s) = 0 then ((17, 24), CALL H s) else ((11, 16), set_PC (PC s + 2) s))
      else if opcode = 0xc5 then
        ((11, 16), PUSH H (ucast (BC s)) s)
      else if opcode = 0xc6 then
        (let (work8, s) = FETCH H s in ((7, 8), upd_a (ADD work8) s))
      else if opcode = 0xc7 then
        ((11, 16), RST H 0x0000 s)
      else if opcode = 0xc8 then
        (if zero_flag (FLAGS s) \<noteq> 0 then ((11, 16), POP H set_PC s) else ((5, 8), s))
      else if opcode = 0xc9 then
        ((10, 12), POP H set_PC s)
      else if opcode = 0xca then
        (if zero_flag (FLAGS s) \<noteq> 0 then let (w, s) = RD_WORD H (PC s) s
          in ((10, 12), set_PC w s) else ((10, 12), set_PC (PC s + 2) s))
      else if opcode = 0xcc then
        (if zero_flag (FLAGS s) \<noteq> 0 then ((17, 24), CALL H s)
          else ((11, 16), set_PC (PC s + 2) s))
      else if opcode = 0xcd then
        ((17, 24), CALL H s)
      else if opcode = 0xce then
        (let (work8, s) = FETCH H s in ((7, 8), upd_a (ADC work8) s))
      else \<comment> \<open>case 0xcf\<close>
        ((11, 16), RST H 0x0008 s))"

definition exec_Dx :: "'h hal \<Rightarrow> u32 \<Rightarrow> 'h mach \<Rightarrow> (int \<times> int) \<times> 'h mach" where
  "exec_Dx H opcode s =
     (if opcode = 0xd0 then
        (if carry_flag (FLAGS s) = 0 then ((11, 16), POP H set_PC s) else ((5, 8), s))
      else if opcode = 0xd1 then
        ((11, 12), POP H set_DE s)
      else if opcode = 0xd2 then
        (if carry_flag (FLAGS s) = 0 then let (w, s) = RD_WORD H (PC s) s
          in ((10, 12), set_PC w s) else ((10, 12), set_PC (PC s + 2) s))
      else if opcode = 0xd3 then
        (let (port, s) = FETCH H s
          in ((10, 12), s\<lparr>bus := hal_io_output H (ucast port) (ucast (reg_A s)) (bus s)\<rparr>))
      else if opcode = 0xd4 then
        (if carry_flag (FLAGS s) = 0 then ((17, 24), CALL H s) else ((11, 16), set_PC (PC s + 2) s))
      else if opcode = 0xd5 then
        ((11, 16), PUSH H (ucast (DE s)) s)
      else if opcode = 0xd6 then
        (let (work8, s) = FETCH H s in ((7, 8), upd_a (SUB work8) s))
      else if opcode = 0xd7 then
        ((11, 16), RST H 0x0010 s)
      else if opcode = 0xd8 then
        (if carry_flag (FLAGS s) \<noteq> 0 then ((11, 16), POP H set_PC s) else ((5, 8), s))
      else if opcode = 0xd9 then
        ((10, 12), POP H set_PC s)
      else if opcode = 0xda then
        (if carry_flag (FLAGS s) \<noteq> 0 then let (w, s) = RD_WORD H (PC s) s
          in ((10, 12), set_PC w s) else ((10, 12), set_PC (PC s + 2) s))
      else if opcode = 0xdb then
        (let (port, s) = FETCH H s; (v, b) = hal_io_input H (ucast port) (bus s)
          in ((10, 12), set_A (ucast v) (s\<lparr>bus := b\<rparr>)))
      else if opcode = 0xdc then
        (if carry_flag (FLAGS s) \<noteq> 0 then ((17, 24), CALL H s)
          else ((11, 16), set_PC (PC s + 2) s))
      else if opcode = 0xdd then
        ((17, 24), CALL H s)
      else if opcode = 0xde then
        (let (work8, s) = FETCH H s in ((7, 8), upd_a (SBB work8) s))
      else \<comment> \<open>case 0xdf\<close>
        ((11, 16), RST H 0x0018 s))"

definition exec_Ex :: "'h hal \<Rightarrow> u32 \<Rightarrow> 'h mach \<Rightarrow> (int \<times> int) \<times> 'h mach" where
  "exec_Ex H opcode s =
     (if opcode = 0xe0 then
        (if parity_flag (FLAGS s) = 0 then ((11, 16), POP H set_PC s) else ((5, 8), s))
      else if opcode = 0xe1 then
        ((11, 12), POP H set_HL s)
      else if opcode = 0xe2 then
        (if parity_flag (FLAGS s) = 0 then let (w, s) = RD_WORD H (PC s) s
          in ((10, 12), set_PC w s) else ((10, 12), set_PC (PC s + 2) s))
      else if opcode = 0xe3 then
        (let (work16, s) = RD_STACK H (SP s) s; s = WR_STACK H (SP s) (ucast (HL s)) s
          in ((18, 24), set_HL work16 s))
      else if opcode = 0xe4 then
        (if parity_flag (FLAGS s) = 0 then ((17, 24), CALL H s)
          else ((11, 16), set_PC (PC s + 2) s))
      else if opcode = 0xe5 then
        ((11, 16), PUSH H (ucast (HL s)) s)
      else if opcode = 0xe6 then
        (let (work8, s) = FETCH H s in ((7, 8), upd_a (ANA work8) s))
      else if opcode = 0xe7 then
        ((11, 16), RST H 0x0020 s)
      else if opcode = 0xe8 then
        (if parity_flag (FLAGS s) \<noteq> 0 then ((11, 16), POP H set_PC s) else ((5, 8), s))
      else if opcode = 0xe9 then
        ((5, 8), set_PC (HL s) s)
      else if opcode = 0xea then
        (if parity_flag (FLAGS s) \<noteq> 0 then let (w, s) = RD_WORD H (PC s) s
          in ((10, 12), set_PC w s) else ((10, 12), set_PC (PC s + 2) s))
      else if opcode = 0xeb then
        (let work16 = DE s; s = set_DE (HL s) s in ((4, 4), set_HL work16 s))
      else if opcode = 0xec then
        (if parity_flag (FLAGS s) \<noteq> 0 then ((17, 24), CALL H s)
          else ((11, 16), set_PC (PC s + 2) s))
      else if opcode = 0xed then
        ((17, 24), CALL H s)
      else if opcode = 0xee then
        (let (work8, s) = FETCH H s in ((7, 8), upd_a (XRA work8) s))
      else \<comment> \<open>case 0xef\<close>
        ((11, 16), RST H 0x0028 s))"

definition exec_Fx :: "'h hal \<Rightarrow> u32 \<Rightarrow> 'h mach \<Rightarrow> (int \<times> int) \<times> 'h mach" where
  "exec_Fx H opcode s =
     (if opcode = 0xf0 then
        (if sign_flag (FLAGS s) = 0 then ((11, 16), POP H set_PC s) else ((5, 8), s))
      else if opcode = 0xf1 then
        ((10, 12), i8080_retrieve_flags (POP H set_AF s))
      else if opcode = 0xf2 then
        (if sign_flag (FLAGS s) = 0 then let (w, s) = RD_WORD H (PC s) s
          in ((10, 12), set_PC w s) else ((10, 12), set_PC (PC s + 2) s))
      else if opcode = 0xf3 then
        (let s = set_IFF 0 s; s = set_EI_PENDING 0 s
          in ((4, 4), s\<lparr>bus := hal_iff H (ucast (IFF s)) (bus s)\<rparr>))
      else if opcode = 0xf4 then
        (if sign_flag (FLAGS s) = 0 then ((17, 24), CALL H s) else ((11, 16), set_PC (PC s + 2) s))
      else if opcode = 0xf5 then
        (let s = i8080_store_flags s in ((11, 16), PUSH H (ucast (AF s)) s))
      else if opcode = 0xf6 then
        (let (work8, s) = FETCH H s in ((7, 8), upd_a (ORA work8) s))
      else if opcode = 0xf7 then
        ((11, 16), RST H 0x0030 s)
      else if opcode = 0xf8 then
        (if sign_flag (FLAGS s) \<noteq> 0 then ((11, 16), POP H set_PC s) else ((5, 8), s))
      else if opcode = 0xf9 then
        ((5, 8), set_SP (HL s) s)
      else if opcode = 0xfa then
        (if sign_flag (FLAGS s) \<noteq> 0 then let (w, s) = RD_WORD H (PC s) s
          in ((10, 12), set_PC w s) else ((10, 12), set_PC (PC s + 2) s))
      else if opcode = 0xfb then
        (let s = set_IFF 0 s; s = s\<lparr>bus := hal_iff H 1 (bus s)\<rparr>
          in ((4, 4), set_EI_PENDING 2 s))
      else if opcode = 0xfc then
        (if sign_flag (FLAGS s) \<noteq> 0 then ((17, 24), CALL H s)
          else ((11, 16), set_PC (PC s + 2) s))
      else if opcode = 0xfd then
        ((17, 24), CALL H s)
      else if opcode = 0xfe then
        (let (work8, s) = FETCH H s in ((7, 8), set_FLAGS (CMP work8 (reg_A s) (FLAGS s)) s))
      else \<comment> \<open>case 0xff\<close>
        ((11, 16), RST H 0x0038 s))"

definition exec_switch :: "'h hal \<Rightarrow> u32 \<Rightarrow> 'h mach \<Rightarrow> (int \<times> int) \<times> 'h mach" where
  "exec_switch H opcode s =
     (if opcode < 0x10 then exec_0x H opcode s
      else if opcode < 0x20 then exec_1x H opcode s
      else if opcode < 0x30 then exec_2x H opcode s
      else if opcode < 0x40 then exec_3x H opcode s
      else if opcode < 0x50 then exec_4x H opcode s
      else if opcode < 0x60 then exec_5x H opcode s
      else if opcode < 0x70 then exec_6x H opcode s
      else if opcode < 0x80 then exec_7x H opcode s
      else if opcode < 0x90 then exec_8x H opcode s
      else if opcode < 0xa0 then exec_9x H opcode s
      else if opcode < 0xb0 then exec_Ax H opcode s
      else if opcode < 0xc0 then exec_Bx H opcode s
      else if opcode < 0xd0 then exec_Cx H opcode s
      else if opcode < 0xe0 then exec_Dx H opcode s
      else if opcode < 0xf0 then exec_Ex H opcode s
      else if opcode < 0x100 then exec_Fx H opcode s
      else ((-1, -1), s))"

text \<open>After the switch: the delayed interrupt enable of \<^verbatim>\<open>EI\<close> and the cycle count.\<close>

definition ei_tick :: "'h hal \<Rightarrow> 'h mach \<Rightarrow> 'h mach" where
  "ei_tick H s =
     (if EI_PENDING s \<noteq> 0 then
        let s = set_EI_PENDING (EI_PENDING s - 1) s
        in if EI_PENDING s = 0 then
             let s = set_IFF 1 s in s\<lparr>bus := hal_iff H (ucast (IFF s)) (bus s)\<rparr>
           else s
      else s)"

definition i8080_execute :: "'h hal \<Rightarrow> u32 \<Rightarrow> 'h mach \<Rightarrow> int \<times> 'h mach" where
  "i8080_execute H opcode s =
     (let ((cpu_cycles, v_cycles), s) = exec_switch H opcode s; s = ei_tick H s
      in (v_cycles, set_CPU_CYCLES (word_of_int cpu_cycles) s))"

text \<open>\<^verbatim>\<open>i8080_instruction\<close> returns the cycles; the opcode it reports comes first here.\<close>

definition i8080_instruction :: "'h hal \<Rightarrow> 'h mach \<Rightarrow> u32 \<times> int \<times> 'h mach" where
  "i8080_instruction H s =
     (let (op, s) = FETCH H s; (v_cycles, s) = i8080_execute H (ucast op) s
      in (ucast op, v_cycles, s))"

subsection \<open>Access from the debugger\<close>

definition i8080_jump :: "u32 \<Rightarrow> 'h mach \<Rightarrow> 'h mach" where
  "i8080_jump addr s = set_PC (ucast (addr AND 0xffff)) s"

definition i8080_pc :: "'h mach \<Rightarrow> u32" where
  "i8080_pc s = ucast (PC s)"

definition i8080_regs_sp :: "'h mach \<Rightarrow> u32" where
  "i8080_regs_sp s = ucast (SP s)"

definition i8080_regs_a :: "'h mach \<Rightarrow> u32" where
  "i8080_regs_a s = ucast (reg_A s)"

definition i8080_regs_f :: "'h mach \<Rightarrow> u32" where
  "i8080_regs_f s = ucast (reg_F s)"

definition i8080_regs_bc :: "'h mach \<Rightarrow> u32" where
  "i8080_regs_bc s = ucast (BC s)"

definition i8080_regs_de :: "'h mach \<Rightarrow> u32" where
  "i8080_regs_de s = ucast (DE s)"

definition i8080_regs_hl :: "'h mach \<Rightarrow> u32" where
  "i8080_regs_hl s = ucast (HL s)"

definition i8080_iff :: "'h mach \<Rightarrow> bool" where
  "i8080_iff s = (IFF s \<noteq> 0)"

definition i8080_cycles :: "'h mach \<Rightarrow> u32" where
  "i8080_cycles s = ucast (CPU_CYCLES s)"

definition i8080_setreg_a :: "u32 \<Rightarrow> 'h mach \<Rightarrow> 'h mach" where
  "i8080_setreg_a a s = set_A (ucast a) s"

definition i8080_setreg_f :: "u32 \<Rightarrow> 'h mach \<Rightarrow> 'h mach" where
  "i8080_setreg_f f s = set_F (ucast f) s"

definition i8080_regs_b :: "'h mach \<Rightarrow> u32" where
  "i8080_regs_b s = ucast (reg_B s)"

definition i8080_setreg_b :: "u32 \<Rightarrow> 'h mach \<Rightarrow> 'h mach" where
  "i8080_setreg_b v s = set_B (ucast v) s"

definition i8080_regs_c :: "'h mach \<Rightarrow> u32" where
  "i8080_regs_c s = ucast (reg_C s)"

definition i8080_setreg_c :: "u32 \<Rightarrow> 'h mach \<Rightarrow> 'h mach" where
  "i8080_setreg_c v s = set_C (ucast v) s"

definition i8080_regs_d :: "'h mach \<Rightarrow> u32" where
  "i8080_regs_d s = ucast (reg_D s)"

definition i8080_setreg_d :: "u32 \<Rightarrow> 'h mach \<Rightarrow> 'h mach" where
  "i8080_setreg_d v s = set_D (ucast v) s"

definition i8080_regs_e :: "'h mach \<Rightarrow> u32" where
  "i8080_regs_e s = ucast (reg_E s)"

definition i8080_setreg_e :: "u32 \<Rightarrow> 'h mach \<Rightarrow> 'h mach" where
  "i8080_setreg_e v s = set_E (ucast v) s"

definition i8080_regs_h :: "'h mach \<Rightarrow> u32" where
  "i8080_regs_h s = ucast (reg_H s)"

definition i8080_setreg_h :: "u32 \<Rightarrow> 'h mach \<Rightarrow> 'h mach" where
  "i8080_setreg_h v s = set_H (ucast v) s"

definition i8080_regs_l :: "'h mach \<Rightarrow> u32" where
  "i8080_regs_l s = ucast (reg_L s)"

definition i8080_setreg_l :: "u32 \<Rightarrow> 'h mach \<Rightarrow> 'h mach" where
  "i8080_setreg_l v s = set_L (ucast v) s"

definition i8080_setreg_sp :: "u32 \<Rightarrow> 'h mach \<Rightarrow> 'h mach" where
  "i8080_setreg_sp sp s = set_SP (ucast sp) s"

end
