(* ===== verification/I8080_Isa.thy ===== *)
theory I8080_Isa
  imports I8080
begin

text \<open>
  The instruction set the core is meant to implement, written independently of the switch: the
  8080 encodes its instructions in the bit fields \<open>xx yyy zzz\<close> of the opcode, \<open>decode\<close>
  reads them and \<open>isa_exec\<close> gives each decoded instruction its effect on the registers and on
  an abstract bus.  \<open>isa_step\<close> adds what the core does after every instruction, and
  \<open>isa_instruction\<close> the fetch.
\<close>

subsection \<open>Instructions and their encoding\<close>

datatype reg8 = RB | RC | RD | RE | RH | RL | RM | RA
datatype rpair = P_BC | P_DE | P_HL | P_SP
datatype spair = S_BC | S_DE | S_HL | S_PSW
datatype cond = NZ | Z | NC | CY | PO | PE | Pos | Minus
datatype alu_op = A_ADD | A_ADC | A_SUB | A_SBB | A_ANA | A_XRA | A_ORA | A_CMP

datatype instr =
  I_NOP | I_LXI rpair | I_DAD rpair | I_STAX rpair | I_LDAX rpair | I_SHLD | I_LHLD | I_STA | I_LDA
| I_INX rpair | I_DCX rpair | I_INR reg8 | I_DCR reg8 | I_MVI reg8
| I_RLC | I_RRC | I_RAL | I_RAR | I_DAA | I_CMA | I_STC | I_CMC
| I_MOV reg8 reg8 | I_HLT | I_ALU alu_op reg8 | I_ALUI alu_op
| I_RCC cond | I_RET | I_POP spair | I_PUSH spair | I_JCC cond | I_JMP | I_CCC cond | I_CALL
| I_RST u16 | I_OUT | I_IN | I_XTHL | I_XCHG | I_PCHL | I_SPHL | I_DI | I_EI

definition r_of :: "nat \<Rightarrow> reg8" where
  "r_of n = [RB, RC, RD, RE, RH, RL, RM, RA] ! n"

definition rp_of :: "nat \<Rightarrow> rpair" where
  "rp_of n = [P_BC, P_DE, P_HL, P_SP] ! n"

definition sp_of :: "nat \<Rightarrow> spair" where
  "sp_of n = [S_BC, S_DE, S_HL, S_PSW] ! n"

definition cond_of :: "nat \<Rightarrow> cond" where
  "cond_of n = [NZ, Z, NC, CY, PO, PE, Pos, Minus] ! n"

definition alu_of :: "nat \<Rightarrow> alu_op" where
  "alu_of n = [A_ADD, A_ADC, A_SUB, A_SBB, A_ANA, A_XRA, A_ORA, A_CMP] ! n"

definition decode0 :: "nat \<Rightarrow> nat \<Rightarrow> instr" where
  "decode0 y z =
     (if z = 0 then I_NOP
      else if z = 1 then (if even y then I_LXI (rp_of (y div 2)) else I_DAD (rp_of (y div 2)))
      else if z = 2 then
        [I_STAX P_BC, I_LDAX P_BC, I_STAX P_DE, I_LDAX P_DE, I_SHLD, I_LHLD, I_STA, I_LDA] ! y
      else if z = 3 then (if even y then I_INX (rp_of (y div 2)) else I_DCX (rp_of (y div 2)))
      else if z = 4 then I_INR (r_of y)
      else if z = 5 then I_DCR (r_of y)
      else if z = 6 then I_MVI (r_of y)
      else [I_RLC, I_RRC, I_RAL, I_RAR, I_DAA, I_CMA, I_STC, I_CMC] ! y)"

definition decode3 :: "nat \<Rightarrow> nat \<Rightarrow> instr" where
  "decode3 y z =
     (if z = 0 then I_RCC (cond_of y)
      else if z = 1 then
        (if even y then I_POP (sp_of (y div 2)) else [I_RET, I_RET, I_PCHL, I_SPHL] ! (y div 2))
      else if z = 2 then I_JCC (cond_of y)
      else if z = 3 then [I_JMP, I_JMP, I_OUT, I_IN, I_XTHL, I_XCHG, I_DI, I_EI] ! y
      else if z = 4 then I_CCC (cond_of y)
      else if z = 5 then (if even y then I_PUSH (sp_of (y div 2)) else I_CALL)
      else if z = 6 then I_ALUI (alu_of y)
      else I_RST (word_of_nat (8 * y)))"

definition decode :: "u8 \<Rightarrow> instr" where
  "decode op =
     (let n = unat op; x = n div 64; y = n div 8 mod 8; z = n mod 8
      in if x = 0 then decode0 y z
         else if x = 1 then (if y = 6 \<and> z = 6 then I_HLT else I_MOV (r_of y) (r_of z))
         else if x = 2 then I_ALU (alu_of y) (r_of z)
         else decode3 y z)"

subsection \<open>Effects over an abstract bus\<close>

text \<open>
  Reading the abstract bus changes nothing.  The flag says whether the access is a stack access,
  which the machine may send to another memory.
\<close>

record 'm abus =
  ab_read :: "bool \<Rightarrow> 'm \<Rightarrow> u16 \<Rightarrow> u8"
  ab_write :: "bool \<Rightarrow> u16 \<Rightarrow> u8 \<Rightarrow> 'm \<Rightarrow> 'm"
  ab_in :: "u8 \<Rightarrow> 'm \<Rightarrow> u8 \<times> 'm"
  ab_out :: "u8 \<Rightarrow> u8 \<Rightarrow> 'm \<Rightarrow> 'm"
  ab_inte :: "bool \<Rightarrow> 'm \<Rightarrow> 'm"

definition ab_read16 :: "'m abus \<Rightarrow> bool \<Rightarrow> 'm \<Rightarrow> u16 \<Rightarrow> u16" where
  "ab_read16 B st m a = mk16 (ab_read B st m (a + 1)) (ab_read B st m a)"

definition ab_write16 :: "'m abus \<Rightarrow> bool \<Rightarrow> u16 \<Rightarrow> u16 \<Rightarrow> 'm \<Rightarrow> 'm" where
  "ab_write16 B st a w m = ab_write B st (a + 1) (hi8 w) (ab_write B st a (lo8 w) m)"

fun get_r :: "'m abus \<Rightarrow> reg8 \<Rightarrow> 'm mach \<Rightarrow> u8" where
  "get_r B RB s = reg_B s"
| "get_r B RC s = reg_C s"
| "get_r B RD s = reg_D s"
| "get_r B RE s = reg_E s"
| "get_r B RH s = reg_H s"
| "get_r B RL s = reg_L s"
| "get_r B RM s = ab_read B False (bus s) (HL s)"
| "get_r B RA s = reg_A s"

fun put_r :: "'m abus \<Rightarrow> reg8 \<Rightarrow> u8 \<Rightarrow> 'm mach \<Rightarrow> 'm mach" where
  "put_r B RB v s = set_B v s"
| "put_r B RC v s = set_C v s"
| "put_r B RD v s = set_D v s"
| "put_r B RE v s = set_E v s"
| "put_r B RH v s = set_H v s"
| "put_r B RL v s = set_L v s"
| "put_r B RM v s = s\<lparr>bus := ab_write B False (HL s) v (bus s)\<rparr>"
| "put_r B RA v s = set_A v s"

fun get_rp :: "rpair \<Rightarrow> 'm mach \<Rightarrow> u16" where
  "get_rp P_BC s = BC s" | "get_rp P_DE s = DE s" | "get_rp P_HL s = HL s" | "get_rp P_SP s = SP s"

fun put_rp :: "rpair \<Rightarrow> u16 \<Rightarrow> 'm mach \<Rightarrow> 'm mach" where
  "put_rp P_BC w s = set_BC w s" | "put_rp P_DE w s = set_DE w s"
| "put_rp P_HL w s = set_HL w s" | "put_rp P_SP w s = set_SP w s"

fun holds :: "cond \<Rightarrow> flag_reg \<Rightarrow> bool" where
  "holds NZ fl = (zero_flag fl = 0)" | "holds Z fl = (zero_flag fl \<noteq> 0)"
| "holds NC fl = (carry_flag fl = 0)" | "holds CY fl = (carry_flag fl \<noteq> 0)"
| "holds PO fl = (parity_flag fl = 0)" | "holds PE fl = (parity_flag fl \<noteq> 0)"
| "holds Pos fl = (sign_flag fl = 0)" | "holds Minus fl = (sign_flag fl \<noteq> 0)"

definition logic_spec :: "u8 \<Rightarrow> bool \<Rightarrow> flag_reg \<Rightarrow> u8 \<times> flag_reg" where
  "logic_spec r h fl = (r, (szp r fl)\<lparr>half_carry_flag := of_bool h, carry_flag := 0\<rparr>)"

fun alu_spec :: "alu_op \<Rightarrow> u8 \<Rightarrow> u8 \<Rightarrow> flag_reg \<Rightarrow> u8 \<times> flag_reg" where
  "alu_spec A_ADD v a fl = add_spec 0 v a fl"
| "alu_spec A_ADC v a fl = add_spec (unat (carry_flag fl)) v a fl"
| "alu_spec A_SUB v a fl = sub_spec 0 v a fl"
| "alu_spec A_SBB v a fl = sub_spec (unat (carry_flag fl)) v a fl"
| "alu_spec A_ANA v a fl = logic_spec (a AND v) (bit a 3 \<or> bit v 3) fl"
| "alu_spec A_XRA v a fl = logic_spec (a XOR v) False fl"
| "alu_spec A_ORA v a fl = logic_spec (a OR v) False fl"
| "alu_spec A_CMP v a fl = (a, snd (sub_spec 0 v a fl))"

definition inr_spec :: "u8 \<Rightarrow> flag_reg \<Rightarrow> u8 \<times> flag_reg" where
  "inr_spec r fl = (r + 1, (szp (r + 1) fl)\<lparr>half_carry_flag := of_bool (unat r mod 16 = 15)\<rparr>)"

definition dcr_spec :: "u8 \<Rightarrow> flag_reg \<Rightarrow> u8 \<times> flag_reg" where
  "dcr_spec r fl = (r - 1, (szp (r - 1) fl)\<lparr>half_carry_flag := of_bool (unat r mod 16 \<noteq> 0)\<rparr>)"

definition imm8 :: "'m abus \<Rightarrow> 'm mach \<Rightarrow> u8" where
  "imm8 B s = ab_read B False (bus s) (PC s)"

definition imm16 :: "'m abus \<Rightarrow> 'm mach \<Rightarrow> u16" where
  "imm16 B s = ab_read16 B False (bus s) (PC s)"

definition skip :: "u16 \<Rightarrow> 'm mach \<Rightarrow> 'm mach" where
  "skip n s = set_PC (PC s + n) s"

definition isa_push :: "'m abus \<Rightarrow> u16 \<Rightarrow> 'm mach \<Rightarrow> 'm mach" where
  "isa_push B w s =
     (let s = set_SP (SP s - 2) s in s\<lparr>bus := ab_write16 B True (SP s) w (bus s)\<rparr>)"

definition isa_top :: "'m abus \<Rightarrow> 'm mach \<Rightarrow> u16" where
  "isa_top B s = ab_read16 B True (bus s) (SP s)"

definition isa_ret :: "'m abus \<Rightarrow> 'm mach \<Rightarrow> 'm mach" where
  "isa_ret B s = set_SP (SP s + 2) (set_PC (isa_top B s) s)"

text \<open>
  The core pushes the return address first and then reads the target as a stack access.
\<close>

definition isa_call :: "'m abus \<Rightarrow> 'm mach \<Rightarrow> 'm mach" where
  "isa_call B s =
     (let s = isa_push B (PC s + 2) s in set_PC (ab_read16 B True (bus s) (PC s)) s)"

fun get_sp :: "spair \<Rightarrow> 'm mach \<Rightarrow> u16" where
  "get_sp S_BC s = BC s" | "get_sp S_DE s = DE s" | "get_sp S_HL s = HL s" | "get_sp S_PSW s = AF s"

fun put_sp :: "spair \<Rightarrow> u16 \<Rightarrow> 'm mach \<Rightarrow> 'm mach" where
  "put_sp S_BC w s = set_BC w s" | "put_sp S_DE w s = set_DE w s"
| "put_sp S_HL w s = set_HL w s" | "put_sp S_PSW w s = set_AF w s"

definition isa_pop :: "'m abus \<Rightarrow> spair \<Rightarrow> 'm mach \<Rightarrow> 'm mach" where
  "isa_pop B p s = (let s = put_sp p (isa_top B s) s in set_SP (SP s + 2) s)"

definition isa_alu :: "'m abus \<Rightarrow> alu_op \<Rightarrow> u8 \<Rightarrow> 'm mach \<Rightarrow> 'm mach" where
  "isa_alu B k v s = (let (a, fl) = alu_spec k v (reg_A s) (FLAGS s) in set_A a (set_FLAGS fl s))"

definition isa_upd :: "'m abus \<Rightarrow> (u8 \<Rightarrow> flag_reg \<Rightarrow> u8 \<times> flag_reg) \<Rightarrow> reg8 \<Rightarrow> 'm mach \<Rightarrow> 'm mach" where
  "isa_upd B f r s = (let (v, fl) = f (get_r B r s) (FLAGS s) in put_r B r v (set_FLAGS fl s))"

definition isa_rot :: "u8 \<Rightarrow> bool \<Rightarrow> 'm mach \<Rightarrow> 'm mach" where
  "isa_rot a c s = set_A a (set_C_FLAG (of_bool c) s)"

definition inte :: "'m abus \<Rightarrow> bool \<Rightarrow> 'm mach \<Rightarrow> 'm mach" where
  "inte B on s = s\<lparr>bus := ab_inte B on (bus s)\<rparr>"

text \<open>Registers cost one wait state less than memory operands.\<close>

definition cyc :: "reg8 \<Rightarrow> int \<times> int \<Rightarrow> int \<times> int \<Rightarrow> int \<times> int" where
  "cyc r cr cm = (if r = RM then cm else cr)"

primrec isa_exec :: "'m abus \<Rightarrow> instr \<Rightarrow> 'm mach \<Rightarrow> (int \<times> int) \<times> 'm mach" where
  "isa_exec B I_NOP s = ((4, 4), s)"
| "isa_exec B (I_LXI p) s = ((10, 12), skip 2 (put_rp p (imm16 B s) s))"
| "isa_exec B (I_DAD p) s =
     ((10, 12), set_HL (HL s + get_rp p s)
        (set_C_FLAG (of_bool (65536 \<le> unat (HL s) + unat (get_rp p s))) s))"
| "isa_exec B (I_STAX p) s =
     ((7, 8), s\<lparr>bus := ab_write B False (get_rp p s) (reg_A s) (bus s)\<rparr>)"
| "isa_exec B (I_LDAX p) s = ((7, 8), set_A (ab_read B False (bus s) (get_rp p s)) s)"
| "isa_exec B I_SHLD s =
     ((16, 20), skip 2 (s\<lparr>bus := ab_write16 B False (imm16 B s) (HL s) (bus s)\<rparr>))"
| "isa_exec B I_LHLD s = ((16, 20), skip 2 (set_HL (ab_read16 B False (bus s) (imm16 B s)) s))"
| "isa_exec B I_STA s =
     ((13, 16), skip 2 (s\<lparr>bus := ab_write B False (imm16 B s) (reg_A s) (bus s)\<rparr>))"
| "isa_exec B I_LDA s = ((13, 16), skip 2 (set_A (ab_read B False (bus s) (imm16 B s)) s))"
| "isa_exec B (I_INX p) s = ((5, 8), put_rp p (get_rp p s + 1) s)"
| "isa_exec B (I_DCX p) s = ((5, 8), put_rp p (get_rp p s - 1) s)"
| "isa_exec B (I_INR r) s = (cyc r (5, 8) (10, 12), isa_upd B inr_spec r s)"
| "isa_exec B (I_DCR r) s = (cyc r (5, 8) (10, 12), isa_upd B dcr_spec r s)"
| "isa_exec B (I_MVI r) s = (cyc r (7, 8) (10, 12), put_r B r (imm8 B s) (skip 1 s))"
| "isa_exec B I_RLC s =
     ((4, 4), isa_rot (push_bit 1 (reg_A s) OR of_bool (bit (reg_A s) 7)) (bit (reg_A s) 7) s)"
| "isa_exec B I_RRC s =
     ((4, 4), isa_rot (drop_bit 1 (reg_A s) OR push_bit 7 (of_bool (bit (reg_A s) 0)))
        (bit (reg_A s) 0) s)"
| "isa_exec B I_RAL s =
     ((4, 4), isa_rot (push_bit 1 (reg_A s) OR carry_flag (FLAGS s)) (bit (reg_A s) 7) s)"
| "isa_exec B I_RAR s =
     ((4, 4), isa_rot (drop_bit 1 (reg_A s) OR push_bit 7 (carry_flag (FLAGS s)))
        (bit (reg_A s) 0) s)"
| "isa_exec B I_DAA s = ((4, 4), upd_a DAA s)"
| "isa_exec B I_CMA s = ((4, 4), set_A (NOT (reg_A s)) s)"
| "isa_exec B I_STC s = ((4, 4), set_C_FLAG 1 s)"
| "isa_exec B I_CMC s = ((4, 4), set_C_FLAG (of_bool (carry_flag (FLAGS s) = 0)) s)"
| "isa_exec B (I_MOV d r) s = (cyc d (cyc r (5, 8) (7, 8)) (7, 8), put_r B d (get_r B r s) s)"
| "isa_exec B I_HLT s = ((4, 4), set_PC (PC s - 1) s)"
| "isa_exec B (I_ALU k r) s = (cyc r (4, 4) (7, 8), isa_alu B k (get_r B r s) s)"
| "isa_exec B (I_ALUI k) s = ((7, 8), isa_alu B k (imm8 B s) (skip 1 s))"
| "isa_exec B (I_RCC c) s = (if holds c (FLAGS s) then ((11, 16), isa_ret B s) else ((5, 8), s))"
| "isa_exec B I_RET s = ((10, 12), isa_ret B s)"
| "isa_exec B (I_POP p) s =
     (if p = S_PSW then ((10, 12), i8080_retrieve_flags (isa_pop B p s))
      else ((11, 12), isa_pop B p s))"
| "isa_exec B (I_PUSH p) s =
     (let s = (if p = S_PSW then i8080_store_flags s else s)
      in ((11, 16), isa_push B (get_sp p s) s))"
| "isa_exec B (I_JCC c) s =
     ((10, 12), if holds c (FLAGS s) then set_PC (imm16 B s) s else skip 2 s)"
| "isa_exec B I_JMP s = ((10, 12), set_PC (imm16 B s) s)"
| "isa_exec B (I_CCC c) s =
     (if holds c (FLAGS s) then ((17, 24), isa_call B s) else ((11, 16), skip 2 s))"
| "isa_exec B I_CALL s = ((17, 24), isa_call B s)"
| "isa_exec B (I_RST a) s = ((11, 16), set_PC a (isa_push B (PC s) s))"
| "isa_exec B I_OUT s =
     (let p = imm8 B s; s = skip 1 s in ((10, 12), s\<lparr>bus := ab_out B p (reg_A s) (bus s)\<rparr>))"
| "isa_exec B I_IN s =
     (let p = imm8 B s; s = skip 1 s; (v, m) = ab_in B p (bus s)
      in ((10, 12), set_A v (s\<lparr>bus := m\<rparr>)))"
| "isa_exec B I_XTHL s =
     ((18, 24), set_HL (isa_top B s) (s\<lparr>bus := ab_write16 B True (SP s) (HL s) (bus s)\<rparr>))"
| "isa_exec B I_XCHG s = ((4, 4), set_HL (DE s) (set_DE (HL s) s))"
| "isa_exec B I_PCHL s = ((5, 8), set_PC (HL s) s)"
| "isa_exec B I_SPHL s = ((5, 8), set_SP (HL s) s)"
| "isa_exec B I_DI s = ((4, 4), inte B False (set_EI_PENDING 0 (set_IFF 0 s)))"
| "isa_exec B I_EI s = ((4, 4), set_EI_PENDING 2 (inte B True (set_IFF 0 s)))"

text \<open>
  After the instruction: a pending \<^verbatim>\<open>EI\<close> counts down and enables interrupts when it
  reaches zero; the cycle count is stored.
\<close>

definition isa_tick :: "'m abus \<Rightarrow> 'm mach \<Rightarrow> 'm mach" where
  "isa_tick B s =
     (if EI_PENDING s = 0 then s
      else if EI_PENDING s = 1 then inte B True (set_IFF 1 (set_EI_PENDING 0 s))
      else set_EI_PENDING (EI_PENDING s - 1) s)"

definition isa_step :: "'m abus \<Rightarrow> u8 \<Rightarrow> 'm mach \<Rightarrow> int \<times> 'm mach" where
  "isa_step B op s =
     (let ((c, v), s) = isa_exec B (decode op) s
      in (v, set_CPU_CYCLES (word_of_int c) (isa_tick B s)))"

definition isa_instruction :: "'m abus \<Rightarrow> 'm mach \<Rightarrow> u8 \<times> int \<times> 'm mach" where
  "isa_instruction B s = (let op = imm8 B s in (op, isa_step B op (skip 1 s)))"

text \<open>Changing the machine behind the core, register for register.\<close>

definition map_bus :: "('h \<Rightarrow> 'm) \<Rightarrow> 'h mach \<Rightarrow> 'm mach" where
  "map_bus view s = \<lparr>cpu = cpu s, bus = view (bus s)\<rparr>"

lemma map_bus_sel [simp]: "cpu (map_bus view s) = cpu s" "bus (map_bus view s) = view (bus s)"
  by (simp_all add: map_bus_def)

subsection \<open>Meaning of the logical macros\<close>

lemma and_0x08_u8 [simp]: "((w :: u8) AND 0x08 = 0) \<longleftrightarrow> \<not> bit w 3"
  using and_exp_eq_0_iff_not_bit [of w 3] by simp

lemma and_1_u8: "(w :: u8) AND 1 = of_bool (bit w 0)"
  by (simp add: and_one_eq bit_0 mod_2_eq_odd)

lemma ANA_spec: "ANA v a fl = logic_spec (a AND v) (bit a 3 \<or> bit v 3) fl"
  by (cases fl) (simp add: ANA_def logic_spec_def szp_def PARITY_eq Let_def bit_simps)

lemma XRA_spec: "XRA v a fl = logic_spec (a XOR v) False fl"
  by (cases fl) (simp add: XRA_def logic_spec_def szp_def PARITY_eq Let_def)

lemma ORA_spec: "ORA v a fl = logic_spec (a OR v) False fl"
  by (cases fl) (simp add: ORA_def logic_spec_def szp_def PARITY_eq Let_def)

lemma xor_ff_u8: "(w :: u8) XOR 0xff = NOT w"
  by (rule bit_word_eqI) (auto simp: bit_simps less_Suc_eq numeral_eq_Suc)

end
