(* ===== verification/I8080_Refine.thy ===== *)
theory I8080_Refine
  imports I8080_Isa
begin

text \<open>
  The core implements the instruction set.  The locale \<open>bus_refinement\<close> states what the
  hardware abstraction layer must promise; inside it each of the 256 cases of the switch is shown
  to be \<open>isa_exec\<close> after \<open>decode\<close>, and the whole of
  \<^verbatim>\<open>i8080_instruction\<close> to be \<open>isa_instruction\<close>.
\<close>

subsection \<open>The contract of the hardware abstraction layer\<close>

text \<open>
  \<open>view\<close> forgets what the machine records about accesses (watchpoints, access counters): a
  read returns the byte of the abstract bus and leaves it alone, a word is two bytes in
  little-endian order, the second one at the next address modulo 65536.
\<close>

locale bus_refinement =
  fixes H :: "'h hal" and B :: "'m abus" and view :: "'h \<Rightarrow> 'm"
  assumes read_byte_val:
      "fst (hal_memory_read_byte H (ucast (a :: u16)) h) = ucast (ab_read B False (view h) a)"
    and read_byte_abs: "view (snd (hal_memory_read_byte H (ucast (a :: u16)) h)) = view h"
    and read_word_val:
      "fst (hal_memory_read_word H (ucast (a :: u16)) st h) = ucast (ab_read16 B st (view h) a)"
    and read_word_abs: "view (snd (hal_memory_read_word H (ucast (a :: u16)) st h)) = view h"
    and write_byte_abs:
      "view (hal_memory_write_byte H (ucast (a :: u16)) (ucast (v :: u8)) h) = ab_write B False a v (view h)"
    and write_word_abs:
      "view (hal_memory_write_word H (ucast (a :: u16)) w st h) = ab_write16 B st a (ucast w) (view h)"
    and input_val: "ucast (fst (hal_io_input H (ucast (p :: u8)) h)) = fst (ab_in B p (view h))"
    and input_abs: "view (snd (hal_io_input H (ucast (p :: u8)) h)) = snd (ab_in B p (view h))"
    and output_abs:
      "view (hal_io_output H (ucast (p :: u8)) (ucast (v :: u8)) h) = ab_out B p v (view h)"
    and iff_abs: "view (hal_iff H n h) = ab_inte B (n \<noteq> 0) (view h)"
begin

lemma RD_BYTE_ref [simp]:
  "fst (RD_BYTE H a s) = ab_read B False (view (bus s)) a"
  "cpu (snd (RD_BYTE H a s)) = cpu s" "view (bus (snd (RD_BYTE H a s))) = view (bus s)"
  by (simp_all add: RD_BYTE_def split_def read_byte_val read_byte_abs)

lemma RD_WORD_ref [simp]:
  "fst (RD_WORD H a s) = ab_read16 B False (view (bus s)) a"
  "cpu (snd (RD_WORD H a s)) = cpu s" "view (bus (snd (RD_WORD H a s))) = view (bus s)"
  by (simp_all add: RD_WORD_def split_def read_word_val read_word_abs)

lemma RD_STACK_ref [simp]:
  "fst (RD_STACK H a s) = ab_read16 B True (view (bus s)) a"
  "cpu (snd (RD_STACK H a s)) = cpu s" "view (bus (snd (RD_STACK H a s))) = view (bus s)"
  by (simp_all add: RD_STACK_def split_def read_word_val read_word_abs)

lemma WR_ref [simp]:
  "cpu (WR_BYTE H a v s) = cpu s" "view (bus (WR_BYTE H a v s)) = ab_write B False a v (view (bus s))"
  "cpu (WR_WORD H a w s) = cpu s"
  "view (bus (WR_WORD H a w s)) = ab_write16 B False a (ucast w) (view (bus s))"
  "cpu (WR_STACK H a w s) = cpu s"
  "view (bus (WR_STACK H a w s)) = ab_write16 B True a (ucast w) (view (bus s))"
  by (simp_all add: WR_BYTE_def WR_WORD_def WR_STACK_def write_byte_abs write_word_abs)

lemmas ref_simps = Let_def split_def cpu_simps upd8_def upd_a_def upd_hl_def POP_def PUSH_def
  CALL_def RST_def FETCH_def isa_pop_def isa_push_def isa_top_def isa_ret_def isa_call_def
  isa_alu_def isa_upd_def isa_rot_def inte_def skip_def imm8_def imm16_def cyc_def
  inr_spec_def dcr_spec_def INR_spec DCR_spec DAD_spec ADD_spec ADC_spec
  SUB_spec SBB_spec CMP_spec ANA_spec XRA_spec ORA_spec and_1_u8 xor_ff_u8
  input_val input_abs output_abs iff_abs

lemmas decode_simps = decode_def decode0_def decode3_def r_of_def rp_of_def sp_of_def cond_of_def
  alu_of_def 

definition exec_ok :: "'h mach \<Rightarrow> u8 \<Rightarrow> bool" where
  "exec_ok s op \<longleftrightarrow>
     fst (exec_switch H (ucast op) s) = fst (isa_exec B (decode op) (map_bus view s)) \<and>
     map_bus view (snd (exec_switch H (ucast op) s)) = snd (isa_exec B (decode op) (map_bus view s))"

lemmas row_simps = exec_ok_def exec_switch_def decode_simps ref_simps map_bus_def

lemma row_0x:
  "exec_ok s 0x00" "exec_ok s 0x01" "exec_ok s 0x02" "exec_ok s 0x03"
  "exec_ok s 0x04" "exec_ok s 0x05" "exec_ok s 0x06" "exec_ok s 0x07"
  "exec_ok s 0x08" "exec_ok s 0x09" "exec_ok s 0x0a" "exec_ok s 0x0b"
  "exec_ok s 0x0c" "exec_ok s 0x0d" "exec_ok s 0x0e" "exec_ok s 0x0f"
  by (simp_all add: row_simps exec_0x_def split del: split_of_bool)

lemma row_1x:
  "exec_ok s 0x10" "exec_ok s 0x11" "exec_ok s 0x12" "exec_ok s 0x13"
  "exec_ok s 0x14" "exec_ok s 0x15" "exec_ok s 0x16" "exec_ok s 0x17"
  "exec_ok s 0x18" "exec_ok s 0x19" "exec_ok s 0x1a" "exec_ok s 0x1b"
  "exec_ok s 0x1c" "exec_ok s 0x1d" "exec_ok s 0x1e" "exec_ok s 0x1f"
  by (simp_all add: row_simps exec_1x_def split del: split_of_bool)

lemma row_2x:
  "exec_ok s 0x20" "exec_ok s 0x21" "exec_ok s 0x22" "exec_ok s 0x23"
  "exec_ok s 0x24" "exec_ok s 0x25" "exec_ok s 0x26" "exec_ok s 0x27"
  "exec_ok s 0x28" "exec_ok s 0x29" "exec_ok s 0x2a" "exec_ok s 0x2b"
  "exec_ok s 0x2c" "exec_ok s 0x2d" "exec_ok s 0x2e" "exec_ok s 0x2f"
  by (simp_all add: row_simps exec_2x_def split del: split_of_bool)

lemma row_3x:
  "exec_ok s 0x30" "exec_ok s 0x31" "exec_ok s 0x32" "exec_ok s 0x33"
  "exec_ok s 0x34" "exec_ok s 0x35" "exec_ok s 0x36" "exec_ok s 0x37"
  "exec_ok s 0x38" "exec_ok s 0x39" "exec_ok s 0x3a" "exec_ok s 0x3b"
  "exec_ok s 0x3c" "exec_ok s 0x3d" "exec_ok s 0x3e" "exec_ok s 0x3f"
  by (simp_all add: row_simps exec_3x_def split del: split_of_bool)

lemma row_4x:
  "exec_ok s 0x40" "exec_ok s 0x41" "exec_ok s 0x42" "exec_ok s 0x43"
  "exec_ok s 0x44" "exec_ok s 0x45" "exec_ok s 0x46" "exec_ok s 0x47"
  "exec_ok s 0x48" "exec_ok s 0x49" "exec_ok s 0x4a" "exec_ok s 0x4b"
  "exec_ok s 0x4c" "exec_ok s 0x4d" "exec_ok s 0x4e" "exec_ok s 0x4f"
  by (simp_all add: row_simps exec_4x_def split del: split_of_bool)

lemma row_5x:
  "exec_ok s 0x50" "exec_ok s 0x51" "exec_ok s 0x52" "exec_ok s 0x53"
  "exec_ok s 0x54" "exec_ok s 0x55" "exec_ok s 0x56" "exec_ok s 0x57"
  "exec_ok s 0x58" "exec_ok s 0x59" "exec_ok s 0x5a" "exec_ok s 0x5b"
  "exec_ok s 0x5c" "exec_ok s 0x5d" "exec_ok s 0x5e" "exec_ok s 0x5f"
  by (simp_all add: row_simps exec_5x_def split del: split_of_bool)

lemma row_6x:
  "exec_ok s 0x60" "exec_ok s 0x61" "exec_ok s 0x62" "exec_ok s 0x63"
  "exec_ok s 0x64" "exec_ok s 0x65" "exec_ok s 0x66" "exec_ok s 0x67"
  "exec_ok s 0x68" "exec_ok s 0x69" "exec_ok s 0x6a" "exec_ok s 0x6b"
  "exec_ok s 0x6c" "exec_ok s 0x6d" "exec_ok s 0x6e" "exec_ok s 0x6f"
  by (simp_all add: row_simps exec_6x_def split del: split_of_bool)

lemma row_7x:
  "exec_ok s 0x70" "exec_ok s 0x71" "exec_ok s 0x72" "exec_ok s 0x73"
  "exec_ok s 0x74" "exec_ok s 0x75" "exec_ok s 0x76" "exec_ok s 0x77"
  "exec_ok s 0x78" "exec_ok s 0x79" "exec_ok s 0x7a" "exec_ok s 0x7b"
  "exec_ok s 0x7c" "exec_ok s 0x7d" "exec_ok s 0x7e" "exec_ok s 0x7f"
  by (simp_all add: row_simps exec_7x_def split del: split_of_bool)

lemma row_8x:
  assumes "unat (carry_flag (FLAGS s)) \<le> 1"
  shows
  "exec_ok s 0x80" "exec_ok s 0x81" "exec_ok s 0x82" "exec_ok s 0x83"
  "exec_ok s 0x84" "exec_ok s 0x85" "exec_ok s 0x86" "exec_ok s 0x87"
  "exec_ok s 0x88" "exec_ok s 0x89" "exec_ok s 0x8a" "exec_ok s 0x8b"
  "exec_ok s 0x8c" "exec_ok s 0x8d" "exec_ok s 0x8e" "exec_ok s 0x8f"
  using assms by (simp_all add: row_simps exec_8x_def split del: split_of_bool)

lemma row_9x:
  assumes "unat (carry_flag (FLAGS s)) \<le> 1"
  shows
  "exec_ok s 0x90" "exec_ok s 0x91" "exec_ok s 0x92" "exec_ok s 0x93"
  "exec_ok s 0x94" "exec_ok s 0x95" "exec_ok s 0x96" "exec_ok s 0x97"
  "exec_ok s 0x98" "exec_ok s 0x99" "exec_ok s 0x9a" "exec_ok s 0x9b"
  "exec_ok s 0x9c" "exec_ok s 0x9d" "exec_ok s 0x9e" "exec_ok s 0x9f"
  using assms by (simp_all add: row_simps exec_9x_def split del: split_of_bool)

lemma row_Ax:
  "exec_ok s 0xa0" "exec_ok s 0xa1" "exec_ok s 0xa2" "exec_ok s 0xa3"
  "exec_ok s 0xa4" "exec_ok s 0xa5" "exec_ok s 0xa6" "exec_ok s 0xa7"
  "exec_ok s 0xa8" "exec_ok s 0xa9" "exec_ok s 0xaa" "exec_ok s 0xab"
  "exec_ok s 0xac" "exec_ok s 0xad" "exec_ok s 0xae" "exec_ok s 0xaf"
  by (simp_all add: row_simps exec_Ax_def split del: split_of_bool)

lemma row_Bx:
  "exec_ok s 0xb0" "exec_ok s 0xb1" "exec_ok s 0xb2" "exec_ok s 0xb3"
  "exec_ok s 0xb4" "exec_ok s 0xb5" "exec_ok s 0xb6" "exec_ok s 0xb7"
  "exec_ok s 0xb8" "exec_ok s 0xb9" "exec_ok s 0xba" "exec_ok s 0xbb"
  "exec_ok s 0xbc" "exec_ok s 0xbd" "exec_ok s 0xbe" "exec_ok s 0xbf"
  by (simp_all add: row_simps exec_Bx_def split del: split_of_bool)

lemma row_Cx:
  assumes "unat (carry_flag (FLAGS s)) \<le> 1"
  shows
  "exec_ok s 0xc0" "exec_ok s 0xc1" "exec_ok s 0xc2" "exec_ok s 0xc3"
  "exec_ok s 0xc4" "exec_ok s 0xc5" "exec_ok s 0xc6" "exec_ok s 0xc7"
  "exec_ok s 0xc8" "exec_ok s 0xc9" "exec_ok s 0xca" "exec_ok s 0xcb"
  "exec_ok s 0xcc" "exec_ok s 0xcd" "exec_ok s 0xce" "exec_ok s 0xcf"
  using assms by (simp_all add: row_simps exec_Cx_def split del: split_of_bool)

lemma row_Dx:
  assumes "unat (carry_flag (FLAGS s)) \<le> 1"
  shows
  "exec_ok s 0xd0" "exec_ok s 0xd1" "exec_ok s 0xd2" "exec_ok s 0xd3"
  "exec_ok s 0xd4" "exec_ok s 0xd5" "exec_ok s 0xd6" "exec_ok s 0xd7"
  "exec_ok s 0xd8" "exec_ok s 0xd9" "exec_ok s 0xda" "exec_ok s 0xdb"
  "exec_ok s 0xdc" "exec_ok s 0xdd" "exec_ok s 0xde" "exec_ok s 0xdf"
  using assms by (simp_all add: row_simps exec_Dx_def split del: split_of_bool)

lemma row_Ex:
  "exec_ok s 0xe0" "exec_ok s 0xe1" "exec_ok s 0xe2" "exec_ok s 0xe3"
  "exec_ok s 0xe4" "exec_ok s 0xe5" "exec_ok s 0xe6" "exec_ok s 0xe7"
  "exec_ok s 0xe8" "exec_ok s 0xe9" "exec_ok s 0xea" "exec_ok s 0xeb"
  "exec_ok s 0xec" "exec_ok s 0xed" "exec_ok s 0xee" "exec_ok s 0xef"
  by (simp_all add: row_simps exec_Ex_def split del: split_of_bool)

lemma row_Fx:
  "exec_ok s 0xf0" "exec_ok s 0xf1" "exec_ok s 0xf2" "exec_ok s 0xf3"
  "exec_ok s 0xf4" "exec_ok s 0xf5" "exec_ok s 0xf6" "exec_ok s 0xf7"
  "exec_ok s 0xf8" "exec_ok s 0xf9" "exec_ok s 0xfa" "exec_ok s 0xfb"
  "exec_ok s 0xfc" "exec_ok s 0xfd" "exec_ok s 0xfe" "exec_ok s 0xff"
  by (simp_all add: row_simps exec_Fx_def i8080_retrieve_flags_def i8080_store_flags_def split del: split_of_bool)

lemma exec_ok_all:
  assumes "unat (carry_flag (FLAGS s)) \<le> 1"
  shows "exec_ok s op"
proof -
  have "list_all (exec_ok s) (map word_of_nat [0..<256])"
    using row_0x [of s] row_1x [of s] row_2x [of s] row_3x [of s] row_4x [of s] row_5x [of s]
      row_6x [of s] row_7x [of s] row_8x [OF assms] row_9x [OF assms] row_Ax [of s] row_Bx [of s]
      row_Cx [OF assms] row_Dx [OF assms] row_Ex [of s] row_Fx [of s]
    by (simp add: upt_rec)
  then show ?thesis by (rule list_all_u8)
qed

lemma ei_tick_ref: "map_bus view (ei_tick H s) = isa_tick B (map_bus view s)"
  by (simp add: ei_tick_def isa_tick_def inte_def map_bus_def cpu_simps Let_def iff_abs)

lemma execute_ref:
  assumes "unat (carry_flag (FLAGS s)) \<le> 1"
  shows "fst (i8080_execute H (ucast op) s) = fst (isa_step B op (map_bus view s))"
    and "map_bus view (snd (i8080_execute H (ucast op) s)) = snd (isa_step B op (map_bus view s))"
proof -
  have ok: "fst (exec_switch H (ucast op) s) = fst (isa_exec B (decode op) (map_bus view s))"
    "snd (isa_exec B (decode op) (map_bus view s)) = map_bus view (snd (exec_switch H (ucast op) s))"
    using exec_ok_all [OF assms] by (simp_all add: exec_ok_def)
  have set: "map_bus view (set_CPU_CYCLES c t) = set_CPU_CYCLES c (map_bus view t)" for c t
    by (simp add: map_bus_def cpu_simps)
  show "fst (i8080_execute H (ucast op) s) = fst (isa_step B op (map_bus view s))"
    and "map_bus view (snd (i8080_execute H (ucast op) s)) = snd (isa_step B op (map_bus view s))"
    by (simp_all add: i8080_execute_def isa_step_def split_def Let_def ok set ei_tick_ref)
qed

lemma FETCH_ref:
  "fst (FETCH H s) = imm8 B (map_bus view s)" "map_bus view (snd (FETCH H s)) = skip 1 (map_bus view s)"
  by (simp_all add: FETCH_def imm8_def skip_def Let_def cpu_simps map_bus_def)

lemma instruction_ref:
  assumes "unat (carry_flag (FLAGS s)) \<le> 1"
  shows "(case i8080_instruction H s of (op, v, s') \<Rightarrow> (ucast op, v, map_bus view s')) =
     isa_instruction B (map_bus view s)"
proof -
  have "unat (carry_flag (FLAGS (snd (FETCH H s)))) \<le> 1"
    using assms by (simp add: FETCH_def Let_def cpu_simps)
  from execute_ref [OF this] show ?thesis
    by (simp add: i8080_instruction_def isa_instruction_def Let_def split_def FETCH_ref prod_eq_iff)
qed

end

end
