(* ===== verification/Serialize.thy ===== *)
theory Serialize
  imports Prelude
begin

text \<open>
  The container of a saved state (\<^verbatim>\<open>src/serialize.h\<close>): a sequence of chunks, each a
  four-byte signature, a four-byte length and the payload, both numbers in the byte order of the
  (little-endian) host.  Iterators into the byte vector are suffixes of a list; a read past the
  end of the vector, undefined in C++, is \<open>None\<close>.
\<close>

definition le32 :: "u32 \<Rightarrow> u8 list" where
  "le32 w = [ucast w, ucast (drop_bit 8 w), ucast (drop_bit 16 w), ucast (drop_bit 24 w)]"

fun un_le32 :: "u8 list \<Rightarrow> (u32 \<times> u8 list) option" where
  "un_le32 (b0 # b1 # b2 # b3 # it) =
     Some (ucast b0 OR push_bit 8 (ucast b1) OR push_bit 16 (ucast b2) OR push_bit 24 (ucast b3), it)"
| "un_le32 _ = None"

definition ID_MEMORY :: u32 where "ID_MEMORY = 0xfecacaca"
definition ID_IO :: u32 where "ID_IO = 0xfeca1010"
definition ID_CPU :: u32 where "ID_CPU = 0xfeca0000"
definition ID_BOARD :: u32 where "ID_BOARD = 0xfecababe"

definition insert_chunk :: "u8 list \<Rightarrow> u32 \<Rightarrow> u8 list \<Rightarrow> u8 list" where
  "insert_chunk to chunk_id chunk = to @ le32 chunk_id @ le32 (word_of_nat (length chunk)) @ chunk"

definition take_chunk :: "u8 list \<Rightarrow> (u32 \<times> u32 \<times> u8 list) option" where
  "take_chunk it =
     (case un_le32 it of None \<Rightarrow> None
      | Some (sig, it) \<Rightarrow>
          (case un_le32 it of None \<Rightarrow> None | Some (sz, it) \<Rightarrow> Some (sig, sz, it)))"

lemma u32_bytes:
  "(ucast (ucast w :: u8) :: u32) OR push_bit 8 (ucast (ucast (drop_bit 8 w) :: u8)) OR
   push_bit 16 (ucast (ucast (drop_bit 16 w) :: u8)) OR
   push_bit 24 (ucast (ucast (drop_bit 24 w) :: u8)) = w"
proof (rule bit_word_eqI)
  fix n assume "n < LENGTH(32)"
  then have n: "n < 32" by simp
  consider "n < 8" | "8 \<le> n" "n < 16" | "16 \<le> n" "n < 24" | "24 \<le> n" "n < 32"
    using n by linarith
  then show "bit ((ucast (ucast w :: u8) :: u32) OR push_bit 8 (ucast (ucast (drop_bit 8 w) :: u8)) OR
      push_bit 16 (ucast (ucast (drop_bit 16 w) :: u8)) OR
      push_bit 24 (ucast (ucast (drop_bit 24 w) :: u8))) n = bit w n"
    by cases (auto simp: bit_simps)
qed

lemma un_le32_le32 [simp]: "un_le32 (le32 w @ it) = Some (w, it)"
  using u32_bytes [of w] by (simp add: le32_def)

lemma length_le32 [simp]: "length (le32 w) = 4"
  by (simp add: le32_def)

lemma take_insert_chunk:
  "take_chunk (insert_chunk [] chunk_id chunk @ rest) =
     Some (chunk_id, word_of_nat (length chunk), chunk @ rest)"
  by (simp add: take_chunk_def insert_chunk_def)

lemma insert_chunk_append: "insert_chunk to chunk_id chunk = to @ insert_chunk [] chunk_id chunk"
  by (simp add: insert_chunk_def)

end
