(* ===== verification/Memory.thy ===== *)
theory Memory
  imports Serialize
begin

text \<open>
  The memory of the Vector-06C (\<^verbatim>\<open>src/memory.h\<close>, \<^verbatim>\<open>src/memory.cpp\<close>): 64 KB of
  main memory, a 256 KB RAM disk (\<^verbatim>\<open>kvaz\<close>) that can be mapped over \<^verbatim>\<open>A000..DFFF\<close>
  or over all stack accesses, and a boot ROM that hides the low addresses while it is attached.
  The array of bytes is a function from physical addresses; that every access stays below
  \<open>TOTAL_MEMORY\<close> is a theorem, not an assumption.  The callbacks \<^verbatim>\<open>onread\<close> and
  \<^verbatim>\<open>onwrite\<close> act on an arbitrary observer state \<open>'s\<close>.
\<close>

definition TOTAL_MEMORY :: nat where
  "TOTAL_MEMORY = 64 * 1024 + 256 * 1024"

type_synonym 's mem_callback = "u32 \<Rightarrow> u32 \<Rightarrow> bool \<Rightarrow> u8 \<Rightarrow> 's \<Rightarrow> 's"

record 's memory =
  bytes :: "u32 \<Rightarrow> u8"
  mode_stack :: bool
  mode_map :: bool
  page_map :: u32
  page_stack :: u32
  bootbytes :: "u8 list"
  onwrite :: "'s mem_callback option"
  onread :: "'s mem_callback option"

definition memory_init :: "'s memory" where
  "memory_init = \<lparr>bytes = (\<lambda>_. 0), mode_stack = False, mode_map = False, page_map = 0,
     page_stack = 0, bootbytes = [], onwrite = None, onread = None\<rparr>"

definition control_write :: "u8 \<Rightarrow> 's memory \<Rightarrow> 's memory" where
  "control_write w8 m =
     m\<lparr>mode_stack := (w8 AND 0x10 \<noteq> 0), mode_map := (w8 AND 0x20 \<noteq> 0),
       page_map := push_bit 16 (ucast (w8 AND 3) + 1),
       page_stack := push_bit 16 (drop_bit 2 (ucast (w8 AND 0xc)) + 1)\<rparr>"

definition bigram_select :: "'s memory \<Rightarrow> u32 \<Rightarrow> bool \<Rightarrow> u32" where
  "bigram_select m addr stackrq =
     (if \<not> (mode_map m \<or> mode_stack m) then addr
      else if mode_stack m \<and> stackrq then addr + page_stack m
      else if mode_map m \<and> 0xa000 \<le> addr \<and> addr < 0xe000 then addr + page_map m
      else addr)"

definition tobank :: "u32 \<Rightarrow> u32" where
  "tobank a = (a AND 0x78000) OR (push_bit 2 a AND 0x7ffc) OR (drop_bit 13 a AND 3)"

definition in_boot :: "'s memory \<Rightarrow> u32 \<Rightarrow> bool" where
  "in_boot m bigaddr \<longleftrightarrow> bootbytes m \<noteq> [] \<and> unat bigaddr < length (bootbytes m)"

definition callback :: "'s mem_callback option \<Rightarrow> 's mem_callback" where
  "callback cb = (case cb of None \<Rightarrow> (\<lambda>_ _ _ _ t. t) | Some f \<Rightarrow> f)"

definition mem_read :: "'s memory \<Rightarrow> u32 \<Rightarrow> bool \<Rightarrow> 's \<Rightarrow> u8 \<times> 's" where
  "mem_read m addr stackrq t =
     (let bigaddr = bigram_select m (addr AND 0xffff) stackrq;
          (phys, v) =
            (if in_boot m bigaddr then (addr, bootbytes m ! unat bigaddr)
             else (let phys = tobank bigaddr in (phys, bytes m phys)))
      in (v, callback (onread m) addr phys stackrq v t))"

definition mem_peek :: "'s memory \<Rightarrow> u32 \<Rightarrow> bool \<Rightarrow> u8" where
  "mem_peek m addr stackrq =
     (let bigaddr = bigram_select m (addr AND 0xffff) stackrq
      in if in_boot m bigaddr then bootbytes m ! unat bigaddr
         else (let phys = tobank bigaddr in bytes m phys))"

definition mem_write :: "u32 \<Rightarrow> u8 \<Rightarrow> bool \<Rightarrow> 's memory \<times> 's \<Rightarrow> 's memory \<times> 's" where
  "mem_write addr w8 stackrq mt =
     (let (m, t) = mt; phys = tobank (bigram_select m (addr AND 0xffff) stackrq);
          t = callback (onwrite m) addr phys stackrq w8 t
      in (m\<lparr>bytes := (bytes m)(phys := w8)\<rparr>, t))"

text \<open>
  \<^verbatim>\<open>memset\<close> of the tail: for a start address beyond the array the length
  \<^verbatim>\<open>sizeof(bytes) - start_addr\<close> wraps around and the call leaves the array, which is
  \<open>None\<close> here.
\<close>

fun load_at :: "u32 \<Rightarrow> u8 list \<Rightarrow> (u32 \<Rightarrow> u8) \<Rightarrow> (u32 \<Rightarrow> u8)" where
  "load_at addr [] bs = bs"
| "load_at addr (v # vs) bs =
     (let phys = tobank addr
      in load_at (addr + 1) vs (if unat phys < TOTAL_MEMORY then bs(phys := v) else bs))"

definition init_from_vector :: "u8 list \<Rightarrow> u32 \<Rightarrow> 's memory \<Rightarrow> 's memory option" where
  "init_from_vector from start_addr m =
     (if start_addr < 65536 then
        Some (m\<lparr>bytes := load_at start_addr from (\<lambda>a. if a < 65536 then 0 else bytes m a)\<rparr>)
      else if unat start_addr \<le> TOTAL_MEMORY then
        Some (m\<lparr>bytes := load_at start_addr from
                 (\<lambda>a. if start_addr \<le> a \<and> unat a < TOTAL_MEMORY then 0 else bytes m a)\<rparr>)
      else None)"

definition attach_boot :: "u8 list \<Rightarrow> 's memory \<Rightarrow> 's memory" where
  "attach_boot boot m = m\<lparr>bootbytes := boot\<rparr>"

definition detach_boot :: "'s memory \<Rightarrow> 's memory" where
  "detach_boot m = m\<lparr>bootbytes := []\<rparr>"

text \<open>
  \<^verbatim>\<open>buffer()\<close> is the whole array; a saved state holds the two mode flags, the page
  numbers, the number of 64 KB blocks, the array and the attached boot ROM.  \<open>deserialize\<close>
  gets the rest of the byte vector and the size of the chunk.
\<close>

definition buffer :: "'s memory \<Rightarrow> u8 list" where
  "buffer m = map (\<lambda>i. bytes m (word_of_nat i)) [0..<TOTAL_MEMORY]"

definition memory_payload :: "'s memory \<Rightarrow> u8 list" where
  "memory_payload m =
     [of_bool (mode_stack m), of_bool (mode_map m), ucast (drop_bit 16 (page_map m)),
      ucast (drop_bit 16 (page_stack m)), word_of_nat (TOTAL_MEMORY div 65536)] @
     buffer m @ bootbytes m"

definition memory_serialize :: "'s memory \<Rightarrow> u8 list \<Rightarrow> u8 list" where
  "memory_serialize m to = insert_chunk to ID_MEMORY (memory_payload m)"

definition memory_deserialize :: "u8 list \<Rightarrow> nat \<Rightarrow> 's memory \<Rightarrow> 's memory option" where
  "memory_deserialize it0 sz m =
     (case it0 of
        b0 # b1 # b2 # b3 # b4 # it \<Rightarrow>
          (let stored_ramsize = 65536 * unat b4; nbytes = min stored_ramsize TOTAL_MEMORY
           in if 5 + stored_ramsize \<le> sz \<and> sz \<le> length it0 then
                Some (m\<lparr>mode_stack := (b0 \<noteq> 0), mode_map := (b1 \<noteq> 0),
                  page_map := push_bit 16 (ucast b2), page_stack := push_bit 16 (ucast b3),
                  bytes := (\<lambda>a. if unat a < nbytes then it ! unat a else bytes m a),
                  bootbytes := drop stored_ramsize (take (sz - 5) it)\<rparr>)
              else None)
      | _ \<Rightarrow> None)"

text \<open>
  \<^verbatim>\<open>DebugMemoryAccess::peek\<close> (\<^verbatim>\<open>debugger/src/debug_memory.cpp\<close>): a read with the
  read callback taken out and put back.
\<close>

definition debug_peek :: "u16 \<Rightarrow> bool \<Rightarrow> 's memory \<times> 's \<Rightarrow> u8 \<times> 's memory \<times> 's" where
  "debug_peek address stackrq mt =
     (let (m, t) = mt; saved_callback = onread m; m = m\<lparr>onread := None\<rparr>;
          (v, t) = mem_read m (ucast address) stackrq t
      in (v, m\<lparr>onread := saved_callback\<rparr>, t))"

subsection \<open>The page registers\<close>

text \<open>The invariant: a page register is 0 (before the first control write) or selects one of the
  four 64 KB pages of the RAM disk.\<close>

definition page_ok :: "u32 \<Rightarrow> bool" where
  "page_ok p \<longleftrightarrow> p \<in> {0, 0x10000, 0x20000, 0x30000, 0x40000}"

definition memory_ok :: "'s memory \<Rightarrow> bool" where
  "memory_ok m \<longleftrightarrow> page_ok (page_map m) \<and> page_ok (page_stack m)"

lemma memory_ok_init: "memory_ok memory_init"
  by (simp add: memory_ok_def memory_init_def page_ok_def)

lemma control_write_ok: "memory_ok (control_write w8 m)"
proof -
  have "list_all (\<lambda>w8 :: u8. page_ok (push_bit 16 (ucast (w8 AND 3) + 1)) \<and>
      page_ok (push_bit 16 (drop_bit 2 (ucast (w8 AND 0xc)) + 1))) (map word_of_nat [0..<256])"
    by (simp add: upt_rec page_ok_def)
  from list_all_u8 [OF this, of w8] show ?thesis
    by (simp add: memory_ok_def control_write_def)
qed

lemma memory_ok_upd [simp]:
  "memory_ok (m\<lparr>bytes := b\<rparr>) = memory_ok m" "memory_ok (m\<lparr>bootbytes := bb\<rparr>) = memory_ok m"
  "memory_ok (m\<lparr>onread := r\<rparr>) = memory_ok m" "memory_ok (m\<lparr>onwrite := w\<rparr>) = memory_ok m"
  by (simp_all add: memory_ok_def)

subsection \<open>The physical address\<close>

text \<open>\<open>tobank\<close> moves address bits 13 and 14 to the bottom, so that the four bytes of a screen
  column lie together; it permutes each 32 KB block.  \<open>tobank_inv\<close> moves them back.\<close>

definition tobank_inv :: "u32 \<Rightarrow> u32" where
  "tobank_inv p = (p AND 0x78000) OR (drop_bit 2 p AND 0x1fff) OR (push_bit 13 p AND 0x6000)"

lemma masks:
  "(0x78000 :: u32) = push_bit 15 (mask 4)" "(0x7ffc :: u32) = push_bit 2 (mask 13)"
  "(3 :: u32) = mask 2" "(0x1fff :: u32) = mask 13" "(0x6000 :: u32) = push_bit 13 (mask 2)"
  by (simp_all add: mask_eq_exp_minus_1 push_bit_eq_mult)

lemma bit_tobank:
  "bit (tobank a) n \<longleftrightarrow> (if n < 2 then bit a (n + 13) else if n < 15 then bit a (n - 2)
     else n < 19 \<and> bit a n)"
  unfolding tobank_def masks by (auto simp: bit_simps add.commute dest: bit_imp_le_length)

lemma bit_tobank_inv:
  "bit (tobank_inv p) n \<longleftrightarrow> (if n < 13 then bit p (n + 2) else if n < 15 then bit p (n - 13)
     else n < 19 \<and> bit p n)"
  unfolding tobank_inv_def masks by (auto simp: bit_simps add.commute dest: bit_imp_le_length)

lemma tobank_inv_tobank: "tobank_inv (tobank a) = take_bit 19 a"
  by (rule bit_word_eqI) (auto simp: bit_tobank bit_tobank_inv bit_simps Suc_diff_Suc numeral_2_eq_2)

lemma tobank_tobank_inv: "tobank (tobank_inv a) = take_bit 19 a"
  by (rule bit_word_eqI) (auto simp: bit_tobank bit_tobank_inv bit_simps Suc_diff_Suc numeral_2_eq_2)

lemma drop_bit_tobank: "drop_bit 15 (tobank a) = drop_bit 15 (take_bit 19 a)"
  by (rule bit_word_eqI) (auto simp: bit_tobank bit_simps)

lemma tobank_block:
  assumes "unat a < 2 ^ 19"
  shows "unat (tobank a) div 0x8000 = unat a div 0x8000"
proof -
  have "take_bit 19 a = a"
    using assms by (simp add: word_unat_eq_iff unsigned_take_bit_eq take_bit_nat_eq_self)
  then have "drop_bit 15 (tobank a) = drop_bit 15 a" by (simp add: drop_bit_tobank)
  then have "unat (drop_bit 15 (tobank a)) = unat (drop_bit 15 a)" by simp
  then show ?thesis by (simp only: unat_drop_bit_eq) (simp add: drop_bit_eq_div)
qed

lemma tobank_eq_iff:
  assumes "unat a < 2 ^ 19" "unat b < 2 ^ 19"
  shows "tobank a = tobank b \<longleftrightarrow> a = b"
proof -
  have "take_bit 19 a = a" "take_bit 19 b = b"
    using assms by (simp_all add: word_unat_eq_iff unsigned_take_bit_eq take_bit_nat_eq_self)
  then show ?thesis by (metis tobank_inv_tobank)
qed

subsection \<open>Every access stays inside the array\<close>

abbreviation select :: "'s memory \<Rightarrow> u32 \<Rightarrow> bool \<Rightarrow> u32" where
  "select m addr stackrq \<equiv> bigram_select m (addr AND 0xffff) stackrq"

lemma unat_add_page:
  assumes "page_ok p"
  shows "unat ((addr AND 0xffff) + p) = unat addr mod 65536 + unat p"
    and "unat p \<in> {0, 0x10000, 0x20000, 0x30000, 0x40000}"
proof -
  show p: "unat p \<in> {0, 0x10000, 0x20000, 0x30000, 0x40000}"
    using assms by (auto simp: page_ok_def)
  have "unat (addr AND 0xffff) + unat p < 2 ^ 32"
    using p by (auto simp: unat_low_bits intro: le_less_trans [OF add_le_mono [OF mod_less_divisor [THEN less_imp_le] order_refl]])
  then show "unat ((addr AND 0xffff) + p) = unat addr mod 65536 + unat p"
    by (simp add: unat_word_ariths unat_low_bits)
qed

lemma unat_select:
  assumes "memory_ok m"
  shows "unat (select m addr stackrq) = unat addr mod 65536 +
    (if mode_stack m \<and> stackrq then unat (page_stack m)
     else if mode_map m \<and> 0xa000 \<le> unat addr mod 65536 \<and> unat addr mod 65536 < 0xe000
     then unat (page_map m) else 0)"
  using assms unat_add_page(1) [of "page_map m" addr] unat_add_page(1) [of "page_stack m" addr]
  by (auto simp: bigram_select_def memory_ok_def unat_low_bits word_le_nat_alt word_less_nat_alt)

lemma select_lt:
  assumes "memory_ok m"
  shows "unat (select m addr stackrq) < TOTAL_MEMORY"
proof -
  have "unat addr mod 65536 < 65536" by simp
  with assms unat_add_page(2) [of "page_map m"] unat_add_page(2) [of "page_stack m"]
  show ?thesis unfolding unat_select [OF assms] TOTAL_MEMORY_def memory_ok_def by auto
qed

lemma tobank_lt:
  assumes "unat a < TOTAL_MEMORY"
  shows "unat (tobank a) < TOTAL_MEMORY"
proof -
  have "unat (tobank a) div 0x8000 = unat a div 0x8000"
    using assms by (intro tobank_block) (simp add: TOTAL_MEMORY_def)
  also have "\<dots> < 10"
    using assms by (intro less_mult_imp_div_less) (simp add: TOTAL_MEMORY_def)
  finally show ?thesis by (simp add: div_less_iff_less_mult TOTAL_MEMORY_def)
qed

text \<open>Two accesses hit the same cell of the array exactly when they select the same address of
  the 320 KB space.\<close>

lemma tobank_select_eq:
  assumes "memory_ok m"
  shows "tobank (select m a s) = tobank (select m b r) \<longleftrightarrow> select m a s = select m b r"
  using select_lt [OF assms, of a s] select_lt [OF assms, of b r]
  by (intro tobank_eq_iff) (simp_all add: TOTAL_MEMORY_def)

subsection \<open>Reading, writing and peeking\<close>

lemma mem_read_fst: "fst (mem_read m addr stackrq t) = mem_peek m addr stackrq"
  by (simp add: mem_read_def mem_peek_def Let_def)

lemma mem_read_quiet: "onread m = None \<Longrightarrow> mem_read m addr stackrq t = (mem_peek m addr stackrq, t)"
  by (simp add: mem_read_def mem_peek_def Let_def callback_def)

lemma mem_write_fields [simp]:
  "mode_stack (fst (mem_write a v s mt)) = mode_stack (fst mt)"
  "mode_map (fst (mem_write a v s mt)) = mode_map (fst mt)"
  "page_stack (fst (mem_write a v s mt)) = page_stack (fst mt)"
  "page_map (fst (mem_write a v s mt)) = page_map (fst mt)"
  "bootbytes (fst (mem_write a v s mt)) = bootbytes (fst mt)"
  "onread (fst (mem_write a v s mt)) = onread (fst mt)"
  "onwrite (fst (mem_write a v s mt)) = onwrite (fst mt)"
  by (simp_all add: mem_write_def Let_def split: prod.splits)

lemma mem_write_ok [simp]: "memory_ok (fst (mem_write a v s mt)) = memory_ok (fst mt)"
  by (simp add: memory_ok_def)

lemma mem_write_select [simp]:
  "bigram_select (fst (mem_write a v s mt)) = bigram_select (fst mt)"
  "in_boot (fst (mem_write a v s mt)) = in_boot (fst mt)"
  by (auto simp: bigram_select_def in_boot_def fun_eq_iff)

lemma mem_write_bytes:
  "bytes (fst (mem_write a v s (m, t))) = (bytes m)(tobank (select m a s) := v)"
  by (simp add: mem_write_def Let_def)

lemma mem_peek_write:
  assumes "memory_ok m"
  shows "mem_peek (fst (mem_write a v s (m, t))) b r =
    (if \<not> in_boot m (select m b r) \<and> select m a s = select m b r then v else mem_peek m b r)"
  using tobank_select_eq [OF assms, of b r a s]
  by (auto simp: mem_peek_def mem_write_bytes Let_def)

lemma mem_write_commute:
  assumes "memory_ok m" "select m a s \<noteq> select m b r"
  shows "bytes (fst (mem_write a v s (fst (mem_write b w r (m, t)), t'))) =
    bytes (fst (mem_write b w r (fst (mem_write a v s (m, t)), t')))"
  using tobank_select_eq [OF assms(1), of a s b r] assms(2)
  by (simp add: mem_write_bytes fun_upd_twist)

lemma debug_peek_eq: "debug_peek a s (m, t) = (mem_peek m (ucast a) s, m, t)"
proof -
  have "mem_peek (m\<lparr>onread := None\<rparr>) (ucast a) s = mem_peek m (ucast a) s"
    by (simp add: mem_peek_def bigram_select_def in_boot_def Let_def)
  then show ?thesis by (simp add: debug_peek_def mem_read_quiet)
qed

subsection \<open>Saved states\<close>

lemma length_buffer [simp]: "length (buffer m) = TOTAL_MEMORY"
  by (simp add: buffer_def)

lemma buffer_nth: "unat a < TOTAL_MEMORY \<Longrightarrow> buffer m ! unat a = bytes m a"
  by (simp add: buffer_def)

lemma ramsize_byte: "65536 * unat (word_of_nat (TOTAL_MEMORY div 65536) :: u8) = TOTAL_MEMORY"
  by (simp add: TOTAL_MEMORY_def)

lemma page_byte: "page_ok p \<Longrightarrow> push_bit 16 (ucast (ucast (drop_bit 16 p) :: u8)) = p"
  by (auto simp: page_ok_def)

lemma memory_deserialize_payload:
  assumes "memory_ok m"
  shows "memory_deserialize (memory_payload m @ rest) (length (memory_payload m)) m0 =
    Some (m\<lparr>bytes := (\<lambda>a. if unat a < TOTAL_MEMORY then bytes m a else bytes m0 a),
            onread := onread m0, onwrite := onwrite m0\<rparr>)"
proof -
  let ?it = "buffer m @ bootbytes m @ rest"
  have bs: "(\<lambda>a. if unat a < TOTAL_MEMORY then ?it ! unat a else bytes m0 a) =
      (\<lambda>a. if unat a < TOTAL_MEMORY then bytes m a else bytes m0 a)"
    by (auto simp: nth_append buffer_nth)
  have boot: "drop TOTAL_MEMORY (take (TOTAL_MEMORY + length (bootbytes m)) ?it) = bootbytes m"
    by simp
  have eq: "m0\<lparr>mode_stack := mode_stack m, mode_map := mode_map m, page_map := page_map m,
      page_stack := page_stack m, bytes := f, bootbytes := bootbytes m\<rparr> =
      m\<lparr>bytes := f, onread := onread m0, onwrite := onwrite m0\<rparr>" for f
    by (cases m; cases m0) simp
  from assms have "page_ok (page_map m)" "page_ok (page_stack m)" by (simp_all add: memory_ok_def)
  then show ?thesis
    by (simp add: memory_deserialize_def memory_payload_def Let_def ramsize_byte
        page_byte bs boot eq)
qed

subsection \<open>Any run of the memory\<close>

text \<open>The operations that change a memory, in any order, from a new one: what the rest of the
  emulator can do to it apart from loading a saved state.\<close>

datatype 's mem_op =
    Control u8 | Write u32 u8 bool | Load "u8 list" u32 | Attach "u8 list" | Detach
  | Watch "'s mem_callback option" "'s mem_callback option"

fun mem_step :: "'s mem_op \<Rightarrow> 's memory \<times> 's \<Rightarrow> 's memory \<times> 's" where
  "mem_step (Control w8) (m, t) = (control_write w8 m, t)"
| "mem_step (Write addr w8 stackrq) (m, t) = mem_write addr w8 stackrq (m, t)"
| "mem_step (Load from start_addr) (m, t) =
     (case init_from_vector from start_addr m of None \<Rightarrow> (m, t) | Some m \<Rightarrow> (m, t))"
| "mem_step (Attach boot) (m, t) = (attach_boot boot m, t)"
| "mem_step Detach (m, t) = (detach_boot m, t)"
| "mem_step (Watch r w) (m, t) = (m\<lparr>onread := r, onwrite := w\<rparr>, t)"

lemma init_from_vector_ok: "init_from_vector from a m = Some m' \<Longrightarrow> memory_ok m' = memory_ok m"
  by (auto simp: init_from_vector_def split: if_splits)

lemma mem_step_ok: "memory_ok (fst mt) \<Longrightarrow> memory_ok (fst (mem_step x mt))"
  by (cases mt; cases x)
    (auto simp: control_write_ok attach_boot_def detach_boot_def init_from_vector_ok split: option.splits)

lemma fold_mem_step_ok: "memory_ok (fst mt) \<Longrightarrow> memory_ok (fst (fold mem_step ops mt))"
  by (induction ops arbitrary: mt) (simp_all add: mem_step_ok)

lemma load_at_nth:
  assumes "unat addr + length vs \<le> TOTAL_MEMORY"
  shows "load_at addr vs bs p =
    (if unat addr \<le> unat (tobank_inv p) \<and> unat (tobank_inv p) < unat addr + length vs
        \<and> unat p < TOTAL_MEMORY
     then vs ! (unat (tobank_inv p) - unat addr) else bs p)"
  using assms
proof (induction vs arbitrary: addr bs)
  case Nil
  then show ?case by auto
next
  case (Cons v vs)
  have a: "unat addr < TOTAL_MEMORY" using Cons.prems by simp
  have lt: "unat addr + 1 < 2 ^ 32" using a by (simp add: TOTAL_MEMORY_def)
  then have suc: "unat (addr + 1) = Suc (unat addr)" by (simp add: unat_word_ariths)
  have inv: "p = tobank addr \<longleftrightarrow> tobank_inv p = addr" if "unat p < TOTAL_MEMORY"
  proof -
    have "take_bit 19 addr = addr" "take_bit 19 p = p"
      using a that by (simp_all add: TOTAL_MEMORY_def word_unat_eq_iff unsigned_take_bit_eq
          take_bit_nat_eq_self)
    then show ?thesis by (metis tobank_inv_tobank tobank_tobank_inv)
  qed
  have "unat (tobank addr) < TOTAL_MEMORY" by (rule tobank_lt [OF a])
  with Cons suc inv show ?case
    by (auto simp: Let_def nth_Cons' word_unat_eq_iff)
qed

lemma tobank_bij: "bij_betw tobank {a. unat a < TOTAL_MEMORY} {p. unat p < TOTAL_MEMORY}"
proof (rule bij_betw_byWitness [where f' = tobank_inv])
  have t: "take_bit 19 a = a" if "unat a < TOTAL_MEMORY" for a :: u32
    using that by (simp add: TOTAL_MEMORY_def word_unat_eq_iff unsigned_take_bit_eq
        take_bit_nat_eq_self)
  show "\<forall>a\<in>{a. unat a < TOTAL_MEMORY}. tobank_inv (tobank a) = a"
    by (simp add: tobank_inv_tobank t)
  show "\<forall>p\<in>{p. unat p < TOTAL_MEMORY}. tobank (tobank_inv p) = p"
    by (simp add: tobank_tobank_inv t)
  show "tobank ` {a. unat a < TOTAL_MEMORY} \<subseteq> {p. unat p < TOTAL_MEMORY}"
    by (auto intro: tobank_lt)
  have "unat (tobank_inv p) < TOTAL_MEMORY" if p: "unat p < TOTAL_MEMORY" for p
  proof -
    have "drop_bit 15 (tobank_inv p) = drop_bit 15 (take_bit 19 p)"
      by (rule bit_word_eqI) (auto simp: bit_tobank_inv bit_simps)
    then have "unat (drop_bit 15 (tobank_inv p)) = unat (drop_bit 15 p)" by (simp add: t [OF p])
    then have "unat (tobank_inv p) div 0x8000 = unat p div 0x8000"
      by (simp only: unat_drop_bit_eq) (simp add: drop_bit_eq_div)
    also have "\<dots> < 10" using p by (intro less_mult_imp_div_less) (simp add: TOTAL_MEMORY_def)
    finally show ?thesis by (simp add: div_less_iff_less_mult TOTAL_MEMORY_def)
  qed
  then show "tobank_inv ` {p. unat p < TOTAL_MEMORY} \<subseteq> {a. unat a < TOTAL_MEMORY}" by auto
qed

lemma init_from_vector_peek:
  assumes fits: "unat start_addr + length from \<le> 65536" "start_addr < 65536"
    and flat: "\<not> mode_map m" "\<not> mode_stack m" "bootbytes m = []"
    and load: "init_from_vector from start_addr m = Some m'"
  shows "mem_peek m' b s =
    (let i = unat b mod 65536 in
     if unat start_addr \<le> i \<and> i < unat start_addr + length from then from ! (i - unat start_addr)
     else 0)"
proof -
  define a where "a = b AND 0xffff"
  have ua: "unat a = unat b mod 65536" by (simp add: a_def unat_low_bits)
  then have lt: "unat a < 65536" by simp
  then have big: "unat a < TOTAL_MEMORY" "take_bit 19 a = a"
    by (simp_all add: TOTAL_MEMORY_def word_unat_eq_iff unsigned_take_bit_eq take_bit_nat_eq_self)
  have "unat (tobank a) div 0x8000 = unat a div 0x8000" using lt by (intro tobank_block) simp
  also have "\<dots> < 2" using lt by (intro less_mult_imp_div_less) simp
  finally have "tobank a < 65536" by (simp add: div_less_iff_less_mult word_less_nat_alt)
  moreover have "unat (tobank a) < TOTAL_MEMORY" by (rule tobank_lt [OF big(1)])
  moreover have "mem_peek m' b s = bytes m' (tobank a)"
    using load flat fits by (auto simp: init_from_vector_def mem_peek_def bigram_select_def
        in_boot_def a_def Let_def)
  ultimately show ?thesis
    using load fits big
    by (auto simp: init_from_vector_def load_at_nth tobank_inv_tobank ua Let_def TOTAL_MEMORY_def)
qed

subsection \<open>Properties\<close>

text \<open>Whatever sequence of operations the emulator performs on a new memory (mapping the RAM
  disk, writing, loading a program, attaching and detaching the boot ROM, installing callbacks),
  the physical address of every access lies inside the array \<^verbatim>\<open>bytes\<close>.\<close>

theorem memory_access_in_bounds:
  "unat (tobank (select (fst (fold mem_step ops (memory_init, t))) addr stackrq)) < TOTAL_MEMORY"
  by (intro tobank_lt select_lt fold_mem_step_ok) (simp add: memory_ok_init)

text \<open>C4: A byte read after a write, on a memory in any state the emulator can bring it to: the
  value written, when the two accesses select the same cell and the boot ROM does not cover it,
  and the old value otherwise.  So writes under the ROM reach the RAM below it, and the banks of
  the RAM disk, the main memory and the stack window never disturb each other.\<close>

theorem memory_read_after_write:
  "let m = fst (fold mem_step ops (memory_init, t0)); m' = fst (mem_write a v s (m, t)) in
   fst (mem_read m' b r t') =
     (if in_boot m (select m b r) then bootbytes m ! unat (select m b r)
      else if select m a s = select m b r then v else fst (mem_read m b r t'))"
proof -
  define m where "m = fst (fold mem_step ops (memory_init, t0))"
  have "memory_ok m" unfolding m_def by (intro fold_mem_step_ok) (simp add: memory_ok_init)
  then show ?thesis unfolding m_def [symmetric] Let_def mem_read_fst mem_peek_write [OF \<open>memory_ok m\<close>]
    by (simp add: mem_peek_def Let_def)
qed

text \<open>The address scrambling of the video memory is a permutation of the 320 KB array: no two
  addresses share a cell, and no cell is unreachable.\<close>

theorem tobank_permutation:
  "bij_betw tobank {a. unat a < TOTAL_MEMORY} {p. unat p < TOTAL_MEMORY}"
  by (rule tobank_bij)

text \<open>Loading a program into main memory: with the RAM disk unmapped and the boot ROM
  detached, the CPU then reads the program at its load address and zeros everywhere else.\<close>

theorem loaded_program_is_read_back:
  assumes "unat start_addr + length from \<le> 65536" "start_addr < 65536"
    "\<not> mode_map m" "\<not> mode_stack m" "bootbytes m = []"
  shows "\<exists>m'. init_from_vector from start_addr m = Some m' \<and>
    (\<forall>b s t. fst (mem_read m' b s t) =
      (let i = unat b mod 65536 in
       if unat start_addr \<le> i \<and> i < unat start_addr + length from
       then from ! (i - unat start_addr) else 0))"
proof -
  obtain m' where m': "init_from_vector from start_addr m = Some m'"
    using assms(2) by (simp add: init_from_vector_def)
  show ?thesis using init_from_vector_peek [OF assms m'] m' by (simp add: mem_read_fst)
qed

theorem loaded_program_is_read_back_witness:
  "\<exists>m'. init_from_vector [0xc3, 0, 1] 0x100 (memory_init :: unit memory) = Some m' \<and>
    (\<forall>b s t. fst (mem_read m' b s t) =
      (let i = unat b mod 65536 in
       if unat (0x100 :: u32) \<le> i \<and> i < unat (0x100 :: u32) + length [0xc3, 0, 1 :: u8]
       then [0xc3, 0, 1] ! (i - unat (0x100 :: u32)) else 0))"
  by (rule loaded_program_is_read_back) (simp_all add: memory_init_def)

text \<open>The debugger's read of a byte returns what the CPU would read, leaves the memory and its
  callbacks as they were, and calls no callback.\<close>

theorem debugger_peek_has_no_effect:
  "debug_peek addr stackrq (m, t) = (fst (mem_read m (ucast addr) stackrq t'), m, t)"
  by (simp add: debug_peek_eq mem_read_fst)

text \<open>Saving a memory and loading the saved state into any other restores the mapping, the boot
  ROM and every byte of the array, and leaves the callbacks of the target alone.\<close>

theorem memory_state_round_trip:
  assumes "memory_ok m"
  shows "memory_deserialize (memory_payload m @ rest) (length (memory_payload m)) m0 =
    Some (m\<lparr>bytes := (\<lambda>a. if unat a < TOTAL_MEMORY then bytes m a else bytes m0 a),
            onread := onread m0, onwrite := onwrite m0\<rparr>)"
  by (rule memory_deserialize_payload [OF assms])

theorem memory_state_round_trip_witness:
  "let m = control_write 0x3d (memory_init :: unit memory); m0 = memory_init in
   memory_deserialize (memory_payload m @ [1]) (length (memory_payload m)) m0 =
    Some (m\<lparr>bytes := (\<lambda>a. if unat a < TOTAL_MEMORY then bytes m a else bytes m0 a),
            onread := onread m0, onwrite := onwrite m0\<rparr>)"
  unfolding Let_def by (rule memory_state_round_trip) (rule control_write_ok)

end
