(* ===== verification/Timer.thy ===== *)
theory Timer
  imports Prelude
begin

text \<open>
  The programmable interval timer (\<^verbatim>\<open>src/8253.h\<close>): three counters that count down once per
  call of \<^verbatim>\<open>Count\<close>, in the modes 0 (interrupt on terminal count), 1 (one-shot), 2 (rate
  generator) and 3 (square wave).  The C \<^verbatim>\<open>int\<close> fields are \<open>int\<close>; the lemmas show the range
  they stay in.  The fields \<^verbatim>\<open>latch_mode\<close>, \<^verbatim>\<open>out\<close>, \<^verbatim>\<open>write_lsb\<close> and
  \<^verbatim>\<open>write_msb\<close>, which the constructor leaves uninitialised, are its arguments.
  \<^verbatim>\<open>write_cw\<close> with the counter number 3 indexes past the array of counters: \<open>None\<close>.
\<close>

subsection \<open>One counter\<close>

definition WRITE_DELAY :: int where "WRITE_DELAY = 2"
definition LATCH_DELAY :: int where "LATCH_DELAY = 1"

record CounterUnit =
  latch_value :: int
  write_state :: int
  latch_mode :: int
  out :: int
  tvalue :: int
  mode_int :: int
  write_lsb :: u8
  write_msb :: u8
  loadvalue :: u16
  armed :: bool
  tload :: bool
  enabled :: bool
  bcd_mode :: bool
  delay :: int

definition CounterUnit_new :: "int \<Rightarrow> int \<Rightarrow> u8 \<Rightarrow> u8 \<Rightarrow> CounterUnit" where
  "CounterUnit_new lm o0 lsb msb =
     \<lparr>latch_value = -1, write_state = 0, latch_mode = lm, out = o0, tvalue = 0, mode_int = 0,
      write_lsb = lsb, write_msb = msb, loadvalue = 0, armed = False, tload = False,
      enabled = False, bcd_mode = False, delay = 0\<rparr>"

definition loadint :: "CounterUnit \<Rightarrow> int" where
  "loadint c = uint (loadvalue c)"

definition wrap :: "CounterUnit \<Rightarrow> int" where
  "wrap c = (if bcd_mode c then 10000 else 65536)"

definition reload :: "CounterUnit \<Rightarrow> int" where
  "reload c = (if loadvalue c = 0 then wrap c else loadint c)"

text \<open>The four modes of \<^verbatim>\<open>Count\<close> with \<^verbatim>\<open>cycles = 1\<close>; each yields the returned
  value and the new counter.\<close>

definition count_0 :: "CounterUnit \<Rightarrow> int \<times> CounterUnit" where
  "count_0 c =
     (let (result, c) =
        (if tload c
         then (0, c\<lparr>tvalue := loadint c, enabled := True, armed := True, out := 0\<rparr>)
         else (out c, c))
      in if enabled c then
           (let previous = tvalue c; c = c\<lparr>tvalue := tvalue c - 1\<rparr>
            in if tvalue c \<le> 0 then
                 (let (result, c) =
                    (if armed c
                     then (- tvalue c + 1,
                           (if previous \<noteq> 0 then c\<lparr>out := 1\<rparr> else c)\<lparr>armed := False\<rparr>)
                     else (result, c))
                  in (result, c\<lparr>tvalue := tvalue c + wrap c\<rparr>))
               else (result, c))
         else (result, c))"

definition count_1 :: "CounterUnit \<Rightarrow> int \<times> CounterUnit" where
  "count_1 c =
     (let result = out c;
          c = (if \<not> enabled c \<and> tload c then c\<lparr>enabled := True\<rparr> else c)
      in if enabled c then
           (let c = c\<lparr>tvalue := tvalue c - 1\<rparr>
            in if tvalue c \<le> 0
               then (result, c\<lparr>tvalue := tvalue c +
                       (if loadvalue c = 0 then wrap c else loadint c + 1)\<rparr>)
               else (result, c))
         else (result, c))"

definition count_2 :: "CounterUnit \<Rightarrow> int \<times> CounterUnit" where
  "count_2 c =
     (let result = out c;
          c = (if \<not> enabled c \<and> tload c then c\<lparr>tvalue := loadint c, enabled := True\<rparr> else c)
      in if enabled c then
           (let c = c\<lparr>tvalue := tvalue c - 1\<rparr>
            in if tvalue c \<le> 0 then (result, c\<lparr>tvalue := tvalue c + reload c\<rparr>) else (result, c))
         else (result, c))"

definition count_3 :: "CounterUnit \<Rightarrow> int \<times> CounterUnit" where
  "count_3 c =
     (let c = (if \<not> enabled c \<and> tload c then c\<lparr>tvalue := loadint c, enabled := True\<rparr> else c);
          c = (if enabled c then
                 (let dec = (if tvalue c = loadint c \<and> tvalue c AND 1 = 1
                             then (if out c = 0 then 3 else 1) else 2);
                      c = c\<lparr>tvalue := tvalue c - dec\<rparr>
                  in if tvalue c \<le> 0
                     then (let c = c\<lparr>out := out c XOR 1\<rparr> in c\<lparr>tvalue := tvalue c + reload c\<rparr>)
                     else c)
               else c)
      in (out c, c))"

definition Count :: "int \<Rightarrow> CounterUnit \<Rightarrow> int \<times> CounterUnit" where
  "Count incycles c =
     (if delay c \<noteq> 0 then (let c = c\<lparr>delay := delay c - 1\<rparr> in (out c, c))
      else if \<not> enabled c \<and> \<not> tload c then (out c, c)
      else (let (result, c) =
              (if mode_int c = 0 then count_0 c else if mode_int c = 1 then count_1 c
               else if mode_int c = 2 then count_2 c else if mode_int c = 3 then count_3 c
               else (out c, c))
            in (result, c\<lparr>tload := False\<rparr>)))"

definition SetMode :: "int \<Rightarrow> int \<Rightarrow> int \<Rightarrow> CounterUnit \<Rightarrow> CounterUnit" where
  "SetMode new_mode new_latch_mode new_bcd_mode c =
     (let (_, c) = Count LATCH_DELAY c;
          c = c\<lparr>delay := LATCH_DELAY, bcd_mode := (new_bcd_mode \<noteq> 0),
                mode_int := (if new_mode AND 3 = 2 then 2 else if new_mode AND 3 = 3 then 3
                             else new_mode)\<rparr>;
          c = (if mode_int c = 0 then c\<lparr>out := 0, armed := True, enabled := False\<rparr>
               else if mode_int c = 1 then c\<lparr>out := 1, armed := True, enabled := False\<rparr>
               else if mode_int c = 2 then c\<lparr>out := 1, enabled := False\<rparr>
               else c\<lparr>out := 1, enabled := False\<rparr>)
      in c\<lparr>tload := False, latch_mode := new_latch_mode, write_state := 0\<rparr>)"

definition Latch :: "CounterUnit \<Rightarrow> CounterUnit" where
  "Latch c = (let (_, c) = Count LATCH_DELAY c; c = c\<lparr>delay := LATCH_DELAY\<rparr>
              in c\<lparr>latch_value := tvalue c\<rparr>)"

fun tobcd_loop :: "nat \<Rightarrow> nat \<Rightarrow> nat \<Rightarrow> nat \<Rightarrow> nat" where
  "tobcd_loop 0 i x result = result"
| "tobcd_loop (Suc k) i x result =
     tobcd_loop k (i + 1) (x div 10) (result OR push_bit (i * 4) (x mod 10))"

definition tobcd :: "u16 \<Rightarrow> u16" where
  "tobcd x = word_of_nat (tobcd_loop 4 0 (unat x) 0)"

fun frombcd_loop :: "nat \<Rightarrow> u16 \<Rightarrow> nat \<Rightarrow> nat" where
  "frombcd_loop 0 x result = result"
| "frombcd_loop (Suc k) x result =
     (let digit = unat (drop_bit 12 (x AND 0xf000)); digit = (if digit > 9 then 9 else digit)
      in frombcd_loop k (push_bit 4 x) (result * 10 + digit))"

definition frombcd :: "u16 \<Rightarrow> u16" where
  "frombcd x = word_of_nat (frombcd_loop 4 x 0)"

definition write_value :: "u8 \<Rightarrow> CounterUnit \<Rightarrow> CounterUnit" where
  "write_value w8 c =
     (let c = (if latch_mode c = 3 then
                 (if write_state c = 0 then c\<lparr>write_lsb := w8, write_state := 1\<rparr>
                  else if write_state c = 1 then
                    (let c = c\<lparr>write_msb := w8, write_state := 0\<rparr>
                     in c\<lparr>loadvalue := mk16 (write_msb c) (write_lsb c), tload := True\<rparr>)
                  else c)
               else if latch_mode c = 1 then c\<lparr>loadvalue := ucast w8, tload := True\<rparr>
               else if latch_mode c = 2 then
                 c\<lparr>tvalue := 256 * uint w8, loadvalue := mk16 w8 0, tload := True\<rparr>
               else c)
      in if tload c then
           (let c = (if bcd_mode c then c\<lparr>loadvalue := frombcd (loadvalue c)\<rparr> else c)
            in if mode_int c = 0 then c\<lparr>delay := 3\<rparr>
               else if mode_int c = 1 \<or> mode_int c = 2 \<or> mode_int c = 3 then
                 (if \<not> enabled c then c\<lparr>delay := 3\<rparr> else c)
               else c\<lparr>delay := 4\<rparr>)
         else c)"

definition shown :: "CounterUnit \<Rightarrow> int" where
  "shown c = (let v = (if latch_value c \<noteq> -1 then latch_value c else tvalue c)
              in if bcd_mode c then uint (tobcd (word_of_int v)) else v)"

definition read_value :: "CounterUnit \<Rightarrow> int \<times> CounterUnit" where
  "read_value c =
     (if latch_mode c = 1 then (shown c AND 0xff, c\<lparr>latch_value := -1\<rparr>)
      else if latch_mode c = 2 then (drop_bit 8 (shown c) AND 0xff, c\<lparr>latch_value := -1\<rparr>)
      else if latch_mode c = 3 then
        (if write_state c = 0 then (shown c AND 0xff, c\<lparr>write_state := 1\<rparr>)
         else if write_state c = 1
         then (drop_bit 8 (shown c) AND 0xff, c\<lparr>latch_value := -1, write_state := 0\<rparr>)
         else (shown c, c))
      else (0, c))"

subsection \<open>The chip\<close>

record I8253 =
  counters :: "CounterUnit list"
  control_word :: u8

definition timer_write_cw :: "u8 \<Rightarrow> I8253 \<Rightarrow> I8253 option" where
  "timer_write_cw w8 t =
     (let counter_set = unat (drop_bit 6 w8 AND 3); mode_set = uint (drop_bit 1 w8 AND 3);
          latch_set = uint (drop_bit 4 w8 AND 3); bcd_set = uint (w8 AND 1)
      in if counter_set < length (counters t) then
           (let ctr = counters t ! counter_set
            in Some (t\<lparr>counters := (counters t)[counter_set :=
                 (if latch_set = 0 then Latch ctr else SetMode mode_set latch_set bcd_set ctr)]\<rparr>))
         else None)"

definition timer_write :: "int \<Rightarrow> u8 \<Rightarrow> I8253 \<Rightarrow> I8253 option" where
  "timer_write addr w8 t =
     (let a = nat (addr AND 3)
      in if a = 3 then timer_write_cw w8 t
         else Some (t\<lparr>counters := (counters t)[a := write_value w8 (counters t ! a)]\<rparr>))"

definition timer_read :: "int \<Rightarrow> I8253 \<Rightarrow> int \<times> I8253" where
  "timer_read addr t =
     (let a = nat (addr AND 3)
      in if a = 3 then (uint (control_word t), t)
         else (let (v, c) = read_value (counters t ! a) in (v, t\<lparr>counters := (counters t)[a := c]\<rparr>)))"

definition timer_Count :: "int \<Rightarrow> I8253 \<Rightarrow> int \<times> I8253" where
  "timer_Count cycles t =
     (let (r0, c0) = Count cycles (counters t ! 0); (r1, c1) = Count cycles (counters t ! 1);
          (r2, c2) = Count cycles (counters t ! 2)
      in (r0 + r1 + r2, t\<lparr>counters := [c0, c1, c2]\<rparr>))"

record TimerWrapper =
  last_sound :: int

definition timer_step :: "int \<Rightarrow> I8253 \<times> TimerWrapper \<Rightarrow> int \<times> I8253 \<times> TimerWrapper" where
  "timer_step cycles tw =
     (let (t, w) = tw; (s, t) = timer_Count cycles t;
          w = w\<lparr>last_sound := sgn s * sgn cycles * (\<bar>s\<bar> div \<bar>cycles\<bar>)\<rparr>
      in (last_sound w, t, w))"

subsection \<open>Counting\<close>

definition tick :: "CounterUnit \<Rightarrow> CounterUnit" where
  "tick c = snd (Count 1 c)"

lemma Count_const [simp]:
  "latch_value (snd (Count n c)) = latch_value c" "latch_mode (snd (Count n c)) = latch_mode c"
  "write_state (snd (Count n c)) = write_state c" "bcd_mode (snd (Count n c)) = bcd_mode c"
  "mode_int (snd (Count n c)) = mode_int c" "loadvalue (snd (Count n c)) = loadvalue c"
  by (simp_all add: Count_def count_0_def count_1_def count_2_def count_3_def Let_def)

lemma ticks_const [simp]:
  "latch_value ((tick ^^ k) c) = latch_value c" "latch_mode ((tick ^^ k) c) = latch_mode c"
  "write_state ((tick ^^ k) c) = write_state c" "bcd_mode ((tick ^^ k) c) = bcd_mode c"
  "mode_int ((tick ^^ k) c) = mode_int c" "loadvalue ((tick ^^ k) c) = loadvalue c"
  by (induction k) (simp_all add: tick_def)

text \<open>A counter that is running: loaded, enabled and past its start-up delay.\<close>

definition running :: "int \<Rightarrow> CounterUnit \<Rightarrow> bool" where
  "running m c \<longleftrightarrow> mode_int c = m \<and> enabled c \<and> delay c = 0 \<and> \<not> tload c"

lemma running_upd [simp]:
  "running m (c\<lparr>tvalue := v\<rparr>) = running m c" "running m (c\<lparr>out := b\<rparr>) = running m c"
  "running m (c\<lparr>armed := b'\<rparr>) = running m c"
  by (simp_all add: running_def)

lemma load_upd [simp]:
  "loadint (c\<lparr>tvalue := v\<rparr>) = loadint c" "loadint (c\<lparr>out := b\<rparr>) = loadint c"
  "reload (c\<lparr>tvalue := v\<rparr>) = reload c" "reload (c\<lparr>out := b\<rparr>) = reload c"
  "wrap (c\<lparr>tvalue := v\<rparr>) = wrap c" "wrap (c\<lparr>out := b\<rparr>) = wrap c"
  by (simp_all add: loadint_def reload_def wrap_def)

lemma tload_False: "\<not> tload c \<Longrightarrow> c\<lparr>tload := False\<rparr> = c"
  by simp

lemma tick_3:
  assumes "running 3 c"
  shows "tick c =
    (let v = tvalue c - (if tvalue c = loadint c \<and> odd (tvalue c)
                         then (if out c = 0 then 3 else 1) else 2)
     in if v \<le> 0 then c\<lparr>out := out c XOR 1, tvalue := v + reload c\<rparr> else c\<lparr>tvalue := v\<rparr>)"
  using assms
  by (simp add: tick_def Count_def running_def count_3_def Let_def and_one_eq odd_iff_mod_2_eq_one)

lemma tick_2:
  assumes "running 2 c"
  shows "tick c = (let v = tvalue c - 1 in
    if v \<le> 0 then c\<lparr>tvalue := v + reload c\<rparr> else c\<lparr>tvalue := v\<rparr>)"
  using assms by (simp add: tick_def Count_def running_def count_2_def Let_def)

lemma tick_0:
  assumes "running 0 c"
  shows "tick c = (let v = tvalue c - 1 in
    if v \<le> 0 then (if armed c then (if tvalue c \<noteq> 0 then c\<lparr>out := 1\<rparr> else c)\<lparr>armed := False\<rparr> else c)
                    \<lparr>tvalue := v + wrap c\<rparr>
    else c\<lparr>tvalue := v\<rparr>)"
  using assms by (simp add: tick_def Count_def running_def count_0_def Let_def wrap_def)

text \<open>Mode 3 with an even value counts down by two until it reaches zero.\<close>

lemma ticks_even:
  assumes "running 3 c" "even (tvalue c)" "2 * int k < tvalue c"
  shows "(tick ^^ k) c = c\<lparr>tvalue := tvalue c - 2 * int k\<rparr>"
  using assms(3)
proof (induction k)
  case 0
  then show ?case by simp
next
  case (Suc k)
  then have IH: "(tick ^^ k) c = c\<lparr>tvalue := tvalue c - 2 * int k\<rparr>" by simp
  have "running 3 (c\<lparr>tvalue := tvalue c - 2 * int k\<rparr>)" using assms(1) by simp
  from tick_3 [OF this] show ?case
    using assms(2) Suc.prems by (simp add: IH Let_def)
qed

lemma ticks_half:
  assumes "running 3 c" "tvalue c = 2 * int m" "0 < m"
  shows "(tick ^^ m) c = c\<lparr>out := out c XOR 1, tvalue := reload c\<rparr>"
proof -
  obtain k where m: "m = Suc k" using assms(3) by (cases m) auto
  have k: "(tick ^^ k) c = c\<lparr>tvalue := 2\<rparr>"
    using ticks_even [OF assms(1), of k] assms(2) m by simp
  have "running 3 (c\<lparr>tvalue := 2\<rparr>)" using assms(1) by simp
  from tick_3 [OF this] show ?thesis by (simp add: m k Let_def)
qed

lemma ticks_half_out:
  assumes "running 3 c" "tvalue c = 2 * int m" "k < m"
  shows "out ((tick ^^ k) c) = out c"
  using ticks_even [OF assms(1), of k] assms(2,3) by simp

text \<open>The length of the current half of the square wave.\<close>

definition half_period :: "CounterUnit \<Rightarrow> nat" where
  "half_period c = (nat (loadint c) + of_bool (out c = 1)) div 2"

lemma half_wave:
  assumes run: "running 3 c" and v: "tvalue c = loadint c" and N: "2 \<le> loadint c"
    and o: "out c \<in> {0, 1}"
  shows "(tick ^^ half_period c) c = c\<lparr>out := out c XOR 1\<rparr>"
    and "k < half_period c \<Longrightarrow> out ((tick ^^ k) c) = out c"
proof -
  define n where "n = nat (loadint c)"
  have n: "loadint c = int n" "2 \<le> n" using N by (auto simp: n_def)
  have rl: "reload c = int n" using n by (auto simp: reload_def loadint_def)
  have o2: "out c = 0 \<or> out c = 1" using o by simp
  have "(tick ^^ half_period c) c = c\<lparr>out := out c XOR 1, tvalue := int n\<rparr> \<and>
    (\<forall>k < half_period c. out ((tick ^^ k) c) = out c)"
  proof (cases "even n")
    case True
    then obtain m where m: "n = 2 * m" by (elim evenE)
    then have h: "half_period c = m" using n o2 by (auto simp: half_period_def n_def [symmetric])
    have "tvalue c = 2 * int m" "0 < m" using v n m by auto
    from ticks_half [OF run this] ticks_half_out [OF run this(1)] show ?thesis
      by (simp add: h rl)
  next
    case False
    then obtain m where m: "n = 2 * m + 1" by (elim oddE)
    then have m1: "1 \<le> m" using n by simp
    define j where "j = (if out c = 0 then m - 1 else m)"
    have h: "half_period c = Suc j"
      using n o2 m m1 by (auto simp: half_period_def n_def [symmetric] j_def)
    show ?thesis
    proof (cases "j = 0")
      case True
      then have "out c = 0" "m = 1" using m1 by (auto simp: j_def split: if_splits)
      then show ?thesis using tick_3 [OF run] v n m h True rl by (simp add: Let_def)
    next
      case False
      define c' where "c' = c\<lparr>tvalue := 2 * int j\<rparr>"
      have t: "tick c = c'"
        using tick_3 [OF run] v n m m1 False o2 by (auto simp: Let_def c'_def j_def)
      have run': "running 3 c'" and v': "tvalue c' = 2 * int j" using run by (simp_all add: c'_def)
      have "(tick ^^ Suc k) c = (tick ^^ k) c'" for k
        by (simp add: funpow_Suc_right t del: funpow.simps)
      moreover have "out ((tick ^^ k) c) = out c" if "k < Suc j" for k
        using that ticks_half_out [OF run' v'] calculation
        by (cases k) (auto simp: c'_def simp del: funpow.simps(2))
      ultimately show ?thesis
        using ticks_half [OF run' v'] False rl h by (simp add: c'_def)
    qed
  qed
  then show "(tick ^^ half_period c) c = c\<lparr>out := out c XOR 1\<rparr>"
    and "k < half_period c \<Longrightarrow> out ((tick ^^ k) c) = out c"
    using v n by auto
qed

text \<open>Mode 2 counts down by one.\<close>

lemma ticks_rate:
  assumes "running 2 c" "int k < tvalue c"
  shows "(tick ^^ k) c = c\<lparr>tvalue := tvalue c - int k\<rparr>"
  using assms(2)
proof (induction k)
  case 0
  then show ?case by simp
next
  case (Suc k)
  have "running 2 (c\<lparr>tvalue := tvalue c - int k\<rparr>)" using assms(1) by simp
  from tick_2 [OF this] show ?case using Suc by (simp add: Let_def)
qed

lemma rate_period:
  assumes "running 2 c" "tvalue c = reload c"
  shows "(tick ^^ nat (reload c)) c = c"
proof -
  have "0 < reload c"
    using uint_0_iff [of "loadvalue c"] by (auto simp: reload_def wrap_def loadint_def less_le)
  define k where "k = nat (reload c - 1)"
  with \<open>0 < reload c\<close> have k: "nat (reload c) = Suc k" "reload c = int k + 1" by auto
  have "(tick ^^ k) c = c\<lparr>tvalue := 1\<rparr>" using ticks_rate [OF assms(1), of k] assms(2) k by simp
  moreover have "running 2 (c\<lparr>tvalue := 1\<rparr>)" using assms(1) by simp
  ultimately show ?thesis using tick_2 [of "c\<lparr>tvalue := 1\<rparr>"] assms(2) k by (simp add: Let_def)
qed

text \<open>Mode 0: the tick that loads the counter, the ticks before terminal count, and after.\<close>

lemma ticks_before_tc:
  assumes "mode_int c = 0" "tload c" "delay c = 0" "int k < loadint c"
  shows "0 < k \<Longrightarrow> (tick ^^ k) c =
    c\<lparr>tvalue := loadint c - int k, enabled := True, armed := True, out := 0, tload := False\<rparr>"
  using assms(4)
proof (induction k)
  case 0
  then show ?case by simp
next
  case (Suc k)
  let ?c = "c\<lparr>tvalue := loadint c - int k, enabled := True, armed := True, out := 0, tload := False\<rparr>"
  show ?case
  proof (cases "k = 0")
    case True
    then show ?thesis using assms Suc.prems
      by (simp add: tick_def Count_def count_0_def Let_def)
  next
    case False
    then have "(tick ^^ k) c = ?c" using Suc by simp
    moreover have "running 0 ?c" using assms by (simp add: running_def)
    ultimately show ?thesis using tick_0 [of ?c] Suc.prems by (simp add: Let_def)
  qed
qed

lemma tick_at_tc:
  assumes "mode_int c = 0" "tload c" "delay c = 0" "1 \<le> loadint c"
  shows "(tick ^^ nat (loadint c)) c =
    c\<lparr>tvalue := wrap c, enabled := True, armed := False, out := 1, tload := False\<rparr>"
proof -
  define k where "k = nat (loadint c - 1)"
  have k: "nat (loadint c) = Suc k" "loadint c = int k + 1" using assms(4) by (auto simp: k_def)
  let ?c = "c\<lparr>tvalue := 1, enabled := True, armed := True, out := 0, tload := False\<rparr>"
  show ?thesis
  proof (cases "k = 0")
    case True
    then show ?thesis using assms k
      by (simp add: tick_def Count_def count_0_def Let_def wrap_def)
  next
    case False
    then have "(tick ^^ k) c = ?c" using ticks_before_tc [OF assms(1-3), of k] k by simp
    moreover have "running 0 ?c" using assms by (simp add: running_def)
    ultimately show ?thesis using tick_0 [of ?c] k by (simp add: Let_def wrap_def)
  qed
qed

lemma tick_after_tc:
  assumes "running 0 c" "\<not> armed c"
  shows "running 0 (tick c)" "\<not> armed (tick c)" "out (tick c) = out c"
  using assms by (simp_all add: tick_0 Let_def)

lemma ticks_after_tc:
  assumes "running 0 c" "\<not> armed c"
  shows "running 0 ((tick ^^ k) c) \<and> \<not> armed ((tick ^^ k) c) \<and> out ((tick ^^ k) c) = out c"
  by (induction k) (simp_all add: assms tick_after_tc)

lemma terminal_count:
  assumes "mode_int c = 0" "tload c" "delay c = 0" "1 \<le> loadint c" "0 < k"
  shows "out ((tick ^^ k) c) = of_bool (nat (loadint c) \<le> k)"
proof (cases "nat (loadint c) \<le> k")
  case True
  let ?c = "(tick ^^ nat (loadint c)) c"
  have "running 0 ?c \<and> \<not> armed ?c \<and> out ?c = 1"
    using tick_at_tc [OF assms(1-4)] assms by (simp add: running_def)
  then have "out ((tick ^^ (k - nat (loadint c))) ?c) = 1"
    using ticks_after_tc [of ?c] by simp
  moreover have "(tick ^^ (k - nat (loadint c))) ?c = (tick ^^ k) c"
    using True by (simp flip: funpow_add comp_apply [of "tick ^^ _" "tick ^^ _"])
  ultimately show ?thesis using True by simp
next
  case False
  then show ?thesis using ticks_before_tc [OF assms(1-3), of k] assms(5) by simp
qed

text \<open>Mode 3 with divisor 1: the value leaves its range and falls for ever.\<close>

lemma divisor_one:
  assumes "running 3 c" "loadvalue c = 1" "tvalue c = - int k" 
  shows "tick c = c\<lparr>out := out c XOR 1, tvalue := - int (Suc k)\<rparr>"
  using assms by (simp add: tick_3 Let_def loadint_def reload_def)

lemma divisor_one_ticks:
  assumes "running 3 c" "loadvalue c = 1" "tvalue c = - int k"
  shows "tvalue ((tick ^^ n) c) = - int (k + n)"
proof -
  have "running 3 ((tick ^^ n) c) \<and> tvalue ((tick ^^ n) c) = - int (k + n)"
  proof (induction n)
    case 0
    then show ?case using assms by simp
  next
    case (Suc n)
    then show ?case using divisor_one [of "(tick ^^ n) c" "k + n"] assms by simp
  qed
  then show ?thesis by simp
qed

subsection \<open>Latching and reading\<close>

lemma read_value_lsb:
  "latch_mode c = 3 \<Longrightarrow> write_state c = 0 \<Longrightarrow>
   read_value c = (shown c AND 0xff, c\<lparr>write_state := 1\<rparr>)"
  by (simp add: read_value_def)

lemma read_value_msb:
  "latch_mode c = 3 \<Longrightarrow> write_state c = 1 \<Longrightarrow>
   read_value c = (drop_bit 8 (shown c) AND 0xff, c\<lparr>latch_value := -1, write_state := 0\<rparr>)"
  by (simp add: read_value_def)

lemma shown_latched: "latch_value c \<noteq> -1 \<Longrightarrow> \<not> bcd_mode c \<Longrightarrow> shown c = latch_value c"
  by (simp add: shown_def)

lemma int_bytes:
  assumes "0 \<le> v" "v < 65536"
  shows "(drop_bit 8 v AND 0xff) * 256 + (v AND 0xff) = (v :: int)"
proof -
  have m: "(0xff :: int) = mask 8" by (simp add: mask_eq_exp_minus_1)
  have "drop_bit 8 v AND 0xff = v div 256" "v AND 0xff = v mod 256"
    using assms unfolding m take_bit_eq_mask [symmetric]
    by (simp_all add: take_bit_eq_mod drop_bit_eq_div)
  then show ?thesis by simp
qed

subsection \<open>Decimal counting\<close>

lemma tobcd_loop_4:
  "tobcd_loop 4 0 x 0 = x mod 10 OR push_bit 4 (x div 10 mod 10) OR
     push_bit 8 (x div 10 div 10 mod 10) OR push_bit 12 (x div 10 div 10 div 10 mod 10)"
proof -
  have "tobcd_loop 4 = tobcd_loop (Suc (Suc (Suc (Suc 0))))" by (rule arg_cong) simp
  then show ?thesis by (simp add: or.assoc)
qed

lemma digits_or:
  assumes "d0 < 10" "d1 < 10" "d2 < (10 :: nat)"
  shows "d0 OR push_bit 4 d1 OR push_bit 8 d2 OR push_bit 12 d3 = d0 + 16 * d1 + 256 * d2 + 4096 * d3"
proof -
  have "d0 OR push_bit 4 d1 = d0 + 16 * d1"
    using assms by (subst or_shifted_digit) (simp_all add: push_bit_eq_mult)
  moreover have "(d0 + 16 * d1) OR push_bit 8 d2 = d0 + 16 * d1 + 256 * d2"
    using assms by (subst or_shifted_digit) (simp_all add: push_bit_eq_mult)
  moreover have "(d0 + 16 * d1 + 256 * d2) OR push_bit 12 d3 = d0 + 16 * d1 + 256 * d2 + 4096 * d3"
    using assms by (subst or_shifted_digit) (simp_all add: push_bit_eq_mult)
  ultimately show ?thesis by (metis or.assoc)
qed

lemma unat_tobcd:
  assumes "unat x < 10000"
  shows "unat (tobcd x) = unat x mod 10 + 16 * (unat x div 10 mod 10) +
    256 * (unat x div 10 div 10 mod 10) + 4096 * (unat x div 10 div 10 div 10 mod 10)"
proof -
  define r where "r = unat x mod 10 + 16 * (unat x div 10 mod 10) +
    256 * (unat x div 10 div 10 mod 10) + 4096 * (unat x div 10 div 10 div 10 mod 10)"
  have "tobcd_loop 4 0 (unat x) 0 = r"
    unfolding r_def tobcd_loop_4 by (rule digits_or) simp_all
  moreover have "r < 65536"
  proof -
    have "n mod 10 \<le> 9" for n :: nat using mod_less_divisor [of 10 n] by linarith
    from this [of "unat x"] this [of "unat x div 10"] this [of "unat x div 10 div 10"]
      this [of "unat x div 10 div 10 div 10"]
    show ?thesis unfolding r_def by linarith
  qed
  ultimately show ?thesis
    unfolding r_def [symmetric] tobcd_def by (simp add: unat_of_nat take_bit_nat_eq_self)
qed

lemma frombcd_digit:
  fixes x :: u16
  shows "unat (drop_bit 12 (x AND 0xf000)) = unat x div 4096"
    and "unat (push_bit 4 x) = 16 * unat x mod 65536"
proof -
  have "drop_bit 12 (x AND 0xf000) = drop_bit 12 x"
  proof (rule bit_word_eqI)
    fix n assume "n < LENGTH(16)"
    have m: "(0xf000 :: u16) = push_bit 12 (mask 4)" by (simp add: mask_eq_exp_minus_1 push_bit_eq_mult)
    show "bit (drop_bit 12 (x AND 0xf000)) n = bit (drop_bit 12 x) n"
      unfolding m by (auto simp: bit_simps dest: bit_imp_le_length)
  qed
  then show "unat (drop_bit 12 (x AND 0xf000)) = unat x div 4096"
    by (simp only: unat_drop_bit_eq) (simp add: drop_bit_eq_div)
  show "unat (push_bit 4 x) = 16 * unat x mod 65536"
    by (simp add: push_bit_eq_mult unat_word_ariths mult.commute)
qed

lemma frombcd_loop_step:
  assumes "unat x = 4096 * d + r" "d < 10" "r < 4096"
  shows "frombcd_loop (Suc k) x res = frombcd_loop k (push_bit 4 x) (res * 10 + d)"
    and "unat (push_bit 4 x) = 16 * r"
  using assms unfolding frombcd_loop.simps frombcd_digit by (simp_all add: Let_def)

lemma frombcd_digits:
  assumes x: "unat x = d0 + 16 * d1 + 256 * d2 + 4096 * d3"
    and d: "d0 < 10" "d1 < 10" "d2 < 10" "d3 < 10"
  shows "frombcd_loop 4 x 0 = d0 + 10 * d1 + 100 * d2 + 1000 * d3"
proof -
  let ?x1 = "push_bit 4 x" and ?x2 = "push_bit 4 (push_bit 4 x)"
  let ?x3 = "push_bit 4 (push_bit 4 (push_bit 4 x))"
  have four: "frombcd_loop 4 = frombcd_loop (Suc (Suc (Suc (Suc 0))))" by (rule arg_cong) simp
  have "unat x = 4096 * d3 + (d0 + 16 * d1 + 256 * d2)" "d0 + 16 * d1 + 256 * d2 < 4096"
    using x d by simp_all
  note s3 = frombcd_loop_step [OF this(1) d(4) this(2)]
  have "unat ?x1 = 4096 * d2 + (16 * d0 + 256 * d1)" "16 * d0 + 256 * d1 < 4096"
    using s3(2) d by simp_all
  note s2 = frombcd_loop_step [OF this(1) d(3) this(2)]
  have "unat ?x2 = 4096 * d1 + 256 * d0" "256 * d0 < 4096" using s2(2) d by simp_all
  note s1 = frombcd_loop_step [OF this(1) d(2) this(2)]
  have "unat ?x3 = 4096 * d0 + 0" "(0 :: nat) < 4096" using s1(2) by simp_all
  note s0 = frombcd_loop_step [OF this(1) d(1) this(2)]
  show ?thesis unfolding four s3(1) s2(1) s1(1) s0(1) by simp
qed

lemma frombcd_tobcd:
  assumes "unat x < 10000"
  shows "frombcd (tobcd x) = x"
proof -
  define n where "n = unat x"
  have n: "n = n mod 10 + 10 * (n div 10 mod 10) + 100 * (n div 10 div 10 mod 10) +
      1000 * (n div 10 div 10 div 10 mod 10)"
  proof -
    have "n div 10 div 10 div 10 < 10" using assms unfolding n_def div_mult2_eq [symmetric] by simp
    then have "n div 10 div 10 div 10 mod 10 = n div 10 div 10 div 10" by simp
    then show ?thesis
      using div_mult_mod_eq [of n 10] div_mult_mod_eq [of "n div 10" 10]
        div_mult_mod_eq [of "n div 10 div 10" 10] by linarith
  qed
  have "frombcd_loop 4 (tobcd x) 0 = n"
    by (subst n, rule frombcd_digits)
      (use unat_tobcd [OF assms] in \<open>simp_all add: n_def del: div_mult2_eq\<close>)
  then show ?thesis by (simp add: frombcd_def n_def)
qed

subsection \<open>Programming a counter through the ports\<close>

definition cw_of :: "nat \<Rightarrow> nat \<Rightarrow> u8" where
  "cw_of k m = word_of_nat (k * 64 + 0x30 + m * 2)"

lemma cw_of_fields:
  assumes "k < 3" "m < 4"
  shows "unat (drop_bit 6 (cw_of k m) AND 3) = k" "uint (drop_bit 1 (cw_of k m) AND 3) = int m"
    "uint (drop_bit 4 (cw_of k m) AND 3) = 3" "uint (cw_of k m AND 1) = 0"
proof -
  have "k \<in> {0, 1, 2}" "m \<in> {0, 1, 2, 3}" using assms by auto
  then show "unat (drop_bit 6 (cw_of k m) AND 3) = k" "uint (drop_bit 1 (cw_of k m) AND 3) = int m"
    "uint (drop_bit 4 (cw_of k m) AND 3) = 3" "uint (cw_of k m AND 1) = 0"
    by (auto simp: cw_of_def)
qed

lemma SetMode_fields:
  fixes c :: CounterUnit
  assumes "m < 4"
  defines "c' \<equiv> SetMode (int m) 3 0 c"
  shows "mode_int c' = int m" "latch_mode c' = 3" "write_state c' = 0" "\<not> bcd_mode c'"
    "\<not> tload c'" "\<not> enabled c'" "out c' = of_bool (m \<noteq> 0)"
proof -
  have "m \<in> {0, 1, 2, 3}" using assms by auto
  then show "mode_int c' = int m" "latch_mode c' = 3" "write_state c' = 0" "\<not> bcd_mode c'"
    "\<not> tload c'" "\<not> enabled c'" "out c' = of_bool (m \<noteq> 0)"
    unfolding c'_def SetMode_def by (auto simp: Let_def split_def)
qed

lemma write_value_lsb_msb:
  assumes "latch_mode c = 3" "write_state c = 0" "\<not> bcd_mode c" "\<not> tload c" "\<not> enabled c"
    "mode_int c \<in> {0, 1, 2, 3}"
  shows "write_value msb (write_value lsb c) =
    c\<lparr>write_lsb := lsb, write_msb := msb, loadvalue := mk16 msb lsb, tload := True, delay := 3\<rparr>"
  using assms by (auto simp: write_value_def Let_def)

lemma addr_and_3: "k < 3 \<Longrightarrow> nat (int k AND 3) = k"
proof -
  assume "k < 3"
  then have "k \<in> {0, 1, 2}" by auto
  then show ?thesis by auto
qed

definition program_counter :: "nat \<Rightarrow> nat \<Rightarrow> u8 \<Rightarrow> u8 \<Rightarrow> I8253 \<Rightarrow> I8253 option" where
  "program_counter k m lsb msb t =
     Option.bind (timer_write 3 (cw_of k m) t)
       (\<lambda>t. Option.bind (timer_write (int k) lsb t) (timer_write (int k) msb))"

lemma program_counter_eq:
  assumes "k < 3" "m < 4" "length (counters t) = 3"
  defines "c \<equiv> SetMode (int m) 3 0 (counters t ! k)"
  shows "program_counter k m lsb msb t = Some (t\<lparr>counters := (counters t)[k :=
    c\<lparr>write_lsb := lsb, write_msb := msb, loadvalue := mk16 msb lsb, tload := True, delay := 3\<rparr>]\<rparr>)"
proof -
  have "m \<in> {0, 1, 2, 3}" using assms by auto
  then have "write_value msb (write_value lsb c) =
      c\<lparr>write_lsb := lsb, write_msb := msb, loadvalue := mk16 msb lsb, tload := True, delay := 3\<rparr>"
    unfolding c_def by (intro write_value_lsb_msb) (auto simp: SetMode_fields [OF assms(2)])
  then show ?thesis
    using assms(1,3)
    by (simp add: program_counter_def timer_write_def timer_write_cw_def Let_def c_def addr_and_3
        cw_of_fields [OF assms(1,2)] cw_of_fields(2) [OF assms(1,2), simplified])
qed

subsection \<open>Properties\<close>

text \<open>C25: A square wave generator (mode 3) with a divisor of at least 2 has exactly that period: the
  output is high for the first half, rounded up, low for the second, rounded down, and the counter
  is then back where it started.\<close>

theorem square_wave_generator:
  assumes "running 3 c" "tvalue c = loadint c" "2 \<le> loadint c" "out c = 1"
  defines "n \<equiv> nat (loadint c)"
  shows "(\<forall>k < (n + 1) div 2. out ((tick ^^ k) c) = 1) \<and>
    (\<forall>k < n div 2. out ((tick ^^ (k + (n + 1) div 2)) c) = 0) \<and> (tick ^^ n) c = c"
proof -
  define c' where "c' = c\<lparr>out := 0\<rparr>"
  have h: "half_period c = (n + 1) div 2" "half_period c' = n div 2"
    using assms(4) by (simp_all add: half_period_def n_def c'_def)
  have up: "(tick ^^ ((n + 1) div 2)) c = c'" "k < (n + 1) div 2 \<Longrightarrow> out ((tick ^^ k) c) = 1" for k
    using half_wave [OF assms(1-3)] assms(4) h by (simp_all add: c'_def)
  have c': "running 3 c'" "tvalue c' = loadint c'" "2 \<le> loadint c'" "out c' = 0"
    using assms by (simp_all add: c'_def)
  have down: "(tick ^^ (n div 2)) c' = c'\<lparr>out := 1\<rparr>" "k < n div 2 \<Longrightarrow> out ((tick ^^ k) c') = 0" for k
    using half_wave [OF c'(1-3)] c'(4) h by simp_all
  have "c'\<lparr>out := 1\<rparr> = c" using assms(4) by (simp add: c'_def)
  then have "(tick ^^ (n div 2 + (n + 1) div 2)) c = c" by (simp only: funpow_add comp_apply up(1) down(1))
  moreover have "n div 2 + (n + 1) div 2 = n" by arith
  ultimately have "(tick ^^ n) c = c" by simp
  then show ?thesis using up down by (simp add: funpow_add)
qed

theorem square_wave_generator_witness:
  "let c = (CounterUnit_new 3 1 0 0)\<lparr>mode_int := 3, enabled := True, loadvalue := 5, tvalue := 5\<rparr>;
       n = nat (loadint c)
   in (\<forall>k < (n + 1) div 2. out ((tick ^^ k) c) = 1) \<and>
    (\<forall>k < n div 2. out ((tick ^^ (k + (n + 1) div 2)) c) = 0) \<and> (tick ^^ n) c = c"
  unfolding Let_def
  by (rule square_wave_generator) (simp_all add: running_def loadint_def CounterUnit_new_def)

text \<open>With divisor 1 the square wave generator leaves its range: from the third clock on the
  value is negative and falls by one at every clock, without end.\<close>

theorem square_wave_divisor_one_runs_away:
  assumes "running 3 c" "loadvalue c = 1" "tvalue c = 1" "out c = 1"
  shows "tvalue ((tick ^^ (n + 2)) c) = - int n - 1"
proof -
  have t1: "tick c = c\<lparr>out := 0\<rparr>"
    using assms by (simp add: tick_3 Let_def loadint_def reload_def)
  have "tick (c\<lparr>out := 0\<rparr>) = c\<lparr>tvalue := - 1\<rparr>"
    using assms by (simp add: tick_3 Let_def loadint_def reload_def)
  then have "(tick ^^ 2) c = c\<lparr>tvalue := - 1\<rparr>" by (simp add: numeral_2_eq_2 t1)
  then have "(tick ^^ (n + 2)) c = (tick ^^ n) (c\<lparr>tvalue := - 1\<rparr>)"
    by (simp only: funpow_add comp_apply)
  then show ?thesis using divisor_one_ticks [of "c\<lparr>tvalue := - 1\<rparr>" 1 n] assms by simp
qed

theorem square_wave_divisor_one_runs_away_witness:
  "tvalue ((tick ^^ (5 + 2)) ((CounterUnit_new 3 1 0 0)
     \<lparr>mode_int := 3, enabled := True, loadvalue := 1, tvalue := 1\<rparr>)) = - int 5 - 1"
  by (rule square_wave_divisor_one_runs_away) (simp_all add: running_def CounterUnit_new_def)

text \<open>A counter programmed for mode 0 with a non-zero count raises its output exactly when it has
  counted that many clocks after the start-up delay, and keeps it high.\<close>

theorem interrupt_on_terminal_count:
  assumes "mode_int c = 0" "tload c" "delay c = 0" "1 \<le> loadint c" "0 < k"
  shows "out ((tick ^^ k) c) = of_bool (nat (loadint c) \<le> k)"
  by (rule terminal_count [OF assms])

theorem interrupt_on_terminal_count_witness:
  "let c = (CounterUnit_new 3 0 0 0)\<lparr>loadvalue := 7, tload := True\<rparr> in
   out ((tick ^^ 9) c) = of_bool (nat (loadint c) \<le> 9)"
  unfolding Let_def
  by (rule interrupt_on_terminal_count) (simp_all add: CounterUnit_new_def loadint_def)

text \<open>A latched count is stable: after the latch command the two reads return the low and the high
  byte of the value at that moment, however long the counter runs before and between them, and the
  second read releases the latch.\<close>

theorem latched_count_is_stable:
  assumes "latch_mode c = 3" "write_state c = 0" "\<not> bcd_mode c"
    "tvalue (Latch c) = v" "0 \<le> v" "v < 65536"
  shows "let (lsb, c1) = read_value ((tick ^^ i) (Latch c)); (msb, c2) = read_value ((tick ^^ j) c1)
    in msb * 256 + lsb = v \<and> latch_value c2 = -1 \<and> write_state c2 = 0"
proof -
  have L: "latch_mode (Latch c) = 3" "write_state (Latch c) = 0" "\<not> bcd_mode (Latch c)"
    "latch_value (Latch c) = v"
    using assms by (simp_all add: Latch_def Let_def split_def)
  then show ?thesis
    using assms(5,6) by (simp add: read_value_lsb read_value_msb shown_latched int_bytes)
qed

theorem latched_count_is_stable_witness:
  "let c = (CounterUnit_new 3 1 0 0)\<lparr>mode_int := 2, enabled := True, loadvalue := 600, tvalue := 500\<rparr>;
       (lsb, c1) = read_value ((tick ^^ 3) (Latch c)); (msb, c2) = read_value ((tick ^^ 4) c1)
   in msb * 256 + lsb = 499 \<and> latch_value c2 = -1 \<and> write_state c2 = 0"
  unfolding Let_def [of "_\<lparr>mode_int := _, enabled := _, loadvalue := _, tvalue := _\<rparr>"]
  by (rule latched_count_is_stable)
    (simp_all add: CounterUnit_new_def Latch_def Count_def count_2_def Let_def)

text \<open>Programming counter \<open>k\<close> for mode \<open>m\<close> by a control word and two bytes puts exactly that
  mode and that 16-bit count into that counter, and leaves the other two untouched.\<close>

theorem programming_a_counter:
  assumes "k < 3" "m < 4" "length (counters t) = 3"
  shows "\<exists>t'. program_counter k m lsb msb t = Some t' \<and>
    (\<forall>j < 3. j \<noteq> k \<longrightarrow> counters t' ! j = counters t ! j) \<and>
    (let c = counters t' ! k in mode_int c = int m \<and> loadvalue c = mk16 msb lsb \<and> tload c \<and>
       delay c = 3 \<and> \<not> enabled c \<and> out c = of_bool (m \<noteq> 0))"
  using program_counter_eq [OF assms, of lsb msb] assms(1,3) SetMode_fields [OF assms(2)]
  by (simp add: Let_def)

theorem programming_a_counter_witness:
  "let t = \<lparr>counters = replicate 3 (CounterUnit_new 0 0 0 0), control_word = 0\<rparr> in
   \<exists>t'. program_counter 2 3 0x34 0x12 t = Some t' \<and>
    (\<forall>j < 3. j \<noteq> 2 \<longrightarrow> counters t' ! j = counters t ! j) \<and>
    (let c = counters t' ! 2 in mode_int c = int 3 \<and> loadvalue c = mk16 0x12 0x34 \<and> tload c \<and>
       delay c = 3 \<and> \<not> enabled c \<and> out c = of_bool ((3 :: nat) \<noteq> 0))"
  unfolding Let_def [of "\<lparr>counters = _, control_word = _\<rparr>"]
  by (rule programming_a_counter) simp_all

text \<open>The decimal mode's conversions are inverse: what the CPU reads back of a counter below
  10000 is the decimal number it counts.\<close>

theorem decimal_count_round_trip:
  assumes "unat x < 10000"
  shows "frombcd (tobcd x) = x"
  by (rule frombcd_tobcd [OF assms])

theorem decimal_count_round_trip_witness: "frombcd (tobcd 1993) = 1993"
  by (rule decimal_count_round_trip) simp

end
