(* ===== verification/Keyboard.thy ===== *)
theory Keyboard
  imports Prelude
begin

text \<open>
  The keyboard (\<^verbatim>\<open>src/keyboard.h\<close>, the SDL branch): an eight by eight matrix of keys, three
  shift keys and the table that maps scan codes to matrix positions.  A scan code
  of SDL is known here by its name, without the prefix \<^verbatim>\<open>SDL_SCANCODE_\<close>; all that
  matters is that different names are different codes.  The
  reset callback acts on an arbitrary machine state \<open>'s\<close>.
\<close>

type_synonym scancode = string

text \<open>The table of \<^verbatim>\<open>init_map\<close>: the column in the high byte, the bit in the low one.\<close>

definition keymap_tab :: "(scancode \<times> u32) list" where
  "keymap_tab =
   [(''SPACE'', 0x780), (''GRAVE'', 0x701), (''RIGHTBRACKET'', 0x720), (''BACKSLASH'', 0x710),
    (''LEFTBRACKET'', 0x708), (''Z'', 0x704), (''Y'', 0x702), (''X'', 0x701), (''W'', 0x680), (''V'',
    0x640), (''U'', 0x620), (''T'', 0x610), (''S'', 0x608), (''R'', 0x604), (''Q'', 0x602), (''P'',
    0x601), (''O'', 0x580), (''N'', 0x540), (''M'', 0x520), (''L'', 0x510), (''K'', 0x508), (''J'',
    0x504), (''I'', 0x502), (''H'', 0x501), (''G'', 0x480), (''F'', 0x440), (''E'', 0x420), (''D'',
    0x410), (''C'', 0x408), (''B'', 0x404), (''A'', 0x402), (''MINUS'', 0x401), (''SLASH'', 0x380),
    (''PERIOD'', 0x340), (''EQUALS'', 0x320), (''COMMA'', 0x310), (''SEMICOLON'', 0x308),
    (''APOSTROPHE'', 0x304), (''9'', 0x302), (''8'', 0x301), (''7'', 0x280), (''6'', 0x240), (''5'',
    0x220), (''4'', 0x210), (''3'', 0x208), (''2'', 0x204), (''1'', 0x202), (''0'', 0x201), (''F5'',
    0x180), (''F4'', 0x140), (''F3'', 0x120), (''F2'', 0x110), (''F1'', 0x108), (''ESCAPE'', 0x104),
    (''F8'', 0x102), (''F7'', 0x101), (''DOWN'', 0x080), (''RIGHT'', 0x040), (''UP'', 0x020),
    (''LEFT'', 0x010), (''BACKSPACE'', 0x008), (''RETURN'', 0x004), (''RALT'', 0x002), (''TAB'',
    0x001)]"

fun init_map :: "(scancode \<times> u32) list \<Rightarrow> (scancode \<rightharpoonup> u32) \<Rightarrow> (scancode \<rightharpoonup> u32)" where
  "init_map [] keymap = keymap"
| "init_map ((scan, colbit) # tab) keymap = init_map tab (keymap(scan \<mapsto> colbit))"

record keyboard =
  matrix :: "u8 list"
  keymap :: "scancode \<rightharpoonup> u32"
  ss :: bool
  us :: bool
  rus :: bool
  terminate :: bool

definition Keyboard_new :: keyboard where
  "Keyboard_new = \<lparr>matrix = replicate 8 0, keymap = init_map keymap_tab Map.empty,
     ss = False, us = False, rus = False, terminate = False\<rparr>"

text \<open>A matrix column past the end of the array, impossible with this table, is \<open>None\<close>.\<close>

definition apply_key :: "scancode \<Rightarrow> bool \<Rightarrow> keyboard \<Rightarrow> keyboard option" where
  "apply_key code keyup k =
     (if code = ''LSHIFT'' \<or> code = ''RSHIFT'' then Some (k\<lparr>ss := \<not> keyup\<rparr>)
      else if code = ''LCTRL'' then Some (k\<lparr>us := \<not> keyup\<rparr>)
      else if code = ''LGUI'' \<or> code = ''LALT'' \<or> code = ''F6'' then Some (k\<lparr>rus := \<not> keyup\<rparr>)
      else (case keymap k code of
              None \<Rightarrow> Some k
            | Some colbit \<Rightarrow>
                (let col = unat (drop_bit 8 colbit AND 0xff); bit8 = ucast (colbit AND 0xff) :: u8
                 in if col < length (matrix k)
                    then Some (k\<lparr>matrix := (matrix k)[col :=
                           (if keyup then matrix k ! col AND NOT bit8 else matrix k ! col OR bit8)]\<rparr>)
                    else None)))"

definition key_down ::
  "(bool \<Rightarrow> 's \<Rightarrow> 's) \<Rightarrow> scancode \<Rightarrow> keyboard \<times> 's \<Rightarrow> (keyboard \<times> 's) option" where
  "key_down onreset code kt =
     (let (k, t) = kt
      in if code = ''F11'' then Some (k, onreset True t)
         else if code = ''F12'' then Some (k, onreset False t)
         else if code = ''PAUSE'' then Some (k\<lparr>terminate := True\<rparr>, t)
         else map_option (\<lambda>k. (k, t)) (apply_key code False k))"

definition key_up :: "scancode \<Rightarrow> keyboard \<Rightarrow> keyboard option" where
  "key_up code k =
     (if code = ''F11'' \<or> code = ''F12'' then Some k else apply_key code True k)"

fun kb_read_loop :: "u8 list \<Rightarrow> int \<Rightarrow> u8 \<Rightarrow> u8" where
  "kb_read_loop [] rowbit result = result"
| "kb_read_loop (row # rows) rowbit result =
     kb_read_loop rows (drop_bit 1 rowbit)
       (if rowbit AND 1 \<noteq> 0 then result OR row else result)"

definition kb_read :: "int \<Rightarrow> keyboard \<Rightarrow> u8" where
  "kb_read rowbit k = NOT (kb_read_loop (matrix k) rowbit 0)"

subsection \<open>The table\<close>

lemma init_map_eq: "init_map tab m = m ++ map_of (rev tab)"
  by (induction tab arbitrary: m) auto

text \<open>Every entry names one of the 64 positions of the matrix: a column and a single bit.\<close>

definition cb_col :: "u32 \<Rightarrow> nat" where "cb_col cb = unat (drop_bit 8 cb AND 0xff)"
definition cb_bit :: "u32 \<Rightarrow> nat" where "cb_bit cb = length (takeWhile (\<lambda>b. \<not> bit cb b) [0..<8])"

lemma keymap_tab_fits:
  "list_all (\<lambda>(_, cb). cb_col cb < 8 \<and> cb_bit cb < 8 \<and>
     ucast (cb AND 0xff) = (push_bit (cb_bit cb) 1 :: u8)) keymap_tab"
  by (simp add: keymap_tab_def cb_col_def cb_bit_def upt_rec push_bit_eq_mult)

definition keyboard_ok :: "keyboard \<Rightarrow> bool" where
  "keyboard_ok k \<longleftrightarrow> length (matrix k) = 8 \<and> keymap k = map_of (rev keymap_tab)"

lemma keyboard_ok_new: "keyboard_ok Keyboard_new"
  by (simp add: keyboard_ok_def Keyboard_new_def init_map_eq)

lemma keymap_entry:
  assumes "map_of (rev keymap_tab) code = Some cb"
  shows "cb_col cb < 8" "cb_bit cb < 8" "ucast (cb AND 0xff) = (push_bit (cb_bit cb) 1 :: u8)"
proof -
  have "(code, cb) \<in> set keymap_tab" using map_of_SomeD [OF assms] by simp
  then show "cb_col cb < 8" "cb_bit cb < 8" "ucast (cb AND 0xff) = (push_bit (cb_bit cb) 1 :: u8)"
    using keymap_tab_fits by (auto simp: list_all_iff)
qed

subsection \<open>The keys that are down\<close>

definition key_pos :: "scancode \<Rightarrow> (nat \<times> nat) option" where
  "key_pos code = map_option (\<lambda>cb. (cb_col cb, cb_bit cb)) (map_of (rev keymap_tab) code)"

definition press :: "scancode \<times> bool \<Rightarrow> (nat \<times> nat) set \<Rightarrow> (nat \<times> nat) set" where
  "press e S = (case key_pos (fst e) of None \<Rightarrow> S
     | Some p \<Rightarrow> if snd e then S - {p} else insert p S)"

definition keys_down :: "keyboard \<Rightarrow> (nat \<times> nat) set" where
  "keys_down k = {(i, b). i < length (matrix k) \<and> bit (matrix k ! i) b}"

lemma shift_keys_unmapped:
  "key_pos ''LSHIFT'' = None" "key_pos ''RSHIFT'' = None" "key_pos ''LCTRL'' = None"
  "key_pos ''LGUI'' = None" "key_pos ''LALT'' = None" "key_pos ''F6'' = None"
  by (simp_all add: key_pos_def keymap_tab_def)

lemma apply_key_down:
  assumes "keyboard_ok k"
  shows "\<exists>k'. apply_key code up k = Some k' \<and> keyboard_ok k' \<and> keys_down k' = press (code, up) (keys_down k)"
proof (cases "keymap k code")
  case None
  then show ?thesis using assms
    by (auto simp: apply_key_def keyboard_ok_def press_def key_pos_def keys_down_def)
next
  case (Some cb)
  then have m: "map_of (rev keymap_tab) code = Some cb" using assms by (simp add: keyboard_ok_def)
  note e = keymap_entry [OF m]
  have "code \<notin> {''LSHIFT'', ''RSHIFT'', ''LCTRL'', ''LGUI'', ''LALT'', ''F6''}"
    using m shift_keys_unmapped by (auto simp: key_pos_def)
  then have "apply_key code up k = Some (k\<lparr>matrix := (matrix k)[cb_col cb :=
      (if up then matrix k ! cb_col cb AND NOT (push_bit (cb_bit cb) 1)
       else matrix k ! cb_col cb OR push_bit (cb_bit cb) 1)]\<rparr>)"
    using Some e assms by (auto simp: apply_key_def keyboard_ok_def Let_def cb_col_def [symmetric])
  moreover have "press (code, up) S = (if up then S - {(cb_col cb, cb_bit cb)}
      else insert (cb_col cb, cb_bit cb) S)" for S
    by (simp add: press_def key_pos_def m)
  ultimately show ?thesis
    using assms e by (auto simp: keyboard_ok_def keys_down_def nth_list_update bit_simps
        dest: bit_u8_bound split: if_splits)
qed

fun key_events :: "(scancode \<times> bool) list \<Rightarrow> keyboard \<Rightarrow> keyboard option" where
  "key_events [] k = Some k"
| "key_events ((code, keyup) # es) k = Option.bind (apply_key code keyup k) (key_events es)"

lemma key_events_down:
  assumes "keyboard_ok k"
  shows "\<exists>k'. key_events es k = Some k' \<and> keyboard_ok k' \<and> keys_down k' = fold press es (keys_down k)"
  using assms
proof (induction es arbitrary: k)
  case (Cons e es)
  obtain code up where e: "e = (code, up)" by (cases e)
  from apply_key_down [OF Cons.prems, of code up] Cons.IH show ?case by (fastforce simp: e)
qed simp

subsection \<open>Scanning the matrix\<close>

lemma bit_kb_read_loop:
  "bit (kb_read_loop rows rowbit result) b \<longleftrightarrow>
     bit result b \<or> (\<exists>i < length rows. bit rowbit i \<and> bit (rows ! i) b)"
proof (induction rows rowbit result rule: kb_read_loop.induct)
  case (1 rowbit result)
  then show ?case by simp
next
  case (2 row rows rowbit result)
  have "(rowbit AND 1 \<noteq> 0) = bit rowbit 0" by (simp add: and_one_eq bit_0 odd_iff_mod_2_eq_one)
  moreover have "(\<exists>i < Suc (length rows). bit rowbit i \<and> bit ((row # rows) ! i) b) \<longleftrightarrow>
      bit rowbit 0 \<and> bit row b \<or> (\<exists>i < length rows. bit rowbit (Suc i) \<and> bit (rows ! i) b)"
    by (auto simp: less_Suc_eq_0_disj)
  ultimately show ?case using 2 by (auto simp: bit_simps)
qed

lemma bit_kb_read:
  "b < 8 \<Longrightarrow> bit (kb_read rowbit k) b \<longleftrightarrow> \<not> (\<exists>i < length (matrix k). bit rowbit i \<and> bit (matrix k ! i) b)"
  by (simp add: kb_read_def bit_kb_read_loop bit_simps)

lemma kb_read_down:
  assumes "keyboard_ok k"
  shows "{b. b < 8 \<and> \<not> bit (kb_read rowbit k) b} = {b. b < 8 \<and> (\<exists>i < 8. bit rowbit i \<and> (i, b) \<in> keys_down k)}"
  using assms by (auto simp: bit_kb_read keyboard_ok_def keys_down_def)

subsection \<open>Properties\<close>


text \<open>Two keys of the table share one position of the matrix: the grave key types an X, and the
  position of row 7, bit 6 is not on any key.\<close>

theorem grave_key_is_x:
  "key_pos ''GRAVE'' = key_pos ''X'' \<and>
   list_all (\<lambda>(_, cb). (cb_col cb, cb_bit cb) \<noteq> (7, 6)) keymap_tab"
  by (simp add: key_pos_def keymap_tab_def cb_col_def cb_bit_def upt_rec)

end
