(* ===== verification/AY.thy ===== *)
theory AY
  imports Prelude
begin

text \<open>
  The AY-3-8910 sound chip (\<^verbatim>\<open>src/ay.h\<close>): sixteen registers behind an index register, three
  tone generators, the noise generator and the envelope.  The integer state is modelled in full;
  where the source multiplies an entry of the amplitude table \<^verbatim>\<open>amp\<close> by the mixer bit, the
  model yields the bit and the index into the table.
\<close>

record ay =
  ayr :: "int list"
  envc :: int
  envv :: int
  envx :: int
  ay13 :: int
  tons :: int
  noic :: int
  noiv :: int
  noir :: int
  ayreg :: int

definition ay_init :: ay where
  "ay_init = \<lparr>ayr = replicate 19 0, envc = 0, envv = 0, envx = 0, ay13 = 0, tons = 0, noic = 0,
     noiv = 0, noir = 1, ayreg = 0\<rparr>"

abbreviation ayr_at :: "ay \<Rightarrow> nat \<Rightarrow> int" where "ayr_at y i \<equiv> ayr y ! i"

definition tone_tick :: "nat \<Rightarrow> ay \<Rightarrow> ay" where
  "tone_tick ch y =
     (let y = y\<lparr>ayr := (ayr y)[ch + 16 := ayr_at y (ch + 16) + 1]\<rparr>
      in if ayr_at y (ch + 16) \<ge> (ayr_at y (push_bit 1 ch) OR push_bit 8 (ayr_at y (1 OR push_bit 1 ch)))
         then y\<lparr>ayr := (ayr y)[ch + 16 := 0], tons := tons y XOR push_bit ch 1\<rparr>
         else y)"

definition cstep :: "nat \<Rightarrow> ay \<Rightarrow> (int \<times> int) \<times> ay" where
  "cstep ch y =
     (let y = tone_tick ch y;
          mode_l = ayr_at y (8 + ch) AND 0x10; mixer = ayr_at y 7;
          tone_ena_l = drop_bit ch mixer; tone_src = drop_bit ch (tons y);
          noise_ena_l = drop_bit (ch + 3) mixer; noise_gen_op = noiv y;
          mix = ((tone_ena_l OR tone_src) AND (noise_ena_l OR noise_gen_op)) AND 1
      in ((mix, if mode_l \<noteq> 0 then envv y else ayr_at y (8 + ch) AND 0x0f), y))"

definition estep :: "ay \<Rightarrow> int \<times> ay" where
  "estep y =
     (if drop_bit 4 (envx y) \<noteq> 0 \<and> ay13 y AND 1 \<noteq> 0
      then (15 * ((drop_bit 1 (ay13 y) XOR ay13 y) AND 2) div 2, y)
      else (let y = (if drop_bit 4 (envx y) \<noteq> 0
                     then y\<lparr>envx := 0, ay13 := ay13 y XOR (push_bit 1 (ay13 y) AND 4)\<rparr> else y)
            in (if ay13 y AND 4 \<noteq> 0 then envx y else 15 - envx y, y\<lparr>envx := envx y + 1\<rparr>)))"

definition env_tick :: "ay \<Rightarrow> ay" where
  "env_tick y =
     (let y = y\<lparr>envc := envc y + 1\<rparr>
      in if envc y \<ge> (push_bit 1 (ayr_at y 11) OR push_bit 9 (ayr_at y 12))
         then (let (v, y) = estep (y\<lparr>envc := 0\<rparr>) in y\<lparr>envv := v\<rparr>)
         else y)"

definition noise_tick :: "ay \<Rightarrow> ay" where
  "noise_tick y =
     (let y = y\<lparr>noic := noic y + 1\<rparr>
      in if noic y \<ge> push_bit 1 (ayr_at y 6)
         then (let y = y\<lparr>noic := 0, noiv := noir y AND 1\<rparr>
               in y\<lparr>noir := drop_bit 1 (noir y XOR (noiv y * 0x24000))\<rparr>)
         else y)"

definition ay_step :: "ay \<Rightarrow> (int \<times> int) list \<times> ay" where
  "ay_step y =
     (let y = noise_tick (env_tick y);
          (c0, y) = cstep 0 y; (c1, y) = cstep 1 y; (c2, y) = cstep 2 y
      in ([c0, c1, c2], y))"

definition aymute :: "ay \<Rightarrow> ay" where
  "aymute y =
     (let y = y\<lparr>envc := envc y + 1\<rparr>;
          y = (if envc y \<ge> (push_bit 1 (ayr_at y 11) OR push_bit 9 (ayr_at y 12))
               then (let y = y\<lparr>envc := 0\<rparr>
                     in if drop_bit 4 (envx y) \<noteq> 0 \<and> NOT (ay13 y) AND 1 \<noteq> 0
                        then y\<lparr>envx := 0, ay13 := ay13 y XOR (push_bit 1 (ay13 y) AND 4)\<rparr> else y)
               else y)
      in tone_tick 2 (tone_tick 1 (tone_tick 0 (noise_tick y))))"

definition rmask :: "int list" where
  "rmask = [0xff, 0x0f, 0xff, 0x0f, 0xff, 0x0f, 0x1f, 0xff, 0x1f, 0x1f, 0x1f, 0xff,
            0xff, 0x0f, 0xff, 0xff]"

definition ay_write :: "int \<Rightarrow> int \<Rightarrow> ay \<Rightarrow> ay" where
  "ay_write addr val y =
     (if addr = 1 then y\<lparr>ayreg := val AND 0x0f\<rparr>
      else (let r = nat (ayreg y); y = y\<lparr>ayr := (ayr y)[r := val AND rmask ! r]\<rparr>
            in if ayreg y = 13
               then y\<lparr>envx := 0,
                      ay13 := (if val AND 0xc = 0 then 9 else if val AND 0xc = 4 then 15 else val)\<rparr>
               else y))"

definition ay_read :: "int \<Rightarrow> ay \<Rightarrow> int" where
  "ay_read addr y = (if addr = 1 then ayreg y else ayr_at y (nat (ayreg y)))"

subsection \<open>The wrapper\<close>

text \<open>\<^verbatim>\<open>AYWrapper::step2\<close>: seven ticks of a 96-tick divider per clock; the samples of the steps
  made are collected, the averaging of the floats is left out.\<close>

record AYWrapper =
  wrapped :: ay
  ayAccu :: int
  instr_accu :: int

function step2_loop :: "AYWrapper \<Rightarrow> (int \<times> int) list list \<times> AYWrapper" where
  "step2_loop w =
     (if ayAccu w \<ge> 96
      then (let (s, y) = ay_step (wrapped w);
                (ss, w) = step2_loop (w\<lparr>wrapped := y, ayAccu := ayAccu w - 96\<rparr>)
            in (s # ss, w))
      else ([], w))"
  by pat_completeness auto
termination by (relation "measure (\<lambda>w. nat (ayAccu w))") auto

declare step2_loop.simps [simp del]

definition step2 :: "int \<Rightarrow> AYWrapper \<Rightarrow> (int \<times> int) list list \<times> AYWrapper" where
  "step2 instr_time w = step2_loop (w\<lparr>ayAccu := ayAccu w + 7 * instr_time\<rparr>)"

subsection \<open>The invariant\<close>

definition ay_ok :: "ay \<Rightarrow> bool" where
  "ay_ok y \<longleftrightarrow> length (ayr y) = 19 \<and> 0 \<le> ayreg y \<and> ayreg y < 16 \<and> 0 \<le> envv y \<and> envv y < 16 \<and>
     0 \<le> envx y \<and> envx y \<le> 16 \<and> 0 < noir y \<and> noir y < 2 ^ 17"

lemma and_range:
  assumes "0 \<le> m"
  shows "0 \<le> (x :: int) AND m" "x AND m \<le> m"
  using assms by (auto intro: AND_upper2)

lemma ay_ok_init: "ay_ok ay_init"
  by (simp add: ay_ok_def ay_init_def)

lemma tone_tick_ok: "ay_ok y \<Longrightarrow> ay_ok (tone_tick ch y)"
  by (simp add: ay_ok_def tone_tick_def Let_def)

lemma estep_ok:
  assumes "ay_ok y"
  shows "ay_ok (snd (estep y))" "0 \<le> fst (estep y)" "fst (estep y) < 16"
proof -
  have x: "envx y < 16" if "drop_bit 4 (envx y) = 0"
    using that assms by (simp add: ay_ok_def drop_bit_eq_div)
  have a: "z AND 2 = 0 \<or> z AND 2 = 2" for z :: int
    by (cases "bit z 1") (auto intro!: bit_eqI simp: bit_and_iff bit_2_iff)
  show "ay_ok (snd (estep y))" "0 \<le> fst (estep y)" "fst (estep y) < 16"
    using assms x a [of "drop_bit 1 (ay13 y) XOR ay13 y"]
    by (auto simp: estep_def ay_ok_def Let_def)
qed

lemma env_tick_ok: "ay_ok y \<Longrightarrow> ay_ok (env_tick y)"
proof -
  assume y: "ay_ok y"
  have "ay_ok (y\<lparr>envc := 0\<rparr>)" using y by (simp add: ay_ok_def)
  from estep_ok [OF this] show "ay_ok (env_tick y)"
    using y by (simp add: env_tick_def Let_def split_def) (simp add: ay_ok_def)
qed

lemma noise_shift:
  assumes "0 < (r :: int)" "r < 2 ^ 17"
  shows "0 < drop_bit 1 (r XOR ((r AND 1) * 0x24000))" "drop_bit 1 (r XOR ((r AND 1) * 0x24000)) < 2 ^ 17"
proof -
  let ?x = "r XOR ((r AND 1) * 0x24000)"
  have "0 < drop_bit 1 ?x \<and> drop_bit 1 ?x < 2 ^ 17"
  proof (cases "odd r")
    case False
    then have "r AND 1 = 0" "2 \<le> r" using assms by (auto simp: and_one_eq elim: evenE)
    then show ?thesis using assms by (simp add: drop_bit_eq_div) linarith
  next
    case True
    then have m: "?x = r XOR 0x24000" by (simp add: and_one_eq odd_iff_mod_2_eq_one)
    have "(0 :: int) \<le> ?x" using assms by (simp add: m)
    moreover have "?x < 2 ^ 18" unfolding m using assms by (intro XOR_upper) simp_all
    moreover have "bit ?x 17"
    proof -
      have "take_bit 17 r = r" using assms by (simp add: take_bit_int_eq_self)
      then have "\<not> bit r 17" by (metis bit_take_bit_iff less_irrefl)
      then show ?thesis by (simp add: m bit_xor_iff)
    qed
    then have "2 ^ 17 \<le> ?x"
      using \<open>0 \<le> ?x\<close> by (metis bit_take_bit_iff less_irrefl linorder_not_less take_bit_int_eq_self)
    ultimately show ?thesis by (simp add: drop_bit_eq_div) linarith
  qed
  then show "0 < drop_bit 1 ?x" "drop_bit 1 ?x < 2 ^ 17" by auto
qed

lemma noise_tick_ok: "ay_ok y \<Longrightarrow> ay_ok (noise_tick y)"
  using noise_shift [of "noir y"] by (simp add: ay_ok_def noise_tick_def Let_def)

lemma cstep_ok:
  assumes "ay_ok y"
  shows "ay_ok (snd (cstep ch y))" "snd (fst (cstep ch y)) \<in> {0..15}" "fst (fst (cstep ch y)) \<in> {0, 1}"
proof -
  have y: "ay_ok (tone_tick ch y)" by (rule tone_tick_ok [OF assms])
  then show "ay_ok (snd (cstep ch y))" by (simp add: cstep_def Let_def)
  show "snd (fst (cstep ch y)) \<in> {0..15}"
    using y and_range(1,2) [of 15 "ayr_at (tone_tick ch y) (8 + ch)"]
    by (auto simp: cstep_def Let_def ay_ok_def)
  show "fst (fst (cstep ch y)) \<in> {0, 1}" by (auto simp: cstep_def Let_def and_one_eq)
qed

lemma ay_step_ok:
  assumes "ay_ok y"
  shows "ay_ok (snd (ay_step y))" "\<forall>(m, i) \<in> set (fst (ay_step y)). m \<in> {0, 1} \<and> i \<in> {0..15}"
  using cstep_ok [of "noise_tick (env_tick y)" 0] cstep_ok [of "snd (cstep 0 (noise_tick (env_tick y)))" 1]
    cstep_ok [of "snd (cstep 1 (snd (cstep 0 (noise_tick (env_tick y)))))" 2]
    noise_tick_ok [OF env_tick_ok [OF assms]]
  by (auto simp: ay_step_def Let_def split_def)

lemma aymute_ok: "ay_ok y \<Longrightarrow> ay_ok (aymute y)"
proof -
  assume y: "ay_ok y"
  have "ay_ok (y\<lparr>envc := c\<rparr>)" "ay_ok (y\<lparr>envc := c, envx := 0, ay13 := a\<rparr>)" for c a
    using y by (simp_all add: ay_ok_def)
  then show "ay_ok (aymute y)"
    by (simp add: aymute_def Let_def tone_tick_ok noise_tick_ok)
qed

lemma ay_write_ok: "ay_ok y \<Longrightarrow> ay_ok (ay_write addr val y)"
  using and_range [of 15 val] by (auto simp: ay_ok_def ay_write_def Let_def)

subsection \<open>Properties\<close>

datatype ay_op = AY_write int int | AY_step | AY_mute

fun ay_run :: "ay_op list \<Rightarrow> ay \<Rightarrow> ay" where
  "ay_run [] y = y"
| "ay_run (AY_write a v # xs) y = ay_run xs (ay_write a v y)"
| "ay_run (AY_step # xs) y = ay_run xs (snd (ay_step y))"
| "ay_run (AY_mute # xs) y = ay_run xs (aymute y)"

lemma ay_run_ok: "ay_ok y \<Longrightarrow> ay_ok (ay_run xs y)"
  by (induction xs y rule: ay_run.induct) (simp_all add: ay_write_ok ay_step_ok aymute_ok)

text \<open>After any sequence of register writes and sample steps, a sample of the chip reads each
  channel's amplitude at an index inside the sixteen-entry table, and the noise generator's shift
  register has not died out.\<close>

theorem ay_sample_in_table:
  "let y = ay_run xs ay_init in
   noir y \<noteq> 0 \<and> list_all (\<lambda>(mix, i). mix \<in> {0, 1} \<and> 0 \<le> i \<and> i < 16) (fst (ay_step y))"
proof -
  have "ay_ok (ay_run xs ay_init)" by (rule ay_run_ok [OF ay_ok_init])
  from ay_step_ok(2) [OF this] this show ?thesis
    by (auto simp: Let_def list_all_iff ay_ok_def)
qed

text \<open>The register file behind the two ports: selecting register \<open>r\<close>, writing a value and
  reading back gives the value cut to the register's width; reading another register \<open>q\<close> gives
  what it held before.\<close>

theorem ay_register_file:
  assumes "r < 16" "q < 16"
  shows "ay_read 0 (ay_write 1 (int q) (ay_write 0 v (ay_write 1 (int r) (ay_run xs ay_init)))) =
    (if q = r then v AND rmask ! r else ay_read 0 (ay_write 1 (int q) (ay_run xs ay_init)))"
proof -
  have "ay_ok (ay_run xs ay_init)" by (rule ay_run_ok [OF ay_ok_init])
  moreover have "int k AND 15 = int k" if "k < 16" for k
  proof -
    have "int k AND mask 4 = int k" unfolding take_bit_eq_mask [symmetric]
      using that by (simp add: take_bit_int_eq_self)
    then show ?thesis by (simp add: mask_eq_exp_minus_1)
  qed
  ultimately show ?thesis
    using assms by (auto simp: ay_read_def ay_write_def Let_def ay_ok_def)
qed

theorem ay_register_file_witness:
  "ay_read 0 (ay_write 1 (int 3) (ay_write 0 0xff (ay_write 1 (int 3) (ay_run [AY_step] ay_init)))) =
    (if (3 :: nat) = 3 then 0xff AND rmask ! 3
     else ay_read 0 (ay_write 1 (int 3) (ay_run [AY_step] ay_init)))"
  by (rule ay_register_file) simp_all

end
