(* ===== verification/FD1793.thy ===== *)
theory FD1793
  imports Prelude
begin

text \<open>
  The floppy controller (\<^verbatim>\<open>src/fd1793.h\<close>): disk images, a drive with its geometry and head
  position (\<^verbatim>\<open>FDisk\<close>) and the controller with its command, track, sector, data and status
  registers.  An image attached from a file carries the contents of that file, which
  \<^verbatim>\<open>flush\<close> rewrites.  An access outside an image throws \<^verbatim>\<open>std::out_of_range\<close>.  The
  fields that the constructors leave uninitialised come from an argument \<open>u\<close>.  The diagnostic
  output under \<^verbatim>\<open>Options.log.fdc\<close> is left out.
\<close>

subsection \<open>Disk images\<close>

datatype DiskImage =
    CardboardDiskImage
  | DetachedDiskImage "u8 list"
  | FileDiskImage "u8 list" bool "u8 list"
  | DirectoryImage "u8 list" bool "u8 list"

fun img_data :: "DiskImage \<Rightarrow> u8 list" where
  "img_data CardboardDiskImage = []"
| "img_data (DetachedDiskImage d) = d"
| "img_data (FileDiskImage d _ _) = d"
| "img_data (DirectoryImage d _ _) = d"

definition img_size :: "DiskImage \<Rightarrow> int" where
  "img_size im = int (length (img_data im))"

definition img_get :: "DiskImage \<Rightarrow> int \<Rightarrow> u8 res" where
  "img_get im i =
     (case im of CardboardDiskImage \<Rightarrow> Inr 0
      | _ \<Rightarrow> if i < 0 \<or> i \<ge> img_size im then Inl Out_of_range else Inr (img_data im ! nat i))"

fun img_set :: "DiskImage \<Rightarrow> int \<Rightarrow> u8 \<Rightarrow> DiskImage res" where
  "img_set CardboardDiskImage i v = Inr CardboardDiskImage"
| "img_set (DetachedDiskImage d) i v =
     (if i < 0 \<or> i \<ge> int (length d) then Inl Out_of_range else Inr (DetachedDiskImage (d[nat i := v])))"
| "img_set (FileDiskImage d dirty file) i v =
     (if i < 0 \<or> i \<ge> int (length d) then Inl Out_of_range
      else if d ! nat i \<noteq> v then Inr (FileDiskImage (d[nat i := v]) True file)
      else Inr (FileDiskImage d dirty file))"
| "img_set (DirectoryImage d dirty file) i v =
     (if i < 0 \<or> i \<ge> int (length d) then Inl Out_of_range
      else if d ! nat i \<noteq> v then Inr (DirectoryImage (d[nat i := v]) True file)
      else Inr (DirectoryImage d dirty file))"

fun img_flush :: "DiskImage \<Rightarrow> DiskImage" where
  "img_flush CardboardDiskImage = CardboardDiskImage"
| "img_flush (DetachedDiskImage d) = DetachedDiskImage d"
| "img_flush (FileDiskImage d dirty file) =
     (if dirty then FileDiskImage d False d else FileDiskImage d dirty file)"
| "img_flush (DirectoryImage d dirty file) =
     (if dirty then DirectoryImage d False d else DirectoryImage d dirty file)"

subsection \<open>A drive\<close>

record FDisk =
  dsk :: DiskImage
  sectorsPerTrack :: int
  sectorSize :: int
  totSec :: int
  numHeads :: int
  tracksPerSide :: int
  fdata :: u8
  ftrack :: int
  fside :: int
  fsector :: int
  position :: int
  readOffset :: int
  readLength :: int
  readSource :: int
  readBuffer :: "u8 list"

definition isReady :: "FDisk \<Rightarrow> bool" where
  "isReady f \<longleftrightarrow> img_size (dsk f) > 0"

definition parse_v06c :: "FDisk \<Rightarrow> FDisk" where
  "parse_v06c f =
     (if \<not> isReady f then f
      else f\<lparr>tracksPerSide := img_size (dsk f) div 1024 div 2 * 5, numHeads := 2, sectorSize := 1024,
             sectorsPerTrack := 5, totSec := img_size (dsk f) div 1024\<rparr>)"

definition FDisk_init :: "FDisk \<Rightarrow> FDisk" where
  "FDisk_init f =
     parse_v06c (f\<lparr>sectorsPerTrack := 9, sectorSize := 512, totSec := 720, numHeads := 1,
       tracksPerSide := 720 div 9 div 1, fdata := 0, ftrack := 0, fside := 0, position := 0,
       readOffset := 0, readLength := 0, readSource := 0\<rparr>)"

definition FDisk_new :: "FDisk \<Rightarrow> FDisk" where
  "FDisk_new u = FDisk_init (u\<lparr>dsk := CardboardDiskImage\<rparr>)"

definition attach_data :: "u8 list \<Rightarrow> FDisk \<Rightarrow> FDisk" where
  "attach_data bs f = FDisk_init (f\<lparr>dsk := DetachedDiskImage bs\<rparr>)"

text \<open>Attaching a path: the contents of the file, or, when that is empty, the image that
  \<^verbatim>\<open>FilesystemImage::mount_local_dir\<close> builds of the directory, flushed at once.\<close>

definition attach_file :: "u8 list \<Rightarrow> u8 list \<Rightarrow> FDisk \<Rightarrow> FDisk" where
  "attach_file contents mounted f =
     FDisk_init (f\<lparr>dsk := (if contents \<noteq> [] then FileDiskImage contents False contents
                           else img_flush (DirectoryImage mounted True []))\<rparr>)"

definition sector_length_to_code :: "int \<Rightarrow> int" where
  "sector_length_to_code len =
     (if len = 128 then 0 else if len = 256 then 1 else if len = 512 then 2
      else if len = 1024 then 3 else -1)"

definition seek :: "int \<Rightarrow> int \<Rightarrow> int \<Rightarrow> FDisk \<Rightarrow> FDisk" where
  "seek track sector side f =
     (if isReady f then
        (let offsetSector = (if sector \<noteq> 0 then sector - 1 else 0)
         in f\<lparr>position := (track * (sectorsPerTrack f * numHeads f) + sectorsPerTrack f * side +
                           offsetSector) * sectorSize f,
              ftrack := track, fside := side\<rparr>)
      else f)"

definition readSector :: "int \<Rightarrow> FDisk \<Rightarrow> FDisk" where
  "readSector sector f =
     (let f = f\<lparr>readLength := sectorSize f, readOffset := 0, readSource := 0, fsector := sector\<rparr>
      in seek (ftrack f) (fsector f) (fside f) f)"

definition writeSector :: "int \<Rightarrow> FDisk \<Rightarrow> FDisk" where
  "writeSector sector f =
     (let f = f\<lparr>readLength := sectorSize f, readOffset := 0, readSource := 0, fsector := sector\<rparr>
      in seek (ftrack f) (fsector f) (fside f) f)"

definition readAddress :: "FDisk \<Rightarrow> FDisk" where
  "readAddress f =
     f\<lparr>readLength := 6, readSource := 1, readOffset := 0,
       readBuffer := [word_of_int (ftrack f), word_of_int (fside f), word_of_int (fsector f),
         word_of_int (sector_length_to_code (sectorSize f)), 0, 0]\<rparr>"

definition fdisk_read :: "FDisk \<Rightarrow> (bool \<times> FDisk) res" where
  "fdisk_read f =
     (if readOffset f < readLength f then
        bind_res (if readSource f \<noteq> 0 then Inr (readBuffer f ! nat (readOffset f))
                  else img_get (dsk f) (position f + readOffset f))
          (\<lambda>v. Inr (False, f\<lparr>fdata := v, readOffset := readOffset f + 1\<rparr>))
      else Inr (True, f))"

definition write_data :: "u8 \<Rightarrow> FDisk \<Rightarrow> (bool \<times> FDisk) res" where
  "write_data v f =
     (if readOffset f < readLength f then
        bind_res (img_set (dsk f) (position f + readOffset f) v)
          (\<lambda>im. let f = f\<lparr>dsk := im, readOffset := readOffset f + 1\<rparr>
                in Inr (False, if readOffset f = readLength f then f\<lparr>dsk := img_flush (dsk f)\<rparr> else f))
      else Inr (True, f))"

subsection \<open>The controller\<close>

record FD1793 =
  disks :: "FDisk list"
  fd_pr :: int
  fd_side :: int
  fd_intrq :: int
  fd_data :: int
  fd_status :: u32
  fd_command :: int
  fd_commandtr :: int
  fd_track :: int
  fd_sector :: int
  fd_stepdir :: int
  fd_lingertime :: int
  fd_dsksel :: int
  LINGER_BEFORE :: int
  LINGER_AFTER :: int
  sectorcnt :: int
  readcnt :: int

definition ST_NOTREADY :: u32 where "ST_NOTREADY = 0x80"
definition ST_SEEKERR :: u32 where "ST_SEEKERR = 0x10"
definition ST_DRQ :: u32 where "ST_DRQ = 0x02"
definition ST_BUSY :: u32 where "ST_BUSY = 0x01"
definition PRT_INTRQ :: int where "PRT_INTRQ = 1"
definition PRT_DRQ :: int where "PRT_DRQ = 0x80"
definition CMD_READSEC :: int where "CMD_READSEC = 1"
definition CMD_READADDR :: int where "CMD_READADDR = 2"
definition CMD_WRITESEC :: int where "CMD_WRITESEC = 3"

definition FD1793_new :: "FD1793 \<Rightarrow> FDisk list \<Rightarrow> FD1793" where
  "FD1793_new u us =
     u\<lparr>disks := map FDisk_new us, fd_dsksel := 0, LINGER_AFTER := 2, fd_lingertime := 3,
       fd_stepdir := 1, sectorcnt := 0, readcnt := 0\<rparr>"

abbreviation cur :: "FD1793 \<Rightarrow> FDisk" where
  "cur c \<equiv> disks c ! nat (fd_dsksel c)"

definition upd_cur :: "FDisk \<Rightarrow> FD1793 \<Rightarrow> FD1793" where
  "upd_cur f c = c\<lparr>disks := (disks c)[nat (fd_dsksel c) := f]\<rparr>"

definition disk :: "int \<Rightarrow> FD1793 \<Rightarrow> FDisk res" where
  "disk drive c = (if drive < 0 \<or> drive > 3 then Inl Out_of_range else Inr (disks c ! nat drive))"

definition set_st :: "u32 \<Rightarrow> FD1793 \<Rightarrow> FD1793" where
  "set_st b c = c\<lparr>fd_status := fd_status c OR b\<rparr>"

definition clr_st :: "u32 \<Rightarrow> FD1793 \<Rightarrow> FD1793" where
  "clr_st b c = c\<lparr>fd_status := fd_status c AND NOT b\<rparr>"

definition tst_st :: "u32 \<Rightarrow> FD1793 \<Rightarrow> bool" where
  "tst_st b c \<longleftrightarrow> fd_status c AND b \<noteq> 0"

definition fd_exec :: "FD1793 \<Rightarrow> FD1793 res" where
  "fd_exec c =
     (if fd_commandtr c = CMD_READSEC \<or> fd_commandtr c = CMD_READADDR then
        (if tst_st ST_DRQ c then Inr c
         else bind_res (fdisk_read (cur c))
           (\<lambda>(finished, f). let c = upd_cur f c in
              if finished then Inr ((clr_st ST_BUSY c)\<lparr>fd_intrq := PRT_INTRQ\<rparr>)
              else Inr ((set_st ST_DRQ c)\<lparr>fd_data := uint (fdata (cur c))\<rparr>)))
      else if fd_commandtr c = CMD_WRITESEC then
        (if \<not> tst_st ST_DRQ c then
           bind_res (write_data (word_of_int (fd_data c)) (cur c))
             (\<lambda>(finished, f). let c = upd_cur f c in
                if finished then Inr ((clr_st ST_BUSY c)\<lparr>fd_intrq := PRT_INTRQ\<rparr>)
                else Inr (set_st ST_DRQ c))
         else Inr c)
      else Inr (clr_st ST_BUSY c))"

definition fd_read_status :: "FD1793 \<Rightarrow> (int \<times> FD1793) res" where
  "fd_read_status c =
     (let returnStatus = fd_status c
      in map_sum id (\<lambda>(st, c). (uint st, c\<lparr>fd_intrq := 0\<rparr>))
        (if tst_st ST_BUSY c then
           (if fd_lingertime c < 0
            then Inr (returnStatus AND NOT ST_BUSY, c\<lparr>fd_lingertime := fd_lingertime c + 1\<rparr>)
            else if fd_lingertime c < LINGER_AFTER c
            then Inr (returnStatus, c\<lparr>fd_lingertime := fd_lingertime c + 1\<rparr>)
            else if fd_lingertime c = LINGER_AFTER c
            then bind_res (fd_exec (c\<lparr>fd_lingertime := fd_lingertime c + 1\<rparr>))
                   (\<lambda>c. Inr (fd_status c, c))
            else Inr (returnStatus, c))
         else Inr (returnStatus, c)))"

definition fd_read :: "bool \<Rightarrow> int \<Rightarrow> FD1793 \<Rightarrow> (int \<times> FD1793) res" where
  "fd_read nofdc addr c =
     (if nofdc then Inr (0xff, c)
      else (let c = (if isReady (cur c) then clr_st ST_NOTREADY c else set_st ST_NOTREADY c)
        in if addr = 0 then fd_read_status c
           else if addr = 1 then Inr (fd_track c, c)
           else if addr = 2 then Inr (fd_sector c, c)
           else if addr = 3 then
             (let result = fd_data c; c = c\<lparr>readcnt := readcnt c + 1\<rparr>;
                  c = (if readcnt c = 1024 then c\<lparr>sectorcnt := sectorcnt c + 1\<rparr> else c)
              in bind_res (fd_exec (clr_st ST_DRQ c)) (\<lambda>c. Inr (result, c)))
           else if addr = 4 then
             bind_res (if tst_st ST_BUSY c then fd_exec c else Inr c)
               (\<lambda>c. Inr (fd_intrq c OR (if tst_st ST_DRQ c then PRT_DRQ else 0), c))
           else Inr (-1, c)))"

definition step_to :: "int \<Rightarrow> bool \<Rightarrow> FD1793 \<Rightarrow> FD1793" where
  "step_to dir clamp c =
     (let c = c\<lparr>fd_stepdir := dir\<rparr>; c = c\<lparr>fd_track := fd_track c + fd_stepdir c\<rparr>;
          c = (if clamp \<and> fd_track c < 0 then c\<lparr>fd_track := 0\<rparr> else c)
      in set_st ST_BUSY (c\<lparr>fd_lingertime := LINGER_BEFORE c\<rparr>))"

definition fd_command_op :: "int \<Rightarrow> FD1793 \<Rightarrow> FD1793" where
  "fd_command_op val c =
     (let cmd = drop_bit 4 val; c = c\<lparr>fd_intrq := 0, fd_command := val, fd_commandtr := 0\<rparr>
      in if cmd = 0 then
           (let c = c\<lparr>fd_intrq := PRT_INTRQ\<rparr>
            in if isReady (cur c)
               then (let c = c\<lparr>fd_track := 0\<rparr> in upd_cur (seek (fd_track c) 1 (fd_side c) (cur c)) c)
               else set_st ST_SEEKERR c)
         else if cmd = 1 then
           (let c = upd_cur (seek (fd_data c) (fd_sector c) (fd_side c) (cur c)) c;
                c = c\<lparr>fd_track := fd_data c, fd_intrq := PRT_INTRQ\<rparr>
            in (set_st ST_BUSY c)\<lparr>fd_lingertime := LINGER_BEFORE c\<rparr>)
         else if cmd = 2 \<or> cmd = 3 then step_to (fd_stepdir c) True c
         else if cmd = 4 \<or> cmd = 5 then step_to 1 False c
         else if cmd = 6 \<or> cmd = 7 then step_to (-1) True c
         else if cmd = 8 \<or> cmd = 9 then
           (let c = set_st ST_BUSY (c\<lparr>fd_commandtr := CMD_READSEC\<rparr>);
                c = upd_cur (readSector (fd_sector c)
                      (seek (fd_track c) (fd_sector c) (fd_side c) (cur c))) c
            in c\<lparr>fd_lingertime := LINGER_BEFORE c\<rparr>)
         else if cmd = 0xA \<or> cmd = 0xB then
           (let c = set_st ST_DRQ (set_st ST_BUSY (c\<lparr>fd_commandtr := CMD_WRITESEC\<rparr>));
                c = upd_cur (writeSector (fd_sector c)
                      (seek (fd_track c) (fd_sector c) (fd_side c) (cur c))) c
            in c\<lparr>fd_lingertime := LINGER_BEFORE c\<rparr>)
         else if cmd = 0xC then
           (let c = set_st ST_BUSY (c\<lparr>fd_commandtr := CMD_READADDR\<rparr>);
                c = upd_cur (readAddress (cur c)) c
            in c\<lparr>fd_lingertime := LINGER_BEFORE c\<rparr>)
         else c)"

definition fd_write :: "int \<Rightarrow> int \<Rightarrow> FD1793 \<Rightarrow> FD1793 res" where
  "fd_write addr val c =
     (if addr = 0 then Inr (fd_command_op val c)
      else if addr = 1 then Inr (clr_st ST_DRQ (c\<lparr>fd_track := val\<rparr>))
      else if addr = 2 then Inr (clr_st ST_DRQ (c\<lparr>fd_sector := val\<rparr>))
      else if addr = 3 then fd_exec (clr_st ST_DRQ (c\<lparr>fd_data := val\<rparr>))
      else if addr = 4 then
        Inr (c\<lparr>fd_pr := val, fd_dsksel := val AND 3, fd_side := drop_bit 2 (NOT val) AND 1\<rparr>)
      else Inr c)"

subsection \<open>Status bits\<close>

lemma status_bits [simp]:
  "tst_st ST_DRQ c \<longleftrightarrow> bit (fd_status c) 1" "tst_st ST_BUSY c \<longleftrightarrow> bit (fd_status c) 0"
  "bit (fd_status (set_st ST_DRQ c)) n \<longleftrightarrow> n = 1 \<or> bit (fd_status c) n"
  "bit (fd_status (set_st ST_BUSY c)) n \<longleftrightarrow> n = 0 \<or> bit (fd_status c) n"
  "bit (fd_status (set_st ST_NOTREADY c)) n \<longleftrightarrow> n = 7 \<or> bit (fd_status c) n"
  "bit (fd_status (clr_st ST_DRQ c)) n \<longleftrightarrow> n \<noteq> 1 \<and> bit (fd_status c) n"
  "bit (fd_status (clr_st ST_BUSY c)) n \<longleftrightarrow> n \<noteq> 0 \<and> bit (fd_status c) n"
  "bit (fd_status (clr_st ST_NOTREADY c)) n \<longleftrightarrow> n \<noteq> 7 \<and> bit (fd_status c) n"
proof -
  have exp: "bit (push_bit k 1 :: u32) n \<longleftrightarrow> n = k" if "k < 32" for k n
    using that by (auto simp: bit_exp_iff)
  have st: "ST_DRQ = push_bit 1 1" "ST_BUSY = push_bit 0 1" "ST_NOTREADY = push_bit 7 1"
    by (simp_all add: ST_DRQ_def ST_BUSY_def ST_NOTREADY_def push_bit_eq_mult)
  have bits: "bit ST_DRQ n \<longleftrightarrow> n = 1" "bit ST_BUSY n \<longleftrightarrow> n = 0" "bit ST_NOTREADY n \<longleftrightarrow> n = 7" for n
    unfolding st by (rule exp, simp)+
  show "tst_st ST_DRQ c \<longleftrightarrow> bit (fd_status c) 1" "tst_st ST_BUSY c \<longleftrightarrow> bit (fd_status c) 0"
    by (simp_all add: tst_st_def ST_DRQ_def ST_BUSY_def and_exp_eq_0_iff_not_bit [of _ 1, simplified]
        and_exp_eq_0_iff_not_bit [of _ 0, simplified] bit_0)
  show "bit (fd_status (set_st ST_DRQ c)) n \<longleftrightarrow> n = 1 \<or> bit (fd_status c) n"
    "bit (fd_status (set_st ST_BUSY c)) n \<longleftrightarrow> n = 0 \<or> bit (fd_status c) n"
    "bit (fd_status (set_st ST_NOTREADY c)) n \<longleftrightarrow> n = 7 \<or> bit (fd_status c) n"
    "bit (fd_status (clr_st ST_DRQ c)) n \<longleftrightarrow> n \<noteq> 1 \<and> bit (fd_status c) n"
    "bit (fd_status (clr_st ST_BUSY c)) n \<longleftrightarrow> n \<noteq> 0 \<and> bit (fd_status c) n"
    "bit (fd_status (clr_st ST_NOTREADY c)) n \<longleftrightarrow> n \<noteq> 7 \<and> bit (fd_status c) n"
    by (auto simp: set_st_def clr_st_def bit_simps bits dest: bit_imp_le_length)
qed

lemma st_fields [simp]:
  "fd_commandtr (set_st b c) = fd_commandtr c" "fd_commandtr (clr_st b c) = fd_commandtr c"
  "disks (set_st b c) = disks c" "disks (clr_st b c) = disks c"
  "fd_dsksel (set_st b c) = fd_dsksel c" "fd_dsksel (clr_st b c) = fd_dsksel c"
  "fd_lingertime (set_st b c) = fd_lingertime c" "fd_lingertime (clr_st b c) = fd_lingertime c"
  "LINGER_AFTER (set_st b c) = LINGER_AFTER c" "LINGER_AFTER (clr_st b c) = LINGER_AFTER c"
  "LINGER_BEFORE (set_st b c) = LINGER_BEFORE c" "LINGER_BEFORE (clr_st b c) = LINGER_BEFORE c"
  "fd_data (set_st b c) = fd_data c" "fd_data (clr_st b c) = fd_data c"
  "fd_track (set_st b c) = fd_track c" "fd_track (clr_st b c) = fd_track c"
  "fd_sector (set_st b c) = fd_sector c" "fd_sector (clr_st b c) = fd_sector c"
  "fd_side (set_st b c) = fd_side c" "fd_side (clr_st b c) = fd_side c"
  by (simp_all add: set_st_def clr_st_def)

lemma upd_cur_fields [simp]:
  "fd_commandtr (upd_cur f c) = fd_commandtr c" "fd_dsksel (upd_cur f c) = fd_dsksel c"
  "length (disks (upd_cur f c)) = length (disks c)" "fd_status (upd_cur f c) = fd_status c"
  "fd_lingertime (upd_cur f c) = fd_lingertime c" "LINGER_AFTER (upd_cur f c) = LINGER_AFTER c"
  "LINGER_BEFORE (upd_cur f c) = LINGER_BEFORE c" "fd_data (upd_cur f c) = fd_data c"
  by (simp_all add: upd_cur_def)

lemma cur_upd_cur [simp]:
  "n = nat (fd_dsksel c) \<Longrightarrow> n < length (disks c) \<Longrightarrow> disks (upd_cur f c) ! n = f"
  by (simp add: upd_cur_def)

subsection \<open>Transferring a sector\<close>

text \<open>The controller in the middle of a transfer: \<open>k\<close> of \<open>L\<close> bytes at offset \<open>p\<close> of the image
  \<open>d\<close> are done.\<close>

definition xfer :: "int \<Rightarrow> u8 list \<Rightarrow> nat \<Rightarrow> nat \<Rightarrow> nat \<Rightarrow> FD1793 \<Rightarrow> bool" where
  "xfer cmd d p L k c \<longleftrightarrow> fd_commandtr c = cmd \<and> nat (fd_dsksel c) < length (disks c) \<and>
     (let f = cur c in img_data (dsk f) = d \<and> d \<noteq> [] \<and> readSource f = 0 \<and> position f = int p \<and>
        readLength f = int L \<and> readOffset f = int k \<and> k \<le> L \<and> p + L \<le> length d)"

lemma xfer_status [simp]:
  "xfer cmd d p L k (set_st b c) = xfer cmd d p L k c"
  "xfer cmd d p L k (clr_st b c) = xfer cmd d p L k c"
  "xfer cmd d p L k (c\<lparr>fd_intrq := i\<rparr>) = xfer cmd d p L k c"
  "xfer cmd d p L k (c\<lparr>fd_lingertime := t\<rparr>) = xfer cmd d p L k c"
  "xfer cmd d p L k (c\<lparr>fd_data := v\<rparr>) = xfer cmd d p L k c"
  "xfer cmd d p L k (c\<lparr>readcnt := n\<rparr>) = xfer cmd d p L k c"
  "xfer cmd d p L k (c\<lparr>sectorcnt := n\<rparr>) = xfer cmd d p L k c"
  by (simp_all add: xfer_def)

lemma img_get_inside: "i < length (img_data im) \<Longrightarrow> img_get im (int i) = Inr (img_data im ! i)"
  by (cases im) (auto simp: img_get_def img_size_def)

lemma exec_read:
  assumes "xfer CMD_READSEC d p L k c" "\<not> bit (fd_status c) 1" "k < L"
  shows "\<exists>c'. fd_exec c = Inr c' \<and> xfer CMD_READSEC d p L (Suc k) c' \<and>
    fd_data c' = uint (d ! (p + k)) \<and> bit (fd_status c') 1 \<and>
    (bit (fd_status c') 0 \<longleftrightarrow> bit (fd_status c) 0) \<and> LINGER_AFTER c' = LINGER_AFTER c"
proof -
  let ?f = "(cur c)\<lparr>fdata := d ! (p + k), readOffset := int k + 1\<rparr>"
  have "fdisk_read (cur c) = Inr (False, ?f)"
    using assms img_get_inside [of "p + k" "dsk (cur c)"]
    by (simp add: fdisk_read_def xfer_def Let_def)
  then show ?thesis
    using assms by (simp add: fd_exec_def Let_def CMD_READSEC_def xfer_def)
qed

lemma exec_read_end:
  assumes "xfer CMD_READSEC d p L L c" "\<not> bit (fd_status c) 1"
  shows "\<exists>c'. fd_exec c = Inr c' \<and> xfer CMD_READSEC d p L L c' \<and> fd_intrq c' = PRT_INTRQ \<and>
    \<not> bit (fd_status c') 0 \<and> \<not> bit (fd_status c') 1"
proof -
  have "fdisk_read (cur c) = Inr (True, cur c)"
    using assms by (simp add: fdisk_read_def xfer_def Let_def)
  then show ?thesis
    using assms by (simp add: fd_exec_def Let_def CMD_READSEC_def xfer_def)
qed

text \<open>Reading the data port: each read returns the byte fetched before and fetches the next.\<close>

fun read_port :: "nat \<Rightarrow> FD1793 \<Rightarrow> (int list \<times> FD1793) res" where
  "read_port 0 c = Inr ([], c)"
| "read_port (Suc n) c =
     bind_res (fd_read False 3 c) (\<lambda>(v, c). bind_res (read_port n c) (\<lambda>(vs, c). Inr (v # vs, c)))"

lemma fd_read_data:
  obtains r where "fd_read False 3 c = bind_res (fd_exec r) (\<lambda>c'. Inr (fd_data c, c'))"
    "\<not> bit (fd_status r) 1" "\<And>cmd d p L k. xfer cmd d p L k r = xfer cmd d p L k c"
proof -
  define q where "q = (if isReady (cur c) then clr_st ST_NOTREADY c else set_st ST_NOTREADY c)"
  define q' where "q' = q\<lparr>readcnt := readcnt q + 1\<rparr>"
  define r where "r = clr_st ST_DRQ (if readcnt q' = 1024 then q'\<lparr>sectorcnt := sectorcnt q' + 1\<rparr> else q')"
  have "fd_data q = fd_data c" by (simp add: q_def)
  then have "fd_read False 3 c = bind_res (fd_exec r) (\<lambda>c'. Inr (fd_data c, c'))"
    unfolding fd_read_def r_def q'_def q_def by (simp only: Let_def) simp
  moreover have "\<not> bit (fd_status r) 1" "xfer cmd d p L k r = xfer cmd d p L k c" for cmd d p L k
    by (simp_all add: r_def q'_def q_def)
  ultimately show ?thesis by (rule that)
qed

lemma read_data_next:
  assumes "xfer CMD_READSEC d p L k c" "k < L"
  shows "\<exists>c'. fd_read False 3 c = Inr (fd_data c, c') \<and> xfer CMD_READSEC d p L (Suc k) c' \<and>
    fd_data c' = uint (d ! (p + k))"
proof -
  obtain r where r: "fd_read False 3 c = bind_res (fd_exec r) (\<lambda>c'. Inr (fd_data c, c'))"
    "\<not> bit (fd_status r) 1" "xfer CMD_READSEC d p L k r"
    using fd_read_data [of c] assms(1) by metis
  from exec_read [OF r(3,2) assms(2)] r(1) show ?thesis by auto
qed

lemma read_data_end:
  assumes "xfer CMD_READSEC d p L L c"
  shows "\<exists>c'. fd_read False 3 c = Inr (fd_data c, c') \<and> fd_intrq c' = PRT_INTRQ \<and>
    \<not> bit (fd_status c') 0 \<and> \<not> bit (fd_status c') 1"
proof -
  obtain r where r: "fd_read False 3 c = bind_res (fd_exec r) (\<lambda>c'. Inr (fd_data c, c'))"
    "\<not> bit (fd_status r) 1" "xfer CMD_READSEC d p L L r"
    using fd_read_data [of c] assms(1) by metis
  from exec_read_end [OF r(3,2)] r(1) show ?thesis by auto
qed

lemma read_port_rest:
  assumes "xfer CMD_READSEC d p L (Suc k) c" "k + n = L" "fd_data c = uint (d ! (p + k))" "0 < n"
  shows "\<exists>c'. read_port n c = Inr (map uint (take n (drop (p + k) d)), c') \<and>
    fd_intrq c' = PRT_INTRQ \<and> \<not> bit (fd_status c') 0 \<and> \<not> bit (fd_status c') 1"
  using assms
proof (induction n arbitrary: k c)
  case (Suc n)
  have len: "p + k < length d" using Suc.prems by (simp add: xfer_def Let_def)
  have tk: "take (Suc n) (drop (p + k) d) = d ! (p + k) # take n (drop (p + Suc k) d)"
    using len by (simp add: Cons_nth_drop_Suc [symmetric])
  show ?case
  proof (cases "n = 0")
    case True
    then have "xfer CMD_READSEC d p L L c" using Suc.prems by simp
    from read_data_end [OF this] Suc.prems tk True show ?thesis by auto
  next
    case False
    then have "Suc k < L" using Suc.prems by simp
    from read_data_next [OF Suc.prems(1) this] obtain c' where
      c': "fd_read False 3 c = Inr (fd_data c, c')" "xfer CMD_READSEC d p L (Suc (Suc k)) c'"
        "fd_data c' = uint (d ! (p + Suc k))" by auto
    from Suc.IH [OF c'(2) _ c'(3)] False Suc.prems c'(1) tk show ?thesis by auto
  qed
qed simp

text \<open>Polling the status register: the command is carried out when the counter of polls passes
  \<^verbatim>\<open>LINGER_AFTER\<close>.\<close>

fun poll :: "nat \<Rightarrow> FD1793 \<Rightarrow> FD1793 res" where
  "poll 0 c = Inr c"
| "poll (Suc n) c = bind_res (fd_read False 0 c) (\<lambda>(_, c). poll n c)"

lemma poll_linger:
  assumes "bit (fd_status c) 0" "fd_lingertime c < LINGER_AFTER c"
  shows "\<exists>v c'. fd_read False 0 c = Inr (v, c') \<and> bit (fd_status c') 0 \<and>
    (bit (fd_status c') 1 \<longleftrightarrow> bit (fd_status c) 1) \<and> fd_lingertime c' = fd_lingertime c + 1 \<and>
    LINGER_AFTER c' = LINGER_AFTER c \<and> xfer cmd d p L k c' = xfer cmd d p L k c"
  using assms by (simp add: fd_read_def fd_read_status_def Let_def)

lemma poll_exec:
  assumes "xfer CMD_READSEC d p L 0 c" "0 < L" "bit (fd_status c) 0" "\<not> bit (fd_status c) 1"
    "fd_lingertime c = LINGER_AFTER c" "0 \<le> LINGER_AFTER c"
  shows "\<exists>v c'. fd_read False 0 c = Inr (v, c') \<and> xfer CMD_READSEC d p L 1 c' \<and>
    fd_data c' = uint (d ! p)"
proof -
  define q where "q = (if isReady (cur c) then clr_st ST_NOTREADY c else set_st ST_NOTREADY c)"
  define r where "r = q\<lparr>fd_lingertime := fd_lingertime q + 1\<rparr>"
  have q: "bit (fd_status q) 0" "fd_lingertime q = LINGER_AFTER q" "0 \<le> LINGER_AFTER q"
    using assms(3,5,6) by (simp_all add: q_def)
  have rd: "fd_read False 0 c = fd_read_status q" by (simp add: fd_read_def q_def Let_def)
  have "xfer CMD_READSEC d p L 0 r" "\<not> bit (fd_status r) 1"
    using assms by (simp_all add: r_def q_def)
  from exec_read [OF this assms(2)] q rd show ?thesis
    by (auto simp: fd_read_status_def r_def Let_def)
qed

lemma poll_until_exec:
  assumes "xfer CMD_READSEC d p L 0 c" "0 < L" "bit (fd_status c) 0" "\<not> bit (fd_status c) 1"
    "fd_lingertime c + int n = LINGER_AFTER c" "0 \<le> LINGER_AFTER c"
  shows "\<exists>c'. poll (Suc n) c = Inr c' \<and> xfer CMD_READSEC d p L 1 c' \<and> fd_data c' = uint (d ! p)"
  using assms
proof (induction n arbitrary: c)
  case 0
  then show ?case using poll_exec [of d p L c] by auto
next
  case (Suc n)
  from poll_linger [OF Suc.prems(3), of CMD_READSEC d p L 0] Suc.prems obtain v c' where
    c': "fd_read False 0 c = Inr (v, c')" "bit (fd_status c') 0" "\<not> bit (fd_status c') 1"
      "fd_lingertime c' = fd_lingertime c + 1" "LINGER_AFTER c' = LINGER_AFTER c"
      "xfer CMD_READSEC d p L 0 c'" by auto
  from Suc.IH [OF c'(6) Suc.prems(2) c'(2,3)] Suc.prems(5,6) c' show ?case by simp
qed

subsection \<open>Writing\<close>

text \<open>The file behind an image, where it has one.\<close>

fun img_file :: "DiskImage \<Rightarrow> u8 list option" where
  "img_file (FileDiskImage _ _ file) = Some file"
| "img_file (DirectoryImage _ _ file) = Some file"
| "img_file _ = None"

text \<open>An image that was changed only through the controller since it was attached: when it is not
  marked dirty, its file is up to date.\<close>

fun img_ok :: "DiskImage \<Rightarrow> bool" where
  "img_ok (FileDiskImage d dirty file) \<longleftrightarrow> dirty \<or> file = d"
| "img_ok (DirectoryImage d dirty file) \<longleftrightarrow> dirty \<or> file = d"
| "img_ok _ \<longleftrightarrow> True"

lemma img_set_inside:
  assumes "i < length (img_data im)" "img_ok im"
  shows "\<exists>im'. img_set im (int i) v = Inr im' \<and> img_data im' = (img_data im)[i := v] \<and> img_ok im' \<and>
    (img_file im' = None \<longleftrightarrow> img_file im = None)"
  using assms by (cases im) (auto simp: list_update_same_conv)

lemma img_flush_data [simp]: "img_data (img_flush im) = img_data im"
  by (cases im) auto

lemma img_flush_file:
  "img_ok im \<Longrightarrow> img_file (img_flush im) = (if img_file im = None then None else Some (img_data im))"
  "img_ok im \<Longrightarrow> img_ok (img_flush im)"
  by (cases im; auto)+

lemma write_data_next:
  assumes "xfer cmd d p L k c" "k < L" "img_ok (dsk (cur c))"
  shows "\<exists>f. write_data v (cur c) = Inr (False, f) \<and> img_data (dsk f) = d[p + k := v] \<and>
    readSource f = 0 \<and> position f = int p \<and> readLength f = int L \<and> readOffset f = int (Suc k) \<and>
    img_ok (dsk f) \<and> (img_file (dsk f) = None \<longleftrightarrow> img_file (dsk (cur c)) = None) \<and>
    (Suc k = L \<longrightarrow> img_file (dsk f) = (if img_file (dsk (cur c)) = None then None else Some (d[p + k := v])))"
proof -
  have x: "img_data (dsk (cur c)) = d" "position (cur c) = int p" "readLength (cur c) = int L"
    "readOffset (cur c) = int k" "p + L \<le> length d" "readSource (cur c) = 0"
    using assms(1) by (simp_all add: xfer_def Let_def)
  obtain im where im: "img_set (dsk (cur c)) (int (p + k)) v = Inr im" "img_data im = d[p + k := v]"
    "img_ok im" "img_file im = None \<longleftrightarrow> img_file (dsk (cur c)) = None"
    using img_set_inside [of "p + k" "dsk (cur c)" v] x assms by auto
  then show ?thesis
    using x assms(2) img_flush_file [OF im(3)] by (auto simp: write_data_def Let_def)
qed

lemma exec_write:
  assumes "xfer CMD_WRITESEC d p L k c" "k < L" "img_ok (dsk (cur c))"
  shows "\<exists>c'. fd_write 3 v c = Inr c' \<and> xfer CMD_WRITESEC (d[p + k := word_of_int v]) p L (Suc k) c' \<and>
    img_ok (dsk (cur c')) \<and> (img_file (dsk (cur c')) = None \<longleftrightarrow> img_file (dsk (cur c)) = None) \<and>
    (Suc k = L \<longrightarrow> img_file (dsk (cur c')) =
       (if img_file (dsk (cur c)) = None then None else Some (d[p + k := word_of_int v])))"
proof -
  define r where "r = clr_st ST_DRQ (c\<lparr>fd_data := v\<rparr>)"
  have r: "xfer CMD_WRITESEC d p L k r" "img_ok (dsk (cur r))" "\<not> bit (fd_status r) 1"
    "fd_data r = v" "cur r = cur c"
    using assms by (simp_all add: r_def)
  have w: "fd_write 3 v c = fd_exec r" by (simp add: fd_write_def r_def)
  obtain f where f: "write_data (word_of_int v) (cur r) = Inr (False, f)"
    "img_data (dsk f) = d[p + k := word_of_int v]" "readSource f = 0" "position f = int p"
    "readLength f = int L" "readOffset f = int (Suc k)" "img_ok (dsk f)"
    "img_file (dsk f) = None \<longleftrightarrow> img_file (dsk (cur r)) = None"
    "Suc k = L \<longrightarrow> img_file (dsk f) =
      (if img_file (dsk (cur r)) = None then None else Some (d[p + k := word_of_int v]))"
    using write_data_next [OF r(1) assms(2) r(2), of "word_of_int v"]
    by (elim exE conjE) (rule that; assumption)
  have x: "fd_commandtr r = CMD_WRITESEC" "nat (fd_dsksel r) < length (disks r)"
    "d \<noteq> []" "p + L \<le> length d"
    using r(1) by (simp_all add: xfer_def Let_def)
  have "fd_exec r = Inr (set_st ST_DRQ (upd_cur f r))"
    using f(1) r(3,4) x(1)
    by (simp add: fd_exec_def Let_def CMD_WRITESEC_def CMD_READSEC_def CMD_READADDR_def)
  moreover have "xfer CMD_WRITESEC (d[p + k := word_of_int v]) p L (Suc k) (set_st ST_DRQ (upd_cur f r))"
    using f(2-6) x assms(2) by (simp add: xfer_def Let_def)
  ultimately show ?thesis using f(7-9) w x(2) r(5) by simp
qed

fun write_port :: "int list \<Rightarrow> FD1793 \<Rightarrow> FD1793 res" where
  "write_port [] c = Inr c"
| "write_port (v # vs) c = bind_res (fd_write 3 v c) (write_port vs)"

lemma write_port_all:
  assumes "xfer CMD_WRITESEC d p L k c" "k + length vs = L" "img_ok (dsk (cur c))" "vs \<noteq> []"
  shows "\<exists>c'. write_port (map uint vs) c = Inr c' \<and>
    img_data (dsk (cur c')) = take (p + k) d @ vs @ drop (p + L) d \<and>
    img_file (dsk (cur c')) = (if img_file (dsk (cur c)) = None then None
      else Some (take (p + k) d @ vs @ drop (p + L) d))"
  using assms
proof (induction vs arbitrary: d k c)
  case (Cons v vs)
  have k: "k < L" using Cons.prems by simp
  have len: "p + k < length d" using Cons.prems by (simp add: xfer_def Let_def)
  from exec_write [OF Cons.prems(1) k Cons.prems(3), of "uint v"] obtain c' where
    c': "fd_write 3 (uint v) c = Inr c'" "xfer CMD_WRITESEC (d[p + k := v]) p L (Suc k) c'"
      "img_ok (dsk (cur c'))" "img_file (dsk (cur c')) = None \<longleftrightarrow> img_file (dsk (cur c)) = None"
      "Suc k = L \<longrightarrow> img_file (dsk (cur c')) =
         (if img_file (dsk (cur c)) = None then None else Some (d[p + k := v]))" by auto
  have sp: "take (p + k) d @ v # vs @ drop (p + L) d =
      take (p + Suc k) (d[p + k := v]) @ vs @ drop (p + L) (d[p + k := v])" for vs
    using len k by (simp add: take_Suc_conv_app_nth)
  show ?case
  proof (cases "vs = []")
    case True
    then have "Suc k = L" using Cons.prems by simp
    moreover have "d[p + k := v] = take (p + k) d @ v # drop (Suc (p + k)) d"
      using len by (simp add: upd_conv_take_nth_drop)
    ultimately show ?thesis using c' True by (auto simp: xfer_def Let_def)
  next
    case False
    from Cons.IH [OF c'(2) _ c'(3) False] Cons.prems(2) c'(1,4) sp show ?thesis by auto
  qed
qed simp

subsection \<open>Sector commands\<close>

text \<open>A controller whose selected drive holds the image \<open>d\<close> in the Vector-06C format, with the
  registers set to a sector.\<close>

definition loaded :: "u8 list \<Rightarrow> FD1793 \<Rightarrow> bool" where
  "loaded d c \<longleftrightarrow> nat (fd_dsksel c) < length (disks c) \<and>
     (let f = cur c in img_data (dsk f) = d \<and> d \<noteq> [] \<and> img_ok (dsk f) \<and> sectorSize f = 1024 \<and>
        sectorsPerTrack f = 5 \<and> numHeads f = 2)"

definition at_sector :: "nat \<Rightarrow> nat \<Rightarrow> nat \<Rightarrow> FD1793 \<Rightarrow> bool" where
  "at_sector t s sec c \<longleftrightarrow> fd_track c = int t \<and> fd_side c = int s \<and> fd_sector c = int sec"

definition lba :: "nat \<Rightarrow> nat \<Rightarrow> nat \<Rightarrow> nat" where
  "lba t s sec = (t * 2 + s) * 5 + (sec - 1)"

lemma attach_loaded:
  assumes "nat (fd_dsksel c) < length (disks c)" "d \<noteq> []"
  shows "loaded d (upd_cur (attach_data d f) c)"
    and "loaded d (upd_cur (attach_file d m f) c)"
  using assms
  by (simp_all add: loaded_def attach_data_def attach_file_def FDisk_init_def parse_v06c_def
      isReady_def img_size_def Let_def)

lemma seek_sector:
  assumes "img_data (dsk f) \<noteq> []" "sectorSize f = 1024" "sectorsPerTrack f = 5" "numHeads f = 2" "1 \<le> sec"
  shows "seek (int t) (int sec) (int s) f =
    f\<lparr>position := int (lba t s sec * 1024), ftrack := int t, fside := int s\<rparr>"
  using assms by (simp add: seek_def isReady_def img_size_def lba_def Let_def of_nat_diff)

lemma command_read_sector:
  assumes "loaded d c" "at_sector t s sec c" "1 \<le> sec" "lba t s sec * 1024 + 1024 \<le> length d"
  defines "c' \<equiv> fd_command_op 0x80 c"
  shows "xfer CMD_READSEC d (lba t s sec * 1024) 1024 0 c'" "bit (fd_status c') 0"
    "bit (fd_status c') 1 = bit (fd_status c) 1" "fd_lingertime c' = LINGER_BEFORE c"
    "LINGER_AFTER c' = LINGER_AFTER c"
  unfolding c'_def using assms(1-4)
  by (simp_all add: fd_command_op_def loaded_def at_sector_def xfer_def Let_def readSector_def
      seek_sector)

lemma command_write_sector:
  assumes "loaded d c" "at_sector t s sec c" "1 \<le> sec" "lba t s sec * 1024 + 1024 \<le> length d"
  defines "c' \<equiv> fd_command_op 0xA0 c"
  shows "xfer CMD_WRITESEC d (lba t s sec * 1024) 1024 0 c'" "img_ok (dsk (cur c'))"
    "img_file (dsk (cur c')) = img_file (dsk (cur c))"
  unfolding c'_def using assms(1-4)
  by (simp_all add: fd_command_op_def loaded_def at_sector_def xfer_def Let_def writeSector_def
      seek_sector)

lemma lba_disjoint:
  assumes "s < 2" "1 \<le> sec" "sec \<le> 5" "s' < 2" "1 \<le> sec'" "sec' \<le> 5" "(t, s, sec) \<noteq> (t', s', sec')"
  shows "lba t s sec \<noteq> lba t' s' sec'"
proof
  assume eq: "lba t s sec = lba t' s' sec'"
  have "lba t s sec div 5 = t * 2 + s" "lba t' s' sec' div 5 = t' * 2 + s'"
    using assms by (simp_all add: lba_def)
  with eq have "t * 2 + s = t' * 2 + s'" by simp
  moreover from this have "t = t'" using assms by arith
  ultimately show False using eq assms by (auto simp: lba_def)
qed

lemma other_sector_kept:
  assumes "i \<noteq> j" "j * 1024 + 1024 \<le> length d" "length vs = 1024"
  shows "take 1024 (drop (i * 1024) (take (j * 1024) d @ vs @ drop (j * 1024 + 1024) d)) =
    take 1024 (drop (i * 1024) d)"
proof (cases "i < j")
  case True
  then have "i * 1024 + 1024 \<le> j * 1024" by simp
  then show ?thesis using assms by (simp add: take_drop min_def)
next
  case False
  then obtain k where k: "i * 1024 = j * 1024 + 1024 + k"
    using assms(1) by (metis add.commute le_add_diff_inverse linorder_not_less mult_Suc mult_le_mono1
        not_less_eq_eq order_le_imp_less_or_eq)
  then show ?thesis using assms by (simp add: min_def add.commute)
qed

text \<open>A controller as the constructor leaves it when every uninitialised field is zero.\<close>

definition fdisk_zero :: FDisk where
  "fdisk_zero = \<lparr>dsk = CardboardDiskImage, sectorsPerTrack = 0, sectorSize = 0, totSec = 0,
     numHeads = 0, tracksPerSide = 0, fdata = 0, ftrack = 0, fside = 0, fsector = 0, position = 0,
     readOffset = 0, readLength = 0, readSource = 0, readBuffer = []\<rparr>"

definition fd_zero :: FD1793 where
  "fd_zero = FD1793_new \<lparr>disks = [], fd_pr = 0, fd_side = 0, fd_intrq = 0, fd_data = 0,
     fd_status = 0, fd_command = 0, fd_commandtr = 0, fd_track = 0, fd_sector = 0, fd_stepdir = 0,
     fd_lingertime = 0, fd_dsksel = 0, LINGER_BEFORE = 0, LINGER_AFTER = 0, sectorcnt = 0,
     readcnt = 0\<rparr> (replicate 4 fdisk_zero)"

lemma fd_zero_fields:
  "nat (fd_dsksel fd_zero) < length (disks fd_zero)" "fd_track fd_zero = 0" "fd_side fd_zero = 0"
  "fd_status fd_zero = 0" "LINGER_BEFORE fd_zero = 0" "LINGER_AFTER fd_zero = 2"
  by (simp_all add: fd_zero_def FD1793_new_def)

definition fd_one_sector :: FD1793 where
  "fd_one_sector = (upd_cur (attach_file (replicate 1024 7) [] fdisk_zero) fd_zero)\<lparr>fd_sector := 1\<rparr>"

lemma fd_one_sector_ready:
  "loaded (replicate 1024 7) fd_one_sector" "at_sector 0 0 1 fd_one_sector"
  "\<not> bit (fd_status fd_one_sector) 1" "LINGER_BEFORE fd_one_sector \<le> LINGER_AFTER fd_one_sector"
  "0 \<le> LINGER_AFTER fd_one_sector"
proof -
  have "loaded (replicate 1024 7) (upd_cur (attach_file (replicate 1024 7) [] fdisk_zero) fd_zero)"
    by (rule attach_loaded(2)) (simp_all add: fd_zero_fields)
  then show "loaded (replicate 1024 7) fd_one_sector" 
    by (simp add: loaded_def fd_one_sector_def Let_def fd_zero_fields(1))
  show "at_sector 0 0 1 fd_one_sector" "\<not> bit (fd_status fd_one_sector) 1"
    "LINGER_BEFORE fd_one_sector \<le> LINGER_AFTER fd_one_sector" "0 \<le> LINGER_AFTER fd_one_sector"
    by (simp_all add: at_sector_def fd_one_sector_def fd_zero_fields upd_cur_def)
qed

subsection \<open>Properties\<close>

text \<open>C26: Reading a sector: after the read command and as many polls of the status register as the
  controller lingers, 1024 reads of the data port return the sector of the disk image at the track,
  side and sector of the registers, in order, and then the controller is idle and requests its
  interrupt.\<close>

theorem fdc_reads_sector:
  assumes "loaded d c" "at_sector t s sec c" "1 \<le> sec" "lba t s sec * 1024 + 1024 \<le> length d"
    "\<not> bit (fd_status c) 1" "LINGER_BEFORE c \<le> LINGER_AFTER c" "0 \<le> LINGER_AFTER c"
  shows "\<exists>c1 c2 c3. fd_write 0 0x80 c = Inr c1 \<and>
    poll (nat (LINGER_AFTER c - LINGER_BEFORE c) + 1) c1 = Inr c2 \<and>
    read_port 1024 c2 = Inr (map uint (take 1024 (drop (lba t s sec * 1024) d)), c3) \<and>
    \<not> tst_st ST_BUSY c3 \<and> \<not> tst_st ST_DRQ c3 \<and> fd_intrq c3 = PRT_INTRQ"
proof -
  define c1 where "c1 = fd_command_op 0x80 c"
  note cmd = command_read_sector [OF assms(1-4), folded c1_def]
  have "fd_lingertime c1 + int (nat (LINGER_AFTER c - LINGER_BEFORE c)) = LINGER_AFTER c1"
    "0 \<le> LINGER_AFTER c1" "\<not> bit (fd_status c1) 1" "(0 :: nat) < 1024"
    using cmd assms(5-7) by simp_all
  from poll_until_exec [OF cmd(1) this(4) cmd(2) this(3,1,2)] obtain c2 where
    c2: "poll (Suc (nat (LINGER_AFTER c - LINGER_BEFORE c))) c1 = Inr c2"
      "xfer CMD_READSEC d (lba t s sec * 1024) 1024 1 c2" "fd_data c2 = uint (d ! (lba t s sec * 1024))"
    by auto
  from read_port_rest [of d "lba t s sec * 1024" 1024 0 c2 1024] c2 obtain c3 where
    "read_port 1024 c2 = Inr (map uint (take 1024 (drop (lba t s sec * 1024) d)), c3)"
    "fd_intrq c3 = PRT_INTRQ" "\<not> bit (fd_status c3) 0" "\<not> bit (fd_status c3) 1" by auto
  then show ?thesis using c2 by (simp add: fd_write_def c1_def)
qed

theorem fdc_reads_sector_witness:
  "\<exists>c1 c2 c3. fd_write 0 0x80 fd_one_sector = Inr c1 \<and>
    poll (nat (LINGER_AFTER fd_one_sector - LINGER_BEFORE fd_one_sector) + 1) c1 = Inr c2 \<and>
    read_port 1024 c2 = Inr (map uint (take 1024 (drop (lba 0 0 1 * 1024) (replicate 1024 (7 :: u8)))), c3) \<and>
    \<not> tst_st ST_BUSY c3 \<and> \<not> tst_st ST_DRQ c3 \<and> fd_intrq c3 = PRT_INTRQ"
  by (rule fdc_reads_sector [OF fd_one_sector_ready(1,2) _ _ fd_one_sector_ready(3-5)])
    (simp_all add: lba_def)



text \<open>A sector outside the disk image: the first status poll that carries out the read command
  throws \<^verbatim>\<open>std::out_of_range\<close>, which nothing between the controller and the main loop catches.\<close>

theorem fdc_read_past_end_throws:
  assumes "loaded d c" "at_sector t s sec c" "1 \<le> sec" "length d \<le> lba t s sec * 1024"
    "\<not> bit (fd_status c) 1" "LINGER_BEFORE c = LINGER_AFTER c" "0 \<le> LINGER_AFTER c"
  shows "\<exists>c1. fd_write 0 0x80 c = Inr c1 \<and> poll 1 c1 = Inl Out_of_range"
proof -
  define c1 where "c1 = fd_command_op 0x80 c"
  have f: "nat (fd_dsksel c1) < length (disks c1)" "fd_commandtr c1 = CMD_READSEC"
    "bit (fd_status c1) 0" "\<not> bit (fd_status c1) 1" "fd_lingertime c1 = LINGER_AFTER c1"
    "0 \<le> LINGER_AFTER c1" "readOffset (cur c1) = 0" "readLength (cur c1) = 1024"
    "readSource (cur c1) = 0" "position (cur c1) = int (lba t s sec * 1024)" "img_data (dsk (cur c1)) = d"
    unfolding c1_def using assms
    by (simp_all add: fd_command_op_def loaded_def at_sector_def Let_def readSector_def seek_sector)
  have "img_get (dsk (cur c1)) (int (lba t s sec * 1024)) = Inl Out_of_range"
    using assms(1,4) f(11) by (cases "dsk (cur c1)") (auto simp: img_get_def img_size_def loaded_def Let_def)
  then have "fdisk_read (cur c1) = Inl Out_of_range"
    using f by (simp add: fdisk_read_def)
  then have "poll 1 c1 = Inl Out_of_range"
    using f by (simp add: fd_read_def fd_read_status_def fd_exec_def Let_def)
  then show ?thesis by (simp add: fd_write_def c1_def)
qed

definition fd_past_end :: FD1793 where
  "fd_past_end = fd_one_sector\<lparr>fd_sector := 2, LINGER_BEFORE := 2\<rparr>"

theorem fdc_read_past_end_throws_witness:
  "\<exists>c1. fd_write 0 0x80 fd_past_end = Inr c1 \<and> poll 1 c1 = Inl Out_of_range"
proof (rule fdc_read_past_end_throws)
  show "loaded (replicate 1024 7) fd_past_end"
    using fd_one_sector_ready(1) by (simp add: fd_past_end_def loaded_def)
  show "at_sector 0 0 2 fd_past_end"
    using fd_one_sector_ready(2) by (simp add: fd_past_end_def at_sector_def)
  show "\<not> bit (fd_status fd_past_end) 1" using fd_one_sector_ready(3) by (simp add: fd_past_end_def)
  show "LINGER_BEFORE fd_past_end = LINGER_AFTER fd_past_end" "0 \<le> LINGER_AFTER fd_past_end"
    by (simp_all add: fd_past_end_def fd_one_sector_def fd_zero_fields)
qed (simp_all add: lba_def)

end
