(* ===== verification/Vio.thy ===== *)
theory Vio
  imports Memory Timer Keyboard AY FD1793
begin

text \<open>
  The I/O ports of the Vector-06C (\<^verbatim>\<open>src/vio.h\<close>) and the tape player
  (\<^verbatim>\<open>src/wav.h\<close>, \<^verbatim>\<open>WavPlayer\<close>).  The record \<open>IO\<close> holds the registers of the two
  parallel interfaces, the palette, the pending output and the devices that the source holds by
  reference.  The callbacks (\<^verbatim>\<open>std::function\<close> members) act on an arbitrary environment
  \<open>'s\<close>; a callback that is not set is \<open>None\<close>.  Reading the floppy controller may throw and
  writing the timer may run off its array of counters, so input and output yield a result or a
  \<open>fault\<close>.  \<^verbatim>\<open>rgb2pixelformat\<close> is supplied by the display.
\<close>

subsection \<open>The tape player\<close>

record WavPlayer =
  wav_data :: "int list"
  SampleRate :: int
  playhead :: nat
  tratio :: int
  tfrac :: int
  wav_loaded :: bool

definition tape_rewind :: "WavPlayer \<Rightarrow> WavPlayer" where
  "tape_rewind w = w\<lparr>playhead := 0, tratio := 0, tfrac := 0\<rparr>"

definition tape_init :: "WavPlayer \<Rightarrow> WavPlayer res" where
  "tape_init w =
     (if SampleRate w = 0 then Inl Undefined
      else Inr (w\<lparr>tratio := 59904 * 50 div SampleRate w, tfrac := 0\<rparr>))"

text \<open>The flag of the result says whether the \<^verbatim>\<open>finished\<close> hook is called.\<close>

definition tape_advance :: "int \<Rightarrow> WavPlayer \<Rightarrow> (bool \<times> WavPlayer) res" where
  "tape_advance instruction_time w =
     (if wav_loaded w then
        (if playhead w < length (wav_data w) then
           bind_res (if tratio w = 0 then tape_init w else Inr w)
             (\<lambda>w. let w = w\<lparr>tfrac := tfrac w + instruction_time\<rparr>
                  in Inr (False, if tfrac w > tratio w
                                 then w\<lparr>tfrac := tfrac w - tratio w, playhead := playhead w + 1\<rparr> else w))
         else Inr (True, w\<lparr>wav_loaded := False\<rparr>))
      else Inr (False, w))"

definition tape_sample :: "WavPlayer \<Rightarrow> int" where
  "tape_sample w =
     (if wav_loaded w \<and> playhead w < length (wav_data w)
      then (if wav_data w ! playhead w > 0 then 1 else 0) else 0)"

subsection \<open>Ports\<close>

record 's IO =
  palette :: "u32 list"
  raw_palette :: "u8 list"
  kvaz :: "'s memory"
  kbd :: keyboard
  timer :: I8253
  fdc :: FD1793
  ayc :: ay
  tape_player :: WavPlayer
  io_CW :: u8
  io_PA :: u8
  io_PB :: u8
  io_PC :: u8
  PIA1_last :: u8
  io_CW2 :: u8
  io_PA2 :: u8
  io_PB2 :: u8
  io_PC2 :: u8
  outport :: int
  outbyte :: int
  palettebyte :: int
  onborderchange :: "int \<Rightarrow> 's \<Rightarrow> 's"
  onmodechange :: "bool \<Rightarrow> 's \<Rightarrow> 's"
  onruslat :: "(bool \<Rightarrow> 's \<Rightarrow> 's) option"
  rgb2pixelformat :: "u8 \<Rightarrow> u8 \<Rightarrow> u8 \<Rightarrow> u32"
  io_onread :: "(u32 \<Rightarrow> u8 \<Rightarrow> 's \<Rightarrow> int \<times> 's) option"
  io_onwrite :: "(u32 \<Rightarrow> u8 \<Rightarrow> 's \<Rightarrow> 's) option"

text \<open>The constructor: \<open>u\<close> holds the devices, the callbacks and the uninitialised register
  \<^verbatim>\<open>PIA1_last\<close>.\<close>

definition IO_new :: "'s IO \<Rightarrow> 's IO" where
  "IO_new u =
     u\<lparr>io_CW := 0x08, io_PA := 0xff, io_PB := 0xff, io_PC := 0xff, io_CW2 := 0, io_PA2 := 0xff,
       io_PB2 := 0xff, io_PC2 := 0xff, palette := replicate 16 0xff000000,
       raw_palette := replicate 16 0, outport := -1, outbyte := -1, palettebyte := -1\<rparr>"

fun yellowblue_loop :: "nat list \<Rightarrow> 's IO \<Rightarrow> 's IO" where
  "yellowblue_loop [] io = io"
| "yellowblue_loop (i # is) io =
     yellowblue_loop is
       (if i AND 2 \<noteq> 0
        then io\<lparr>raw_palette := (raw_palette io)[i := 45],
                palette := (palette io)[i := rgb2pixelformat io 5 5 0]\<rparr>
        else io\<lparr>raw_palette := (raw_palette io)[i := 128],
                palette := (palette io)[i := rgb2pixelformat io 0 0 2]\<rparr>)"

definition yellowblue :: "'s IO \<Rightarrow> 's IO" where
  "yellowblue io = yellowblue_loop [0..<16] io"

definition port_C :: "'s IO \<Rightarrow> u8" where
  "port_C io =
     (let pclow = (if io_CW io AND 0x01 \<noteq> 0 then 0x0b else io_PC io AND 0x0f);
          pcupp = (if io_CW io AND 0x08 \<noteq> 0
                   then push_bit 4 (word_of_int (tape_sample (tape_player io))) OR
                        (if ss (kbd io) then 0 else 0x20) OR (if us (kbd io) then 0 else 0x40) OR
                        (if rus (kbd io) then 0 else 0x80)
                   else io_PC io AND 0xf0)
      in pclow OR pcupp)"

definition fdc_in :: "bool \<Rightarrow> int \<Rightarrow> 's IO \<Rightarrow> (int \<times> 's IO) res" where
  "fdc_in nofdc addr io =
     bind_res (fd_read nofdc addr (fdc io)) (\<lambda>(v, f). Inr (v, io\<lparr>fdc := f\<rparr>))"

definition port_in :: "bool \<Rightarrow> int \<Rightarrow> 's IO \<Rightarrow> (int \<times> 's IO) res" where
  "port_in nofdc port io =
     (if port = 0x01 then Inr (uint (port_C io), io)
      else if port = 0x02 then
        Inr (uint (if io_CW io AND 0x02 \<noteq> 0 then kb_read (NOT (uint (io_PA io))) (kbd io)
                   else io_PB io), io)
      else if port = 0x03 then
        Inr (if io_CW io AND 0x10 = 0 then uint (io_PA io) else 0xff, io)
      else if port = 0x04 then Inr (uint (io_CW2 io), io)
      else if port = 0x05 then Inr (uint (io_PC2 io), io)
      else if port = 0x06 then Inr (uint (io_PB2 io), io)
      else if port = 0x07 then Inr (uint (io_PA2 io), io)
      else if port = 0x14 \<or> port = 0x15 then Inr (ay_read (port AND 1) (ayc io), io)
      else if port = 0x18 then fdc_in nofdc 3 io
      else if port = 0x19 then fdc_in nofdc 2 io
      else if port = 0x1a then fdc_in nofdc 1 io
      else if port = 0x1b then fdc_in nofdc 0 io
      else Inr (0xff, io))"

definition io_input :: "bool \<Rightarrow> int \<Rightarrow> 's IO \<times> 's \<Rightarrow> (int \<times> 's IO \<times> 's) res" where
  "io_input nofdc port iot =
     (let (io, t) = iot
      in if port = 0x08 \<or> port = 0x09 \<or> port = 0x0a \<or> port = 0x0b then
           (let (v, tm) = timer_read (NOT (port AND 3)) (timer io) in Inr (v, io\<lparr>timer := tm\<rparr>, t))
         else bind_res (port_in nofdc port io)
           (\<lambda>(result, io).
              case io_onread io of None \<Rightarrow> Inr (result, io, t)
              | Some hook \<Rightarrow>
                  (let (hookresult, t) = hook (word_of_int port) (word_of_int result) t
                   in Inr (if hookresult \<noteq> -1 then hookresult else result, io, t))))"

definition io_output :: "int \<Rightarrow> int \<Rightarrow> 's IO \<times> 's \<Rightarrow> 's IO \<times> 's" where
  "io_output port w8 iot =
     (let (io, t) = iot;
          t = (case io_onwrite io of None \<Rightarrow> t | Some f \<Rightarrow> f (word_of_int port) (word_of_int w8) t)
      in (io\<lparr>outport := port, outbyte := w8\<rparr>, t))"

text \<open>\<^verbatim>\<open>bool ruslat = PC & 8\<close> is 0 or 1, and is then compared with \<^verbatim>\<open>PC & 8\<close>, 0 or 8.\<close>

definition ruslat_changed :: "u8 \<Rightarrow> 's IO \<times> 's \<Rightarrow> 's IO \<times> 's" where
  "ruslat_changed old iot =
     (let (io, t) = iot; ruslat = (if old AND 8 \<noteq> 0 then 1 else 0 :: u8)
      in case onruslat io of
           Some f \<Rightarrow> if io_PC io AND 8 \<noteq> ruslat then (io, f (io_PC io AND 8 = 0) t) else (io, t)
         | None \<Rightarrow> (io, t))"

definition out_01 :: "u8 \<Rightarrow> 's IO \<times> 's \<Rightarrow> 's IO \<times> 's" where
  "out_01 w8 iot =
     (let (io, t) = iot in ruslat_changed (io_PC io) (io\<lparr>PIA1_last := w8, io_PC := w8\<rparr>, t))"

definition out_02 :: "u8 \<Rightarrow> 's IO \<times> 's \<Rightarrow> 's IO \<times> 's" where
  "out_02 w8 iot =
     (let (io, t) = iot; io = io\<lparr>PIA1_last := w8, io_PB := w8\<rparr>;
          t = onborderchange io (uint (io_PB io AND 0x0f)) t;
          t = onmodechange io (io_PB io AND 0x10 \<noteq> 0) t
      in (io, t))"

definition out_03 :: "u8 \<Rightarrow> 's IO \<times> 's \<Rightarrow> 's IO \<times> 's" where
  "out_03 w8 iot = (let (io, t) = iot in (io\<lparr>PIA1_last := w8, io_PA := w8\<rparr>, t))"

definition out_00 :: "u8 \<Rightarrow> 's IO \<times> 's \<Rightarrow> 's IO \<times> 's" where
  "out_00 w8 iot =
     (let (io, t) = iot; old = io_PC io; io = io\<lparr>PIA1_last := w8\<rparr>;
          iot = (if w8 AND 0x80 = 0
                 then (let b = unat (drop_bit 1 w8 AND 7)
                       in (io\<lparr>io_PC := (if w8 AND 1 = 1 then io_PC io OR push_bit b 1
                                         else io_PC io AND NOT (push_bit b 1))\<rparr>, t))
                 else out_03 0 (out_02 0 (out_01 0 (io\<lparr>io_CW := w8\<rparr>, t))))
      in ruslat_changed old iot)"

definition fdc_out :: "int \<Rightarrow> u8 \<Rightarrow> 's IO \<Rightarrow> 's IO res" where
  "fdc_out addr w8 io = bind_res (fd_write addr (uint w8) (fdc io)) (\<lambda>f. Inr (io\<lparr>fdc := f\<rparr>))"

definition realoutput :: "int \<Rightarrow> u8 \<Rightarrow> 's IO \<times> 's \<Rightarrow> ('s IO \<times> 's) res" where
  "realoutput port w8 iot =
     (let (io, t) = iot
      in if port = 0x00 then Inr (out_00 w8 (io, t))
         else if port = 0x01 then Inr (out_01 w8 (io, t))
         else if port = 0x02 then Inr (out_02 w8 (io, t))
         else if port = 0x03 then Inr (out_03 w8 (io, t))
         else if port = 0x04 then Inr (io\<lparr>io_CW2 := w8\<rparr>, t)
         else if port = 0x05 then Inr (io\<lparr>io_PC2 := w8\<rparr>, t)
         else if port = 0x06 then Inr (io\<lparr>io_PB2 := w8\<rparr>, t)
         else if port = 0x07 then Inr (io\<lparr>io_PA2 := w8\<rparr>, t)
         else if port = 0x08 \<or> port = 0x09 \<or> port = 0x0a \<or> port = 0x0b then
           (case timer_write (NOT port AND 3) w8 (timer io) of None \<Rightarrow> Inl Undefined
            | Some tm \<Rightarrow> Inr (io\<lparr>timer := tm\<rparr>, t))
         else if port = 0x0c \<or> port = 0x0d \<or> port = 0x0e \<or> port = 0x0f then
           Inr (io\<lparr>palettebyte := uint w8\<rparr>, t)
         else if port = 0x10 then Inr (io\<lparr>kvaz := control_write w8 (kvaz io)\<rparr>, t)
         else if port = 0x14 \<or> port = 0x15 then
           Inr (io\<lparr>ayc := ay_write (port AND 1) (uint w8) (ayc io)\<rparr>, t)
         else if port = 0x18 then map_sum id (\<lambda>io. (io, t)) (fdc_out 3 w8 io)
         else if port = 0x19 then map_sum id (\<lambda>io. (io, t)) (fdc_out 2 w8 io)
         else if port = 0x1a then map_sum id (\<lambda>io. (io, t)) (fdc_out 1 w8 io)
         else if port = 0x1b then map_sum id (\<lambda>io. (io, t)) (fdc_out 0 w8 io)
         else if port = 0x1c then map_sum id (\<lambda>io. (io, t)) (fdc_out 4 w8 io)
         else Inr (io, t))"

definition commit :: "'s IO \<times> 's \<Rightarrow> ('s IO \<times> 's) res" where
  "commit iot =
     (let (io, t) = iot
      in if outport io \<noteq> -1
         then bind_res (realoutput (outport io) (word_of_int (outbyte io)) (io, t))
                (\<lambda>(io, t). Inr (io\<lparr>outport := -1, outbyte := -1\<rparr>, t))
         else Inr (io, t))"

definition commit_palette :: "nat \<Rightarrow> 's IO \<Rightarrow> 's IO" where
  "commit_palette index io =
     (let w8 = palettebyte io;
          (w8, io) = (if w8 = -1 \<and> outport io = 0x0c
                      then (outbyte io, io\<lparr>outport := -1, outbyte := -1\<rparr>) else (w8, io))
      in if w8 \<noteq> -1 then
           (let b = drop_bit 6 (w8 AND 0xc0); g = drop_bit 3 (w8 AND 0x38); r = w8 AND 0x07
            in io\<lparr>raw_palette := (raw_palette io)[index := word_of_int (w8 AND 0xff)],
                 palette := (palette io)[index :=
                   rgb2pixelformat io (word_of_int r) (word_of_int g) (word_of_int b)],
                 palettebyte := -1\<rparr>)
         else io)"

definition BorderIndex :: "'s IO \<Rightarrow> int" where "BorderIndex io = uint (io_PB io AND 0x0f)"
definition ScrollStart :: "'s IO \<Rightarrow> int" where "ScrollStart io = uint (io_PA io)"
definition Mode512 :: "'s IO \<Rightarrow> bool" where "Mode512 io \<longleftrightarrow> io_PB io AND 0x10 \<noteq> 0"
definition TapeOut :: "'s IO \<Rightarrow> int" where "TapeOut io = uint (io_PC io AND 1)"
definition Covox :: "'s IO \<Rightarrow> int" where "Covox io = uint (io_PA2 io)"
definition Palette :: "'s IO \<Rightarrow> nat \<Rightarrow> u32" where "Palette io index = palette io ! index"
definition RawPaletteByte :: "'s IO \<Rightarrow> nat \<Rightarrow> u8" where
  "RawPaletteByte io index = raw_palette io ! (index AND 0x0f)"

subsection \<open>Saved states\<close>

definition io_payload :: "'s IO \<Rightarrow> u8 list" where
  "io_payload io = concat (map le32 (palette io)) @
     [io_CW io, io_PA io, io_PB io, io_PC io, PIA1_last io, io_CW2 io, io_PA2 io, io_PB2 io, io_PC2 io]"

definition io_serialize :: "'s IO \<Rightarrow> u8 list \<Rightarrow> u8 list" where
  "io_serialize io to = insert_chunk to ID_IO (io_payload io)"

fun take_palette :: "nat \<Rightarrow> u8 list \<Rightarrow> (u32 list \<times> u8 list) option" where
  "take_palette 0 it = Some ([], it)"
| "take_palette (Suc n) it =
     (case un_le32 it of None \<Rightarrow> None
      | Some (w, it) \<Rightarrow> map_option (\<lambda>(ws, it). (w # ws, it)) (take_palette n it))"

definition io_deserialize :: "u8 list \<Rightarrow> 's IO \<Rightarrow> 's IO option" where
  "io_deserialize it io =
     (case take_palette 16 it of
        Some (ws, cw # pa # pb # pc # pl # cw2 # pa2 # pb2 # pc2 # _) \<Rightarrow>
          Some (io\<lparr>palette := ws, io_CW := cw, io_PA := pa, io_PB := pb, io_PC := pc,
                   PIA1_last := pl, io_CW2 := cw2, io_PA2 := pa2, io_PB2 := pb2, io_PC2 := pc2\<rparr>)
      | _ \<Rightarrow> None)"

lemma take_palette_le32: "take_palette (length ws) (concat (map le32 ws) @ it) = Some (ws, it)"
  by (induction ws) simp_all

lemma io_deserialize_payload:
  assumes "length (palette io) = 16"
  shows "io_deserialize (io_payload io @ rest) io0 =
    Some (io0\<lparr>palette := palette io, io_CW := io_CW io, io_PA := io_PA io, io_PB := io_PB io,
      io_PC := io_PC io, PIA1_last := PIA1_last io, io_CW2 := io_CW2 io, io_PA2 := io_PA2 io,
      io_PB2 := io_PB2 io, io_PC2 := io_PC2 io\<rparr>)"
  using take_palette_le32 [of "palette io"] assms
  by (simp add: io_deserialize_def io_payload_def)

subsection \<open>What an output changes\<close>

lemma ruslat_changed_fst [simp]: "fst (ruslat_changed old iot) = fst iot"
  by (simp add: ruslat_changed_def Let_def split: option.splits prod.splits)

lemma out_00_bsr:
  fixes w8 :: u8
  assumes "\<not> bit w8 7"
  shows "fst (out_00 w8 (io, t)) = io\<lparr>PIA1_last := w8, io_PC :=
    (if bit w8 0 then io_PC io OR push_bit (unat (drop_bit 1 w8 AND 7)) 1
     else io_PC io AND NOT (push_bit (unat (drop_bit 1 w8 AND 7)) 1))\<rparr>"
proof -
  have "w8 AND 0x80 = 0" using assms and_exp_eq_0_iff_not_bit [of w8 7] by simp
  moreover have "(w8 AND 1 = 1) = bit w8 0" by (simp add: and_one_eq bit_0 odd_iff_mod_2_eq_one)
  ultimately show ?thesis by (simp add: out_00_def Let_def)
qed

lemma commit_output:
  "commit (io_output p v (io, t)) =
    bind_res (realoutput p (word_of_int v) (io_output p v (io, t)))
      (\<lambda>(io, t). Inr (io\<lparr>outport := -1, outbyte := -1\<rparr>, t))" if "p \<noteq> -1"
  using that by (simp add: commit_def io_output_def Let_def)

text \<open>A machine at power-on without callbacks, with every uninitialised field zero.\<close>

definition wav_zero :: WavPlayer where
  "wav_zero = \<lparr>wav_data = [], SampleRate = 0, playhead = 0, tratio = 0, tfrac = 0, wav_loaded = False\<rparr>"

definition io_power_on :: "unit IO" where
  "io_power_on = IO_new \<lparr>palette = [], raw_palette = [], kvaz = memory_init, kbd = Keyboard_new,
     timer = \<lparr>counters = replicate 3 (CounterUnit_new 0 0 0 0), control_word = 0\<rparr>,
     fdc = fd_zero, ayc = ay_init, tape_player = wav_zero,
     io_CW = 0, io_PA = 0, io_PB = 0, io_PC = 0, PIA1_last = 0, io_CW2 = 0, io_PA2 = 0, io_PB2 = 0,
     io_PC2 = 0, outport = 0, outbyte = 0, palettebyte = 0, onborderchange = (\<lambda>_ t. t),
     onmodechange = (\<lambda>_ t. t), onruslat = None, rgb2pixelformat = (\<lambda>r g b. ucast r),
     io_onread = None, io_onwrite = None\<rparr>"

subsection \<open>Properties\<close>

text \<open>The bit set/reset command of the parallel interface, the whole way from the CPU's output to
  the commit: exactly the named bit of port C changes, to the value of bit 0 of the command.\<close>

theorem port_c_bit_set_reset:
  fixes w8 :: u8
  assumes "\<not> bit w8 7"
  shows "\<exists>io' t'. commit (io_output 0 (uint w8) (io, t)) = Inr (io', t') \<and>
    (\<forall>n < 8. bit (io_PC io') n =
      (if n = unat (drop_bit 1 w8 AND 7) then bit w8 0 else bit (io_PC io) n)) \<and>
    io_PA io' = io_PA io \<and> io_PB io' = io_PB io \<and> io_CW io' = io_CW io"
proof -
  obtain t1 where o: "io_output 0 (uint w8) (io, t) = (io\<lparr>outport := 0, outbyte := uint w8\<rparr>, t1)"
    by (simp add: io_output_def Let_def)
  have fst: "fst (out_00 w8 (io\<lparr>outport := 0, outbyte := uint w8\<rparr>, t1)) =
    io\<lparr>outport := 0, outbyte := uint w8, PIA1_last := w8, io_PC :=
      (if bit w8 0 then io_PC io OR push_bit (unat (drop_bit 1 w8 AND 7)) 1
       else io_PC io AND NOT (push_bit (unat (drop_bit 1 w8 AND 7)) 1))\<rparr>"
    using out_00_bsr [OF assms, of "io\<lparr>outport := 0, outbyte := uint w8\<rparr>" t1] by simp
  obtain t' where "out_00 w8 (io\<lparr>outport := 0, outbyte := uint w8\<rparr>, t1) =
    (io\<lparr>outport := 0, outbyte := uint w8, PIA1_last := w8, io_PC :=
      (if bit w8 0 then io_PC io OR push_bit (unat (drop_bit 1 w8 AND 7)) 1
       else io_PC io AND NOT (push_bit (unat (drop_bit 1 w8 AND 7)) 1))\<rparr>, t')"
    using fst by (metis prod.collapse)
  then show ?thesis
    by (simp add: commit_def o realoutput_def Let_def) (auto simp: bit_simps)
qed

theorem port_c_bit_set_reset_witness:
  "\<exists>io' t'. commit (io_output 0 (uint (0x0d :: u8)) (io_power_on, ())) = Inr (io', t') \<and>
    (\<forall>n < 8. bit (io_PC io') n =
      (if n = unat (drop_bit 1 (0x0d :: u8) AND 7) then bit (0x0d :: u8) 0 else bit (io_PC io_power_on) n)) \<and>
    io_PA io' = io_PA io_power_on \<and> io_PB io' = io_PB io_power_on \<and> io_CW io' = io_CW io_power_on"
  by (rule port_c_bit_set_reset) simp

text \<open>Saving the I/O state and loading it restores the palette and every register of the two
  parallel interfaces.\<close>

theorem io_state_round_trip:
  assumes "length (palette io) = 16"
  shows "io_deserialize (io_payload io @ rest) io0 =
    Some (io0\<lparr>palette := palette io, io_CW := io_CW io, io_PA := io_PA io, io_PB := io_PB io,
      io_PC := io_PC io, PIA1_last := PIA1_last io, io_CW2 := io_CW2 io, io_PA2 := io_PA2 io,
      io_PB2 := io_PB2 io, io_PC2 := io_PC2 io\<rparr>)"
  by (rule io_deserialize_payload [OF assms])

theorem io_state_round_trip_witness:
  "let io = io_power_on; io0 = io_power_on in io_deserialize (io_payload io @ []) io0 =
    Some (io0\<lparr>palette := palette io, io_CW := io_CW io, io_PA := io_PA io, io_PB := io_PB io,
      io_PC := io_PC io, PIA1_last := PIA1_last io, io_CW2 := io_CW2 io, io_PA2 := io_PA2 io,
      io_PB2 := io_PB2 io, io_PC2 := io_PC2 io\<rparr>)"
  unfolding Let_def by (rule io_state_round_trip) (simp add: io_power_on_def IO_new_def)

text \<open>A program that writes a timer control word naming the fourth counter makes the emulator
  index past its array of three counters.\<close>

theorem timer_fourth_counter_out_of_bounds:
  assumes "length (counters (timer io)) = 3" "bit w8 7" "bit w8 6"
  shows "realoutput 0x08 w8 (io, t) = Inl Undefined"
proof -
  have "drop_bit 6 w8 AND 3 = 3"
  proof (rule bit_word_eqI)
    fix n assume "n < LENGTH(8)"
    have three: "(3 :: u8) = mask 2" by (simp add: mask_eq_exp_minus_1)
    show "bit (drop_bit 6 w8 AND 3) n = bit (3 :: u8) n"
      using assms(2,3) unfolding three by (auto simp: bit_simps less_2_cases_iff)
  qed
  then show ?thesis using assms(1) by (simp add: realoutput_def timer_write_def timer_write_cw_def Let_def)
qed

theorem timer_fourth_counter_out_of_bounds_witness:
  "realoutput 0x08 0xff (io_power_on, ()) = Inl Undefined"
  by (rule timer_fourth_counter_out_of_bounds) (simp_all add: io_power_on_def IO_new_def)

end
