(* ===== verification/Filler.thy ===== *)
theory Filler
  imports Vio
begin

text \<open>
  The raster (\<^verbatim>\<open>src/filler.h\<close>, \<^verbatim>\<open>src/filler.cpp\<close>): two pixels per step it fetches bit
  planes from video memory, commits pending port writes at their exact clock, stores the visible
  pixels and keeps the beam position, the frame interrupt and the end of the frame.  The pixel
  buffer is a function from offsets; that every store lies inside a buffer of the screen's size is
  a theorem.  The border colour and the 512-pixel mode, which the ports set through callbacks, are
  the record \<open>vid\<close>, extended by whatever else the environment of the ports holds.  The build
  option \<^verbatim>\<open>USE_BIT_PERMUTE\<close> selects another way to extract the pixels; its definitions are
  given separately and shown equivalent.
\<close>

record vid =
  border_index :: int
  mode512 :: bool

record PixelFiller =
  raster_pixel :: int
  raster_line :: int
  fb_column :: int
  fb_row :: int
  vborder :: bool
  visible :: bool
  bmpofs :: nat
  first_visible_line :: int
  center_offset :: int
  screen_width :: int
  pixel32 :: u32
  pixels :: "nat \<Rightarrow> u32"
  fill1_count :: int
  fill2_count :: int
  brk :: bool
  firq :: bool
  irq_clk :: int

type_synonym 'a raster = "PixelFiller \<times> 'a vid_scheme IO \<times> 'a vid_scheme"

definition filler_reset :: "(nat \<Rightarrow> u32) \<Rightarrow> PixelFiller \<Rightarrow> PixelFiller" where
  "filler_reset buf f =
     f\<lparr>raster_line := 0, fb_column := 0, fb_row := 0, vborder := True, visible := False,
       bmpofs := 0, brk := False, firq := False, pixels := buf\<rparr>"

text \<open>The constructor and the callbacks it installs; \<open>u\<close> holds the uninitialised fields.\<close>

definition PixelFiller_new :: "PixelFiller \<Rightarrow> (nat \<Rightarrow> u32) \<Rightarrow> PixelFiller" where
  "PixelFiller_new u buf = filler_reset buf (u\<lparr>pixel32 := 0, raster_pixel := 0\<rparr>)"

definition install_callbacks :: "'a vid_scheme IO \<Rightarrow> 'a vid_scheme IO" where
  "install_callbacks io =
     io\<lparr>onborderchange := (\<lambda>border t. t\<lparr>border_index := border\<rparr>),
        onmodechange := (\<lambda>mode t. t\<lparr>mode512 := mode\<rparr>)\<rparr>"

definition filler_init :: "int \<Rightarrow> int \<Rightarrow> int \<Rightarrow> PixelFiller \<Rightarrow> PixelFiller" where
  "filler_init screen_height center width f =
     f\<lparr>first_visible_line := 312 - screen_height, center_offset := center, screen_width := width\<rparr>"

text \<open>One 32-bit word of the memory array, as the little-endian host reads it.\<close>

definition mem32 :: "'s memory \<Rightarrow> nat \<Rightarrow> u32" where
  "mem32 m i =
     ucast (bytes m (word_of_nat (4 * i))) OR push_bit 8 (ucast (bytes m (word_of_nat (4 * i + 1)))) OR
     push_bit 16 (ucast (bytes m (word_of_nat (4 * i + 2)))) OR
     push_bit 24 (ucast (bytes m (word_of_nat (4 * i + 3))))"

definition fetchPixels :: "'s memory \<Rightarrow> PixelFiller \<Rightarrow> PixelFiller" where
  "fetchPixels m f =
     (let addr = nat (push_bit 8 (fb_column f AND 0xff) OR (fb_row f AND 0xff))
      in f\<lparr>pixel32 := mem32 m (0x2000 + addr)\<rparr>)"

definition modeless :: "u32 \<Rightarrow> u32" where
  "modeless p = (drop_bit 4 p AND 8) OR (drop_bit 13 p AND 4) OR (drop_bit 22 p AND 2) OR
     (drop_bit 31 p AND 1)"

definition shiftOutPixels :: "PixelFiller \<Rightarrow> nat \<times> PixelFiller" where
  "shiftOutPixels f = (unat (modeless (pixel32 f)), f\<lparr>pixel32 := push_bit 1 (pixel32 f)\<rparr>)"

definition getColorIndex :: "int \<Rightarrow> bool \<Rightarrow> 'a raster \<Rightarrow> nat \<times> PixelFiller" where
  "getColorIndex rpixel border r =
     (let (f, io, t) = r
      in if border then (nat (border_index t), f\<lparr>fb_column := 0\<rparr>)
         else (let f = (if rpixel AND 0x0f = 0
                        then (let f = fetchPixels (kvaz io) f in f\<lparr>fb_column := fb_column f + 1\<rparr>) else f)
               in shiftOutPixels f))"

definition advanceLine :: "bool \<Rightarrow> PixelFiller \<Rightarrow> PixelFiller" where
  "advanceLine updateScreen f =
     (let f = f\<lparr>raster_pixel := 0, raster_line := raster_line f + 1, fb_row := fb_row f - 1\<rparr>;
          f = (if \<not> vborder f \<and> fb_row f < 0 then f\<lparr>fb_row := 0xff\<rparr> else f);
          f = f\<lparr>vborder := (raster_line f < 40 \<or> raster_line f \<ge> 40 + 256)\<rparr>;
          f = f\<lparr>visible := (visible f \<or> (updateScreen \<and> raster_line f = first_visible_line f))\<rparr>
      in if raster_line f = 312 then f\<lparr>raster_line := 0, visible := False, brk := True\<rparr> else f)"

definition put_pixel :: "u32 \<Rightarrow> PixelFiller \<Rightarrow> PixelFiller" where
  "put_pixel p f = f\<lparr>pixels := (pixels f)(bmpofs f := p), bmpofs := bmpofs f + 1\<rparr>"

definition is_border :: "int \<Rightarrow> PixelFiller \<Rightarrow> bool" where
  "is_border rpixel f \<longleftrightarrow> vborder f \<or> rpixel < (768 - 512) div 2 \<or> rpixel \<ge> 768 - (768 - 512) div 2"

text \<open>The commits of port and palette writes at clock \<open>clk\<close>.\<close>

definition commits :: "int \<Rightarrow> int \<Rightarrow> int \<Rightarrow> nat \<Rightarrow> 'a raster \<Rightarrow> 'a raster res" where
  "commits clk commit_time commit_time_pal index r =
     (let (f, io, t) = r
      in bind_res (if clk = commit_time then commit (io, t) else Inr (io, t))
        (\<lambda>(io, t). Inr (f, if clk = commit_time_pal then commit_palette index io else io, t)))"

definition plot :: "nat \<Rightarrow> bool \<Rightarrow> 'a raster \<Rightarrow> PixelFiller" where
  "plot index border r =
     (let (f, io, t) = r; bmp_x = raster_pixel f - center_offset f
      in if visible f \<and> bmp_x \<ge> 0 \<and> bmp_x < screen_width f then
           (if mode512 t \<and> \<not> border
            then put_pixel (Palette io (index AND 0x0c)) (put_pixel (Palette io (index AND 0x03)) f)
            else (let p = Palette io index in put_pixel p (put_pixel p f)))
         else f)"

text \<open>The end of a step: the beam moves on, the scroll register is loaded, the interrupt is raised.\<close>

definition beam :: "bool \<Rightarrow> int \<Rightarrow> 'a vid_scheme IO \<Rightarrow> PixelFiller \<Rightarrow> PixelFiller" where
  "beam updateScreen clk io f =
     (let f = f\<lparr>raster_pixel := raster_pixel f + 2\<rparr>;
          f = (if raster_pixel f = 768 then advanceLine updateScreen f else f)
      in if raster_line f = 22 + 18 \<and> raster_pixel f = 150 then f\<lparr>fb_row := ScrollStart io\<rparr>
         else if raster_line f = 0 \<and> raster_pixel f = 174 then f\<lparr>firq := True, irq_clk := clk\<rparr>
         else f)"

definition fill_step ::
  "int \<Rightarrow> int \<Rightarrow> bool \<Rightarrow> int \<Rightarrow> 'a raster \<Rightarrow> (nat \<times> 'a raster) res" where
  "fill_step commit_time commit_time_pal updateScreen clk r =
     (let (f, io, t) = r; rpixel = raster_pixel f - 24; border = is_border rpixel f;
          (index, f) = getColorIndex rpixel border (f, io, t)
      in bind_res (commits clk commit_time commit_time_pal index (f, io, t))
        (\<lambda>(f, io, t). Inr (index, beam updateScreen clk io (plot index border (f, io, t)), io, t)))"

function fill1_loop ::
  "int \<Rightarrow> int \<Rightarrow> int \<Rightarrow> bool \<Rightarrow> int \<Rightarrow> int \<Rightarrow> nat \<Rightarrow> 'a raster \<Rightarrow> (int \<times> int \<times> nat \<times> 'a raster) res"
where
  "fill1_loop clocks commit_time commit_time_pal updateScreen clk afterbrk index r =
     (if clk < clocks then
        bind_res (fill_step commit_time commit_time_pal updateScreen clk r)
          (\<lambda>(index, r). fill1_loop clocks commit_time commit_time_pal updateScreen (clk + 2)
             (afterbrk + (if brk (fst r) then 2 else 0)) index r)
      else Inr (clk, afterbrk, index, r))"
  by pat_completeness auto
termination by (relation "measure (\<lambda>(clocks, _, _, _, clk, _). nat (clocks - clk))") auto

definition fill1 :: "int \<Rightarrow> int \<Rightarrow> int \<Rightarrow> bool \<Rightarrow> 'a raster \<Rightarrow> (int \<times> 'a raster) res" where
  "fill1 clocks commit_time commit_time_pal updateScreen r =
     bind_res (fill1_loop clocks commit_time commit_time_pal updateScreen 0 0 0 r)
       (\<lambda>(clk, afterbrk, index, r).
          bind_res (commits clk commit_time commit_time_pal index r)
            (\<lambda>r. Inr (if afterbrk \<noteq> 0 then afterbrk - 2 else afterbrk, r)))"

subsection \<open>The fast paths\<close>

definition pixel_pair :: "bool \<Rightarrow> int \<Rightarrow> 'a raster \<Rightarrow> 'a raster" where
  "pixel_pair wide rpixel r =
     (let (index, f) = getColorIndex rpixel False r; io = fst (snd r)
      in (if wide
          then put_pixel (Palette io (index AND 0x0c)) (put_pixel (Palette io (index AND 0x03)) f)
          else put_pixel (Palette io index) (put_pixel (Palette io index) f), snd r))"

fun eight_pairs :: "nat \<Rightarrow> bool \<Rightarrow> int \<Rightarrow> 'a raster \<Rightarrow> int \<times> 'a raster" where
  "eight_pairs 0 wide rpixel r = (rpixel, r)"
| "eight_pairs (Suc n) wide rpixel r = eight_pairs n wide (rpixel + 2) (pixel_pair wide rpixel r)"

function fill23_loop :: "bool \<Rightarrow> int \<Rightarrow> int \<Rightarrow> int \<Rightarrow> 'a raster \<Rightarrow> 'a raster" where
  "fill23_loop wide clocks clk rpixel r =
     (if clk < clocks
      then (let (rpixel, r) = eight_pairs 8 wide rpixel r in fill23_loop wide clocks (clk + 16) rpixel r)
      else r)"
  by pat_completeness auto
termination by (relation "measure (\<lambda>(_, clocks, clk, _). nat (clocks - clk))") auto

definition fill2 :: "int \<Rightarrow> 'a raster \<Rightarrow> int \<times> 'a raster" where
  "fill2 clocks r =
     (let (f, iot) = r
      in (0, fill23_loop False clocks 0 (raster_pixel f - 24)
               (f\<lparr>raster_pixel := raster_pixel f + clocks\<rparr>, iot)))"

definition fill3 :: "int \<Rightarrow> 'a raster \<Rightarrow> int \<times> 'a raster" where
  "fill3 clocks r =
     (let (f, iot) = r
      in (0, fill23_loop True clocks 0 (raster_pixel f - 24)
               (f\<lparr>raster_pixel := raster_pixel f + clocks\<rparr>, iot)))"

function fill4_loop :: "int \<Rightarrow> int \<Rightarrow> u32 \<Rightarrow> PixelFiller \<Rightarrow> PixelFiller" where
  "fill4_loop clocks clk p f =
     (if clk < clocks then fill4_loop clocks (clk + 16) p ((put_pixel p ^^ 16) f) else f)"
  by pat_completeness auto
termination by (relation "measure (\<lambda>(clocks, clk, _). nat (clocks - clk))") auto

definition fill4 :: "int \<Rightarrow> 'a raster \<Rightarrow> int \<times> 'a raster" where
  "fill4 clocks r =
     (let (f, io, t) = r; f = f\<lparr>raster_pixel := raster_pixel f + clocks\<rparr>;
          (index, f) = getColorIndex 0 True (f, io, t)
      in (0, fill4_loop clocks 0 (Palette io index) f, io, t))"

definition fill :: "int \<Rightarrow> int \<Rightarrow> int \<Rightarrow> bool \<Rightarrow> 'a raster \<Rightarrow> (int \<times> 'a raster) res" where
  "fill clocks commit_time commit_time_pal updateScreen r =
     (let (f, io, t) = r
      in if commit_time \<noteq> 0 \<or> commit_time_pal \<noteq> 0 \<or> raster_line f = 22 + 18 \<or> raster_line f = 0 \<or>
            raster_line f = 311 \<or> raster_pixel f \<le> (768 - 512) div 2 + clocks \<or>
            raster_pixel f + clocks \<ge> 768 - (768 - 512) div 2
         then fill1 clocks commit_time commit_time_pal updateScreen
                (f\<lparr>fill1_count := fill1_count f + clocks\<rparr>, io, t)
         else (let f = f\<lparr>fill2_count := fill2_count f + clocks\<rparr>
               in if \<not> visible f then Inr (0, f\<lparr>raster_pixel := raster_pixel f + clocks\<rparr>, io, t)
                  else if vborder f then Inr (fill4 clocks (f, io, t))
                  else if mode512 t then Inr (fill3 clocks (f, io, t))
                  else Inr (fill2 clocks (f, io, t))))"

declare fill1_loop.simps [simp del] fill23_loop.simps [simp del] fill4_loop.simps [simp del]

subsection \<open>The alternative pixel extraction\<close>

definition bit_permute_step :: "u32 \<Rightarrow> u32 \<Rightarrow> nat \<Rightarrow> u32" where
  "bit_permute_step x m shift =
     (let t = (drop_bit shift x XOR x) AND m in (x XOR t) XOR push_bit shift t)"

definition group_pixels :: "u32 \<Rightarrow> u32" where
  "group_pixels x =
     bit_permute_step (bit_permute_step (bit_permute_step (bit_permute_step x 0x00550055 9)
       0x00003333 18) 0x000f000f 12) 0x000000ff 24"

text \<open>The \<open>n\<close>-th pixel shifted out by either variant.\<close>

definition planar_pixel :: "u32 \<Rightarrow> nat \<Rightarrow> u32" where
  "planar_pixel p n = modeless ((push_bit 1 ^^ n) p)"

definition grouped_pixel :: "u32 \<Rightarrow> nat \<Rightarrow> u32" where
  "grouped_pixel p n = drop_bit 28 ((push_bit 4 ^^ n) (group_pixels p))"

text \<open>A step with disjoint masks swaps pairs of bits: where each bit of the result comes from.\<close>

definition swap_source :: "int \<Rightarrow> nat \<Rightarrow> nat \<Rightarrow> nat" where
  "swap_source m shift i =
     (if bit m i then i + shift else if shift \<le> i \<and> bit m (i - shift) then i - shift else i)"

definition bits32 :: "nat list" where
  "bits32 = [0, 1, 2, 3, 4, 5, 6, 7, 8, 9, 10, 11, 12, 13, 14, 15,
             16, 17, 18, 19, 20, 21, 22, 23, 24, 25, 26, 27, 28, 29, 30, 31]"

lemma bits32: "i < 32 \<Longrightarrow> i \<in> set bits32"
proof -
  have e: "bits32 = [0..<32]" by (simp add: bits32_def upt_rec)
  show "i < 32 \<Longrightarrow> i \<in> set bits32" unfolding e set_upt by simp
qed

definition mask_ok :: "int \<Rightarrow> nat \<Rightarrow> bool" where
  "mask_ok m shift \<longleftrightarrow> list_all (\<lambda>i. bit m i \<longrightarrow> i + shift < 32 \<and>
     \<not> (shift \<le> i \<and> bit m (i - shift))) bits32"

lemma bit_bit_permute_step:
  assumes "i < 32" "mask_ok m shift"
  shows "bit (bit_permute_step x (word_of_int m) shift) i = bit x (swap_source m shift i)"
  using assms bits32 [OF assms(1)]
  by (auto simp: bit_permute_step_def Let_def bit_simps add.commute mask_ok_def list_all_iff
      swap_source_def)

definition permute_source :: "nat \<Rightarrow> nat" where
  "permute_source i = 8 * (3 - i mod 4) + i div 4"

lemma permute_sources:
  "list_all (\<lambda>i. swap_source 0xff 24 i < 32 \<and> swap_source 0xf000f 12 (swap_source 0xff 24 i) < 32 \<and>
     swap_source 0x3333 18 (swap_source 0xf000f 12 (swap_source 0xff 24 i)) < 32 \<and>
     swap_source 0x550055 9 (swap_source 0x3333 18 (swap_source 0xf000f 12 (swap_source 0xff 24 i))) =
       permute_source i) bits32"
  by (simp add: bits32_def swap_source_def permute_source_def)

lemma masks_ok: "mask_ok 0xff 24" "mask_ok 0xf000f 12" "mask_ok 0x3333 18" "mask_ok 0x550055 9"
  by (simp_all add: mask_ok_def bits32_def)

lemma bit_group_pixels:
  assumes "i < 32"
  shows "bit (group_pixels x) i = bit x (permute_source i)"
proof -
  have "bit (bit_permute_step x (word_of_int 0xff) 24) i = bit x (swap_source 0xff 24 i)"
    "bit (bit_permute_step x (word_of_int 0xf000f) 12) i = bit x (swap_source 0xf000f 12 i)"
    "bit (bit_permute_step x (word_of_int 0x3333) 18) i = bit x (swap_source 0x3333 18 i)"
    "bit (bit_permute_step x (word_of_int 0x550055) 9) i = bit x (swap_source 0x550055 9 i)"
    if "i < 32" for x i
    using bit_bit_permute_step [OF that] masks_ok by blast+
  then show ?thesis
    using permute_sources bits32 [OF assms] assms by (simp add: group_pixels_def list_all_iff)
qed

lemma push_bit_pow: "(push_bit k ^^ n) (x :: u32) = push_bit (n * k) x"
  by (induction n) (simp_all add: push_bit_push_bit)

lemma bit_push_pow: "bit ((push_bit k ^^ n) (x :: u32)) i \<longleftrightarrow> n * k \<le> i \<and> i < 32 \<and> bit x (i - n * k)"
  by (auto simp: push_bit_pow bit_push_bit_iff)

lemma bit_modeless:
  "bit (modeless p) k \<longleftrightarrow> k < 4 \<and> bit p (31 - 8 * k)"
proof -
  have m: "(8 :: u32) = push_bit 3 1" "(4 :: u32) = push_bit 2 1" "(2 :: u32) = push_bit 1 1"
    by (simp_all add: push_bit_eq_mult)
  have e: "bit (push_bit j (1 :: u32)) k \<longleftrightarrow> k = j" if "j < 32" for j
    using that by (auto simp: bit_exp_iff)
  show ?thesis
    unfolding modeless_def m bit_or_iff bit_and_iff e [of 3, simplified] 
    by (auto simp: e bit_simps numeral_eq_Suc less_Suc_eq)
qed

lemma planar_eq_grouped:
  assumes "n < 8"
  shows "grouped_pixel p n = planar_pixel p n"
proof (rule bit_word_eqI)
  fix k assume "k < LENGTH(32)"
  show "bit (grouped_pixel p n) k = bit (planar_pixel p n) k"
  proof (cases "k < 4")
    case True
    then have i: "28 + k - n * 4 < 32" "n * 4 \<le> 28 + k" "28 + k < 32" using assms by auto
    have "permute_source (28 + k - n * 4) = 31 - 8 * k - n"
    proof -
      have e: "28 + k - n * 4 = k + 4 * (7 - n)" using assms by simp
      show ?thesis unfolding e permute_source_def using True assms by simp
    qed
    then show ?thesis
      using True i assms
      by (simp add: grouped_pixel_def planar_pixel_def bit_drop_bit_eq bit_push_pow bit_group_pixels
          bit_modeless) linarith
  next
    case False
    then show ?thesis
      by (simp add: grouped_pixel_def planar_pixel_def bit_drop_bit_eq bit_push_pow bit_modeless)
  qed
qed

subsection \<open>The beam\<close>

text \<open>The number of steps since the beginning of the frame.\<close>

definition beam_time :: "PixelFiller \<Rightarrow> int" where
  "beam_time f = 384 * raster_line f + raster_pixel f div 2"

definition beam_ok :: "PixelFiller \<Rightarrow> bool" where
  "beam_ok f \<longleftrightarrow> 0 \<le> raster_pixel f \<and> raster_pixel f < 768 \<and> even (raster_pixel f) \<and>
     0 \<le> raster_line f \<and> raster_line f < 312"

text \<open>What a step leaves alone: only the beam moves the beam.\<close>

lemma getColorIndex_fields:
  "raster_pixel (snd (getColorIndex rp b (f, io, t))) = raster_pixel f"
  "raster_line (snd (getColorIndex rp b (f, io, t))) = raster_line f"
  "visible (snd (getColorIndex rp b (f, io, t))) = visible f"
  "brk (snd (getColorIndex rp b (f, io, t))) = brk f"
  "firq (snd (getColorIndex rp b (f, io, t))) = firq f"
  "bmpofs (snd (getColorIndex rp b (f, io, t))) = bmpofs f"
  "pixels (snd (getColorIndex rp b (f, io, t))) = pixels f"
  "first_visible_line (snd (getColorIndex rp b (f, io, t))) = first_visible_line f"
  "center_offset (snd (getColorIndex rp b (f, io, t))) = center_offset f"
  "screen_width (snd (getColorIndex rp b (f, io, t))) = screen_width f"
  by (simp_all add: getColorIndex_def shiftOutPixels_def fetchPixels_def Let_def)

lemma put_pixel_fields [simp]:
  "raster_pixel (put_pixel p f) = raster_pixel f" "raster_line (put_pixel p f) = raster_line f"
  "visible (put_pixel p f) = visible f" "brk (put_pixel p f) = brk f" "firq (put_pixel p f) = firq f"
  "bmpofs (put_pixel p f) = bmpofs f + 1" "first_visible_line (put_pixel p f) = first_visible_line f"
  "center_offset (put_pixel p f) = center_offset f" "screen_width (put_pixel p f) = screen_width f"
  "pixels (put_pixel p f) = (pixels f)(bmpofs f := p)"
  by (simp_all add: put_pixel_def)

lemma plot_fields:
  "raster_pixel (plot i b (f, io, t)) = raster_pixel f" "raster_line (plot i b (f, io, t)) = raster_line f"
  "visible (plot i b (f, io, t)) = visible f" "brk (plot i b (f, io, t)) = brk f"
  "firq (plot i b (f, io, t)) = firq f"
  "first_visible_line (plot i b (f, io, t)) = first_visible_line f"
  "center_offset (plot i b (f, io, t)) = center_offset f"
  "screen_width (plot i b (f, io, t)) = screen_width f"
  by (simp_all add: plot_def Let_def)

definition draws :: "PixelFiller \<Rightarrow> bool" where
  "draws f \<longleftrightarrow> visible f \<and> raster_pixel f \<ge> center_offset f \<and>
     raster_pixel f < center_offset f + screen_width f"

lemma plot_draws:
  "bmpofs (plot i b (f, io, t)) = bmpofs f + (if draws f then 2 else 0)"
  "j \<notin> {bmpofs f, bmpofs f + 1} \<or> \<not> draws f \<Longrightarrow> pixels (plot i b (f, io, t)) j = pixels f j"
  by (auto simp: plot_def draws_def Let_def)

text \<open>A step as a whole: the pixels it draws, then the beam.\<close>

lemma fill_step_split:
  assumes "fill_step ct ctp upd clk (f, io, t) = Inr (index, f', io', t')"
  obtains g where "f' = beam upd clk io' g" "raster_pixel g = raster_pixel f"
    "raster_line g = raster_line f" "visible g = visible f" "brk g = brk f" "firq g = firq f"
    "first_visible_line g = first_visible_line f" "center_offset g = center_offset f"
    "screen_width g = screen_width f" "bmpofs g = bmpofs f + (if draws f then 2 else 0)"
    "\<And>j. j \<notin> {bmpofs f, bmpofs f + 1} \<or> \<not> draws f \<Longrightarrow> pixels g j = pixels f j"
proof -
  define rp b where "rp = raster_pixel f - 24" and "b = is_border (raster_pixel f - 24) f"
  define f1 where "f1 = snd (getColorIndex rp b (f, io, t))"
  note f1 = getColorIndex_fields [of rp b f io t, folded f1_def]
  have f': "f' = beam upd clk io' (plot index b (f1, io', t'))"
    using assms unfolding fill_step_def Let_def commits_def
    by (auto simp: bind_res_Inr_iff rp_def b_def f1_def split: prod.splits if_splits)
  have d: "draws f1 = draws f" by (simp add: draws_def f1)
  show ?thesis
    by (rule that [OF f']) (simp_all add: plot_fields plot_draws f1 d)
qed

lemma beam_fields:
  assumes "beam_ok f"
  shows "beam_ok (beam upd clk io f)"
    and "beam_time (beam upd clk io f) = (beam_time f + 1) mod 119808"
    and "firq (beam upd clk io f) = (firq f \<or> beam_time (beam upd clk io f) = 87)"
    and "brk (beam upd clk io f) = (brk f \<or> beam_time (beam upd clk io f) = 0)"
proof -
  have "beam_ok (beam upd clk io f) \<and> beam_time (beam upd clk io f) = (beam_time f + 1) mod 119808 \<and>
    firq (beam upd clk io f) = (firq f \<or> beam_time (beam upd clk io f) = 87) \<and>
    brk (beam upd clk io f) = (brk f \<or> beam_time (beam upd clk io f) = 0)"
  proof (cases "raster_pixel f = 766")
    case True
    show ?thesis
      using assms True
      by (cases "raster_line f = 311") (auto simp: beam_def advanceLine_def beam_ok_def beam_time_def Let_def)
  next
    case False
    obtain k where k: "raster_pixel f = 2 * k" using assms by (auto simp: beam_ok_def elim: evenE)
    then have "0 \<le> k" "k < 383" "0 \<le> raster_line f" "raster_line f < 312"
      using assms False by (auto simp: beam_ok_def)
    moreover have "384 * raster_line f + k + 1 = 87 \<longleftrightarrow> raster_line f = 0 \<and> k = 86"
    proof
      assume eq: "384 * raster_line f + k + 1 = 87"
      with \<open>0 \<le> k\<close> have "raster_line f < 1" by linarith
      with \<open>0 \<le> raster_line f\<close> eq show "raster_line f = 0 \<and> k = 86" by simp
    qed simp
    ultimately have "(384 * raster_line f + k + 1) mod 119808 = 384 * raster_line f + k + 1"
      "384 * raster_line f + k + 1 = 87 \<longleftrightarrow> raster_line f = 0 \<and> k = 86" by auto
    then show ?thesis
      using assms k False by (auto simp: beam_def beam_ok_def beam_time_def Let_def)
  qed
  then show "beam_ok (beam upd clk io f)"
    and "beam_time (beam upd clk io f) = (beam_time f + 1) mod 119808"
    and "firq (beam upd clk io f) = (firq f \<or> beam_time (beam upd clk io f) = 87)"
    and "brk (beam upd clk io f) = (brk f \<or> beam_time (beam upd clk io f) = 0)" by auto
qed

subsection \<open>Drawing\<close>

definition colpos :: "PixelFiller \<Rightarrow> int" where
  "colpos f = max 0 (min (screen_width f) (raster_pixel f - center_offset f))"

text \<open>The invariant of a frame on a screen of \<open>W\<close> by \<open>H\<close> pixels: while the frame is drawn, the
  store offset is that of the beam.\<close>

definition frame_ok :: "nat \<Rightarrow> nat \<Rightarrow> PixelFiller \<Rightarrow> bool" where
  "frame_ok W H f \<longleftrightarrow> beam_ok f \<and> screen_width f = int W \<and> even W \<and> even (center_offset f) \<and>
     0 \<le> center_offset f \<and> center_offset f + int W \<le> 768 \<and> first_visible_line f = 312 - int H \<and>
     1 \<le> H \<and> H \<le> 310 \<and>
     (if brk f then \<not> visible f \<and> raster_line f < first_visible_line f
      else if visible f
      then first_visible_line f \<le> raster_line f \<and>
           int (bmpofs f) = (raster_line f - first_visible_line f) * int W + colpos f
      else bmpofs f = 0)"

lemma draws_in_bounds:
  assumes "frame_ok W H f" "draws f"
  shows "bmpofs f + 1 < W * H"
proof -
  have "visible f" "\<not> brk f" using assms by (auto simp: draws_def frame_ok_def split: if_splits)
  then have ofs: "int (bmpofs f) = (raster_line f - first_visible_line f) * int W + colpos f"
    "raster_line f - first_visible_line f + 1 \<le> int H"
    using assms by (auto simp: frame_ok_def beam_ok_def)
  have "colpos f = raster_pixel f - center_offset f" "even (colpos f)"
    using assms by (auto simp: colpos_def draws_def frame_ok_def beam_ok_def)
  moreover have "even (int W)" "colpos f < int W"
    using assms calculation by (auto simp: draws_def frame_ok_def)
  ultimately have "colpos f + 1 < int W" by presburger
  then have "int (bmpofs f) + 1 < (raster_line f - first_visible_line f + 1) * int W"
    using ofs(1) by (simp add: algebra_simps)
  also have "\<dots> \<le> int H * int W" using ofs(2) by (rule mult_right_mono) simp
  finally have "int (bmpofs f + 1) < int (W * H)" by (simp add: mult.commute)
  then show ?thesis by (simp only: of_nat_less_iff)
qed

text \<open>The beam on a filler that has just drawn its two pixels.\<close>

lemma colpos_next:
  assumes "frame_ok W H f" "visible f" "raster_pixel g = raster_pixel f + 2"
    "center_offset g = center_offset f" "screen_width g = screen_width f"
  shows "colpos g = colpos f + (if draws f then 2 else 0)"
proof -
  have e: "even (raster_pixel f)" "even (center_offset f)" "even (screen_width f)" "0 \<le> screen_width f"
    using assms(1) by (auto simp: frame_ok_def beam_ok_def)
  show ?thesis
    unfolding colpos_def draws_def assms(3-5) using assms(2) e by (simp add: max_def min_def) presburger
qed

lemma beam_simple:
  assumes "beam_ok g" "raster_pixel g \<noteq> 766"
  shows "raster_pixel (beam upd clk io g) = raster_pixel g + 2" "raster_line (beam upd clk io g) = raster_line g"
    "visible (beam upd clk io g) = visible g" "brk (beam upd clk io g) = brk g"
    "bmpofs (beam upd clk io g) = bmpofs g" "pixels (beam upd clk io g) = pixels g"
    "first_visible_line (beam upd clk io g) = first_visible_line g"
    "center_offset (beam upd clk io g) = center_offset g" "screen_width (beam upd clk io g) = screen_width g"
  using assms by (simp_all add: beam_def Let_def beam_ok_def)

lemma beam_newline:
  fixes io :: "'a vid_scheme IO"
  fixes upd clk
  assumes "beam_ok g" "raster_pixel g = 766"
  defines "l \<equiv> raster_line g + 1" and "b \<equiv> beam upd clk io g"
  shows "raster_pixel b = 0" "raster_line b = (if l = 312 then 0 else l)"
    "visible b = (l \<noteq> 312 \<and> (visible g \<or> upd \<and> l = first_visible_line g))" "brk b = (brk g \<or> l = 312)"
    "bmpofs b = bmpofs g" "pixels b = pixels g" "first_visible_line b = first_visible_line g"
    "center_offset b = center_offset g" "screen_width b = screen_width g"
  using assms(1,2) unfolding l_def b_def by (simp_all add: beam_def advanceLine_def Let_def beam_ok_def)

lemma fill_step_frame_ok:
  assumes ok: "frame_ok W H f" and st: "fill_step ct ctp upd clk (f, io, t) = Inr (index, f', io', t')"
    and early: "brk f' \<Longrightarrow> raster_line f' < 312 - int H"
  shows "frame_ok W H f'" "W * H \<le> j \<Longrightarrow> pixels f' j = pixels f j"
proof -
  from fill_step_split [OF st] obtain g where g: "f' = beam upd clk io' g" "raster_pixel g = raster_pixel f"
    "raster_line g = raster_line f" "visible g = visible f" "brk g = brk f"
    "first_visible_line g = first_visible_line f" "center_offset g = center_offset f"
    "screen_width g = screen_width f" "bmpofs g = bmpofs f + (if draws f then 2 else 0)"
    "\<And>j. j \<notin> {bmpofs f, bmpofs f + 1} \<or> \<not> draws f \<Longrightarrow> pixels g j = pixels f j" by metis
  have bg: "beam_ok g" using ok g by (simp add: frame_ok_def beam_ok_def)
  have bf: "beam_ok f'" using beam_fields(1) [OF bg] g(1) by simp
  show "frame_ok W H f'"
  proof (cases "raster_pixel g = 766")
    case False
    note b = beam_simple [OF bg False, of upd clk io', folded g(1)]
    show ?thesis
    proof (cases "visible f \<and> \<not> brk f")
      case True
      then have "colpos f' = colpos f + (if draws f then 2 else 0)"
        using ok b g by (intro colpos_next) auto
      then show ?thesis using ok bf b g True by (auto simp: frame_ok_def)
    next
      case inv: False
      then have "\<not> draws f" using ok by (auto simp: frame_ok_def draws_def)
      then show ?thesis using ok bf b g inv early by (auto simp: frame_ok_def)
    qed
  next
    case True
    note b = beam_newline [OF bg True, of upd clk io', folded g(1)]
    have c0: "colpos f' = 0" using ok b g by (simp add: colpos_def frame_ok_def)
    show ?thesis
    proof (cases "visible f \<and> \<not> brk f")
      case vis: True
      have e: "even (center_offset f)" "even (int W)" "center_offset f + int W \<le> 768"
        "raster_pixel f = 766" "screen_width f = int W" "0 \<le> center_offset f"
        using ok True g by (simp_all add: frame_ok_def)
      have "colpos f + (if draws f then 2 else 0) = int W"
        unfolding colpos_def draws_def e(4,5) using vis e by (simp add: max_def min_def) presburger
      moreover have "int (bmpofs f) = (raster_line f - first_visible_line f) * int W + colpos f"
        using ok vis by (simp add: frame_ok_def)
      moreover have "int (bmpofs g) = int (bmpofs f) + (if draws f then 2 else 0)" by (simp add: g(9))
      ultimately have "int (bmpofs g) = (raster_line f - first_visible_line f) * int W + int W" by simp
      then have "int (bmpofs g) = (raster_line f + 1 - first_visible_line f) * int W"
        by (simp add: algebra_simps)
      then show ?thesis using ok bf b g c0 vis early by (auto simp: frame_ok_def)
    next
      case inv: False
      then have "\<not> draws f" using ok by (auto simp: frame_ok_def draws_def)
      then show ?thesis using ok bf b g c0 inv early by (auto simp: frame_ok_def)
    qed
  qed
  show "pixels f' j = pixels f j" if "W * H \<le> j"
  proof -
    have "pixels f' j = pixels g j"
      using beam_simple(6) [OF bg, of upd clk io'] beam_newline(6) [OF bg, of upd clk io'] g(1) by (cases "raster_pixel g = 766") auto
    also have "\<dots> = pixels f j"
      using g(10) [of j] draws_in_bounds [OF ok] that by fastforce
    finally show ?thesis .
  qed
qed

text \<open>A whole instruction of at most one line's time: what the loop keeps, and that the beam does not
  reach the picture again after the end of the frame.\<close>

lemma fill_step_beam:
  assumes "beam_ok f" "fill_step ct ctp upd clk (f, io, t) = Inr (index, f', io', t')"
  shows "beam_ok f'" "beam_time f' = (beam_time f + 1) mod 119808"
    "firq f' = (firq f \<or> beam_time f' = 87)" "brk f' = (brk f \<or> beam_time f' = 0)"
proof -
  from fill_step_split [OF assms(2)] obtain g where g: "f' = beam upd clk io' g"
    "raster_pixel g = raster_pixel f" "raster_line g = raster_line f" "brk g = brk f" "firq g = firq f"
    by metis
  have "beam_ok g" "beam_time g = beam_time f" using assms(1) g by (simp_all add: beam_ok_def beam_time_def)
  with beam_fields [OF this(1), of upd clk io'] g
  show "beam_ok f'" "beam_time f' = (beam_time f + 1) mod 119808"
    "firq f' = (firq f \<or> beam_time f' = 87)" "brk f' = (brk f \<or> beam_time f' = 0)" by simp_all
qed

lemma raster_line_time:
  assumes "beam_ok f" "2 * beam_time f \<le> n" "n < 768 * k"
  shows "raster_line f < k"
proof -
  have "768 * raster_line f \<le> 2 * beam_time f" using assms(1) by (simp add: beam_ok_def beam_time_def)
  then show ?thesis using assms(2,3) by linarith
qed

lemma fill1_loop_frame_ok:
  assumes "fill1_loop clocks ct ctp upd clk ab index (f, io, t) = Inr (clk', ab', index', f', io', t')"
    "frame_ok W H f" "0 \<le> clk" "clocks \<le> 768" "brk f \<Longrightarrow> 2 * beam_time f \<le> clk"
  shows "frame_ok W H f' \<and> (\<forall>j \<ge> W * H. pixels f' j = pixels f j)"
  using assms
proof (induction clocks ct ctp upd clk ab index "(f, io, t)" arbitrary: f io t rule: fill1_loop.induct)
  case (1 clocks ct ctp upd clk ab index f io t)
  show ?case
  proof (cases "clk < clocks")
    case False
    then show ?thesis using "1.prems" by (simp add: fill1_loop.simps [of clocks])
  next
    case True
    then obtain i f1 io1 t1 where s: "fill_step ct ctp upd clk (f, io, t) = Inr (i, f1, io1, t1)"
      and l: "fill1_loop clocks ct ctp upd (clk + 2) (ab + (if brk f1 then 2 else 0)) i (f1, io1, t1) =
        Inr (clk', ab', index', f', io', t')"
      using "1.prems"(1) by (auto simp: fill1_loop.simps [of clocks ct ctp upd clk] bind_res_Inr_iff)
    have bo: "beam_ok f" using "1.prems"(2) by (simp add: frame_ok_def)
    note st = fill_step_beam [OF bo s]
    have bt: "0 \<le> beam_time f" using bo by (simp add: beam_ok_def beam_time_def)
    have t1: "2 * beam_time f1 \<le> clk + 2" if "brk f1"
    proof (cases "brk f")
      case True
      then show ?thesis using "1.prems"(5) st(2) zmod_le_nonneg_dividend [of "beam_time f + 1" 119808] bt
        by linarith
    next
      case False
      then show ?thesis using that st(4) "1.prems"(3) by simp
    qed
    have "raster_line f1 < 312 - int H" if "brk f1"
    proof (rule raster_line_time [OF st(1) t1 [OF that]])
      show "clk + 2 < 768 * (312 - int H)"
        using True "1.prems"(2,4) by (simp add: frame_ok_def)
    qed
    from fill_step_frame_ok [OF "1.prems"(2) s this] have ok: "frame_ok W H f1"
      "\<And>j. W * H \<le> j \<Longrightarrow> pixels f1 j = pixels f j" by auto
    have "0 \<le> clk + 2" using "1.prems"(3) by simp
    from "1.hyps" [OF True, where f = f1 and io = io1 and t = t1] l ok(1) this "1.prems"(4) t1 have
      "frame_ok W H f' \<and> (\<forall>j \<ge> W * H. pixels f' j = pixels f1 j)" by simp
    then show ?thesis using ok(2) by simp
  qed
qed

lemma frame_ok_count [simp]: "frame_ok W H (f\<lparr>fill1_count := n\<rparr>) = frame_ok W H f"
  by (simp add: frame_ok_def beam_ok_def colpos_def)

lemma frame_ok_reset: "frame_ok W H f \<Longrightarrow> frame_ok W H (filler_reset buf f)"
  by (simp add: frame_ok_def beam_ok_def filler_reset_def)

lemma fill_frame_ok:
  assumes "frame_ok W H f" "\<not> brk f" "clocks \<le> 768" "ct \<noteq> 0"
    "fill clocks ct ctp upd (f, io, t) = Inr (ab, f', io', t')"
  shows "frame_ok W H f' \<and> (\<forall>j \<ge> W * H. pixels f' j = pixels f j)"
proof -
  define f0 where "f0 = f\<lparr>fill1_count := fill1_count f + clocks\<rparr>"
  obtain clk ab1 i f1 io1 t1 where l:
      "fill1_loop clocks ct ctp upd 0 0 0 (f0, io, t) = Inr (clk, ab1, i, f1, io1, t1)"
    and c: "commits clk ct ctp i (f1, io1, t1) = Inr (f', io', t')"
    using assms(4,5) by (auto simp: fill_def fill1_def f0_def bind_res_Inr_iff)
  have "f1 = f'" using c by (auto simp: commits_def bind_res_Inr_iff)
  with fill1_loop_frame_ok [OF l, of W H] assms(1-3) show ?thesis by (simp add: f0_def)
qed

subsection \<open>What is on the screen\<close>

text \<open>The video memory: the four bytes of a fetched word are the bytes of the four bit planes at
  \<^verbatim>\<open>8000\<close>, \<^verbatim>\<open>A000\<close>, \<^verbatim>\<open>C000\<close> and \<^verbatim>\<open>E000\<close> of main memory.\<close>

lemma tobank_plane:
  assumes "p < 4" "a < 0x2000"
  shows "tobank (word_of_nat (0x8000 + p * 0x2000 + a)) = word_of_nat (0x8000 + 4 * a + p)"
proof -
  have bits: "bit (word_of_nat (2 ^ n * x + y) :: u32) i \<longleftrightarrow>
      i < 32 \<and> (if i < n then bit y i else bit x (i - n))" if "y < 2 ^ n" for n x y i :: nat
  proof -
    have "2 ^ n * x + y = y OR push_bit n x"
      using or_shifted_digit [OF that, of x] by (simp add: push_bit_eq_mult mult.commute)
    moreover have "\<not> bit y i" if "n \<le> i"
      using \<open>y < 2 ^ n\<close> that by (metis bit_take_bit_iff leD take_bit_nat_eq_self)
    ultimately show ?thesis by (auto simp: bit_simps not_le)
  qed
  have hi: "p < 2 ^ 2" "a < 2 ^ 13" using assms by simp_all
  have l: "0x8000 + p * 0x2000 + a = 2 ^ 13 * (2 ^ 2 * 1 + p) + a" by simp
  have r: "0x8000 + 4 * a + p = 2 ^ 2 * (2 ^ 13 * 1 + a) + p" by simp
  have b4: "bit (2 ^ 2 * 1 + p) i \<longleftrightarrow> (if i < 2 then bit p i else i = 2)" for i
    using or_shifted_digit [OF hi(1), of 1] hi(1)
    by (metis (no_types, lifting) add.commute bit_1_iff bit_or_iff bit_push_bit_iff_nat bit_take_bit_iff
        diff_is_0_eq le_antisym mult.commute mult.right_neutral nat_less_le not_le push_bit_eq_mult
        take_bit_nat_eq_self)
  have b13: "bit (2 ^ 13 * 1 + a) i \<longleftrightarrow> (if i < 13 then bit a i else i = 13)" for i
    using or_shifted_digit [OF hi(2), of 1] hi(2)
    by (metis (no_types, lifting) add.commute bit_1_iff bit_or_iff bit_push_bit_iff_nat bit_take_bit_iff
        diff_is_0_eq le_antisym mult.commute mult.right_neutral nat_less_le not_le push_bit_eq_mult
        take_bit_nat_eq_self)
  show ?thesis
  proof (rule bit_word_eqI)
    fix i :: nat assume "i < LENGTH(32)"
    then have "i < 32" by simp
    then show "bit (tobank (word_of_nat (0x8000 + p * 0x2000 + a))) i =
        bit (word_of_nat (0x8000 + 4 * a + p) :: u32) i"
      unfolding l r bit_tobank bits [OF hi(2)] bits [OF hi(1)] b4 b13
      by (cases "i < 2"; cases "i < 15") auto
  qed
qed

lemma bit_four_bytes:
  fixes b0 b1 b2 b3 :: u8
  assumes "j < 8" "k < 4"
  shows "bit (ucast b0 OR push_bit 8 (ucast b1) OR push_bit 16 (ucast b2) OR push_bit 24 (ucast b3) :: u32)
      (8 * k + j) = bit ([b0, b1, b2, b3] ! k) j"
proof -
  have n: "\<not> bit (b :: u8) i" if "8 \<le> i" for b i using that by (auto dest: bit_u8_bound)
  consider "k = 0" | "k = 1" | "k = 2" | "k = 3" using assms(2) by linarith
  then show ?thesis by cases (use assms(1) in \<open>simp_all add: bit_simps n\<close>)
qed

lemma bit_mem32:
  assumes "k < 4" "j < 8"
  shows "bit (mem32 m i) (8 * k + j) = bit (bytes m (word_of_nat (4 * i + k))) j"
proof -
  consider "k = 0" | "k = 1" | "k = 2" | "k = 3" using assms(1) by linarith
  then have "[bytes m (word_of_nat (4 * i)), bytes m (word_of_nat (4 * i + 1)),
      bytes m (word_of_nat (4 * i + 2)), bytes m (word_of_nat (4 * i + 3))] ! k =
    bytes m (word_of_nat (4 * i + k))" by cases simp_all
  then show ?thesis unfolding mem32_def bit_four_bytes [OF assms(2,1)] by simp
qed

lemma mem_peek_plane:
  assumes "\<not> mode_map m" "length (bootbytes m) \<le> 0x8000" "p < 4" "a < 0x2000"
  shows "mem_peek m (word_of_nat (0x8000 + p * 0x2000 + a)) False =
    bytes m (word_of_nat (0x8000 + 4 * a + p))"
proof -
  define x where "x = 0x8000 + p * 0x2000 + a"
  have x: "x < 65536" "0x8000 \<le> x" "tobank (word_of_nat x) = word_of_nat (0x8000 + 4 * a + p)"
    using assms(3,4) tobank_plane [OF assms(3,4)] by (simp_all add: x_def)
  then have u: "unat (word_of_nat x :: u32) = x" by (simp add: unsigned_of_nat take_bit_eq_mod)
  then have "unat (word_of_nat x AND 0xffff :: u32) = unat (word_of_nat x :: u32)"
    using x(1) by (simp only: unat_low_bits) simp
  then have e: "word_of_nat x AND 0xffff = (word_of_nat x :: u32)" by (simp only: word_unat_eq_iff)
  have s: "bigram_select m (word_of_nat x) False = word_of_nat x"
    using assms(1) by (simp add: bigram_select_def)
  have "\<not> in_boot m (word_of_nat x)" using assms(2) x u by (simp add: in_boot_def)
  then show ?thesis unfolding x_def [symmetric] mem_peek_def e Let_def s x(3) by simp
qed

lemma bit_planar_pixel:
  assumes "k < 4" "n < 8"
  shows "bit (planar_pixel p n) k = bit p (8 * (3 - k) + (7 - n))"
proof -
  have "31 - 8 * k - n = 8 * (3 - k) + (7 - n)" "n \<le> 31 - 8 * k" "31 - 8 * k < 32" using assms by auto
  then show ?thesis using assms(1) unfolding planar_pixel_def bit_modeless bit_push_pow by simp
qed

lemma fetch_address:
  assumes "0 \<le> col" "col < 32" "0 \<le> row" "row < 256"
  shows "nat (push_bit 8 (col AND 0xff) OR (row AND 0xff)) = 256 * nat col + nat row"
proof -
  obtain c r where cr: "col = int c" "row = int r" using assms(1,3) by (metis zero_le_imp_eq_int)
  have a: "col AND 0xff = col" "row AND 0xff = row"
    using assms take_bit_eq_mask [of 8 col] take_bit_eq_mask [of 8 row]
    by (simp_all add: mask_eq_exp_minus_1 take_bit_int_eq_self)
  have r: "r < 2 ^ 8" using assms cr by simp
  have "push_bit 8 (int c) OR int r = int (r OR push_bit 8 c)"
    by (simp only: of_nat_or_eq of_nat_push_bit or.commute)
  then show ?thesis
    unfolding a using or_shifted_digit [OF r, of c] by (simp add: cr push_bit_eq_mult)
qed

lemma fetched_pixel:
  assumes "\<not> mode_map m" "length (bootbytes m) \<le> 0x8000" "k < 4" "n < 8"
    "0 \<le> fb_column f" "fb_column f < 32" "0 \<le> fb_row f" "fb_row f < 256"
  shows "bit (planar_pixel (pixel32 (fetchPixels m f)) n) k =
    bit (mem_peek m (word_of_nat (0x8000 + (3 - k) * 0x2000 + (256 * nat (fb_column f) + nat (fb_row f)))) False)
      (7 - n)"
proof -
  define a where "a = 256 * nat (fb_column f) + nat (fb_row f)"
  have a: "a < 0x2000" using assms(5-8) by (simp add: a_def)
  have "pixel32 (fetchPixels m f) = mem32 m (0x2000 + a)"
    unfolding fetchPixels_def Let_def fetch_address [OF assms(5-8)] a_def by simp
  moreover have "4 * (0x2000 + a) + (3 - k) = 0x8000 + 4 * a + (3 - k)" by simp
  ultimately show ?thesis
    using bit_mem32 [of "3 - k" "7 - n" m "0x2000 + a"] mem_peek_plane [OF assms(1,2) _ a, of "3 - k"]
    unfolding bit_planar_pixel [OF assms(3,4)] a_def [symmetric] by simp
qed

text \<open>A filler at power-on for a screen of 576 by 288 pixels.\<close>

definition filler_zero :: PixelFiller where
  "filler_zero = filler_init 288 98 576 (PixelFiller_new \<lparr>raster_pixel = 0, raster_line = 0, fb_column = 0,
     fb_row = 0, vborder = False, visible = False, bmpofs = 0, first_visible_line = 0, center_offset = 0,
     screen_width = 0, pixel32 = 0, pixels = (\<lambda>_. 0), fill1_count = 0, fill2_count = 0, brk = False,
     firq = False, irq_clk = 0\<rparr> (\<lambda>_. 0))"

lemma filler_zero_ok: "frame_ok 576 288 filler_zero" "beam_ok filler_zero" "\<not> brk filler_zero"
  by (simp_all add: filler_zero_def filler_init_def PixelFiller_new_def filler_reset_def frame_ok_def
      beam_ok_def)

definition vid_io :: "vid IO" where
  "vid_io = install_callbacks (IO_new \<lparr>palette = [], raw_palette = [], kvaz = memory_init, kbd = Keyboard_new,
     timer = \<lparr>counters = replicate 3 (CounterUnit_new 0 0 0 0), control_word = 0\<rparr>,
     fdc = fd_zero, ayc = ay_init, tape_player = wav_zero,
     io_CW = 0, io_PA = 0, io_PB = 0, io_PC = 0, PIA1_last = 0, io_CW2 = 0, io_PA2 = 0, io_PB2 = 0,
     io_PC2 = 0, outport = 0, outbyte = 0, palettebyte = 0, onborderchange = (\<lambda>_ t. t),
     onmodechange = (\<lambda>_ t. t), onruslat = None, rgb2pixelformat = (\<lambda>r g b. ucast r),
     io_onread = None, io_onwrite = None\<rparr>)"

subsection \<open>Properties\<close>

text \<open>Drawing for the time of one instruction keeps the frame invariant, which ties the store
  offset to the beam, and changes no pixel outside the W by H buffer: whatever the program writes
  to the ports meanwhile, the raster never stores out of bounds.\<close>

theorem framebuffer_stores_in_bounds:
  assumes "frame_ok W H f" "\<not> brk f" "clocks \<le> 768" "ct \<noteq> 0"
  shows "case fill clocks ct ctp upd (f, io, t) of Inl _ \<Rightarrow> True
    | Inr (ab, f', _) \<Rightarrow> frame_ok W H f' \<and> (\<forall>j \<ge> W * H. pixels f' j = pixels f j)"
  using fill_frame_ok [OF assms, of ctp upd io t] by (force split: sum.split)

theorem framebuffer_stores_in_bounds_witness:
  "case fill 48 (-1) (-1) True (filler_zero, vid_io, \<lparr>border_index = 0, mode512 = False\<rparr>) of Inl _ \<Rightarrow> True
    | Inr (ab, f', _) \<Rightarrow>
        frame_ok 576 288 f' \<and> (\<forall>j \<ge> 576 * 288. pixels f' j = pixels filler_zero j)"
  by (rule framebuffer_stores_in_bounds) (simp_all add: filler_zero_ok)

text \<open>C30: The beam: each step moves it by two pixels through the 312 lines of 768 pixels, the frame
  interrupt is raised exactly when it comes to pixel 174 of line 0 and the end of frame exactly
  when it comes back to the top, so both come once in every 119808 steps.\<close>

theorem beam_and_frame_interrupt:
  assumes "beam_ok f"
  shows "case fill_step ct ctp upd clk (f, io, t) of Inl _ \<Rightarrow> True
    | Inr (_, f', _) \<Rightarrow> beam_ok f' \<and> beam_time f' = (beam_time f + 1) mod 119808 \<and>
        firq f' = (firq f \<or> beam_time f' = 87) \<and> brk f' = (brk f \<or> beam_time f' = 0)"
  using fill_step_beam [OF assms, of ct ctp upd clk io t] by (force split: sum.split)

theorem beam_and_frame_interrupt_witness:
  "case fill_step (-1) (-1) True 0 (filler_zero, vid_io, \<lparr>border_index = 0, mode512 = False\<rparr>) of Inl _ \<Rightarrow> True
    | Inr (_, f', _) \<Rightarrow> beam_ok f' \<and> beam_time f' = (beam_time filler_zero + 1) mod 119808 \<and>
        firq f' = (firq filler_zero \<or> beam_time f' = 87) \<and> brk f' = (brk filler_zero \<or> beam_time f' = 0)"
  by (rule beam_and_frame_interrupt) (rule filler_zero_ok)

text \<open>C29: The two ways of taking eight pixels out of a fetched word, bit plane by bit plane or after
  the bit permutation of the build option, give the same colours.\<close>

theorem pixel_extraction_equivalent:
  assumes "n < 8"
  shows "grouped_pixel p n = planar_pixel p n"
  by (rule planar_eq_grouped [OF assms])

theorem pixel_extraction_equivalent_witness: "grouped_pixel 0x8040c0ff 1 = planar_pixel 0x8040c0ff 1"
  by (rule pixel_extraction_equivalent) simp

text \<open>C28: What the raster shows: bit k of the colour of pixel n of a column is bit 7 - n of the byte
  that the CPU sees in the k-th bit plane (\<^verbatim>\<open>E000\<close> the lowest, \<^verbatim>\<open>8000\<close> the highest) at
  that column and row, when the RAM disk is not mapped over it.\<close>

theorem pixels_come_from_bit_planes:
  assumes "\<not> mode_map m" "length (bootbytes m) \<le> 0x8000" "k < 4" "n < 8"
    "0 \<le> fb_column f" "fb_column f < 32" "0 \<le> fb_row f" "fb_row f < 256"
  shows "bit (planar_pixel (pixel32 (fetchPixels m f)) n) k =
    bit (mem_peek m (word_of_nat (0x8000 + (3 - k) * 0x2000 + (256 * nat (fb_column f) + nat (fb_row f)))) False)
      (7 - n)"
  by (rule fetched_pixel [OF assms])

theorem pixels_come_from_bit_planes_witness:
  "let f = filler_zero\<lparr>fb_column := 2, fb_row := 255\<rparr>; m = memory_init :: unit memory in
   bit (planar_pixel (pixel32 (fetchPixels m f)) 6) 1 =
    bit (mem_peek m (word_of_nat (0x8000 + (3 - 1) * 0x2000 + (256 * nat (fb_column f) + nat (fb_row f)))) False)
      (7 - 6)"
  unfolding Let_def by (rule pixels_come_from_bit_planes) (simp_all add: memory_init_def)

end
