(* ===== verification/Hal.thy ===== *)
theory Hal
  imports I8080_Refine Filler
begin

text \<open>
  The processor in the machine (\<^verbatim>\<open>src/hal.cpp\<close>): the hardware abstraction layer of
  \<^verbatim>\<open>i8080.cpp\<close> bound to the memory, the ports and the interrupt flip-flop of the board.
  \<open>machine\<close> is what the static pointers of \<^verbatim>\<open>hal.cpp\<close> reach.  An exception thrown by
  an input instruction is kept in \<open>mfault\<close>; the board looks at it when the instruction ends.

  The contract \<open>bus_refinement\<close> is discharged for this machine, so that the
  whole core with its memory, ports and interrupt pin is shown to execute the instruction set.
\<close>

record 's machine =
  mio :: "'s IO"
  menv :: 's
  b_inte :: bool
  b_irq :: bool
  mfault :: "fault option"

text \<open>\<^verbatim>\<open>Board::interrupt\<close>: the state of the INTE pin; lowering it clears the request.\<close>

definition interrupt :: "bool \<Rightarrow> 's machine \<Rightarrow> 's machine" where
  "interrupt on m = m\<lparr>b_inte := on, b_irq := (b_irq m \<and> on)\<rparr>"

definition i8080_hal_memory_read_byte :: "u32 \<Rightarrow> 's machine \<Rightarrow> u32 \<times> 's machine" where
  "i8080_hal_memory_read_byte addr m =
     (let (v, t) = mem_read (kvaz (mio m)) addr False (menv m) in (ucast v, m\<lparr>menv := t\<rparr>))"

definition memory_write :: "u32 \<Rightarrow> u8 \<Rightarrow> bool \<Rightarrow> 's machine \<Rightarrow> 's machine" where
  "memory_write addr v stack m =
     (let (k, t) = mem_write addr v stack (kvaz (mio m), menv m)
      in m\<lparr>mio := (mio m)\<lparr>kvaz := k\<rparr>, menv := t\<rparr>)"

definition i8080_hal_memory_write_byte :: "u32 \<Rightarrow> u32 \<Rightarrow> 's machine \<Rightarrow> 's machine" where
  "i8080_hal_memory_write_byte addr value m = memory_write addr (ucast value) False m"

definition i8080_hal_memory_read_word :: "u32 \<Rightarrow> bool \<Rightarrow> 's machine \<Rightarrow> u32 \<times> 's machine" where
  "i8080_hal_memory_read_word addr stack m =
     (let (l, t) = mem_read (kvaz (mio m)) addr stack (menv m);
          (h, t) = mem_read (kvaz (mio m)) (addr + 1) stack t
      in (ucast l OR push_bit 8 (ucast h), m\<lparr>menv := t\<rparr>))"

definition i8080_hal_memory_write_word :: "u32 \<Rightarrow> u32 \<Rightarrow> bool \<Rightarrow> 's machine \<Rightarrow> 's machine" where
  "i8080_hal_memory_write_word addr w stack m =
     memory_write (addr + 1) (ucast (drop_bit 8 w)) stack
       (memory_write addr (ucast (w AND 0xff)) stack m)"

text \<open>\<open>nofdc\<close> is the option that removes the floppy controller.\<close>

definition i8080_hal_io_input :: "bool \<Rightarrow> u32 \<Rightarrow> 's machine \<Rightarrow> u32 \<times> 's machine" where
  "i8080_hal_io_input nofdc port m =
     (case io_input nofdc (uint port) (mio m, menv m) of
        Inl e \<Rightarrow> (0, m\<lparr>mfault := Some e\<rparr>)
      | Inr (v, io, t) \<Rightarrow> (word_of_int v, m\<lparr>mio := io, menv := t\<rparr>))"

definition i8080_hal_io_output :: "u32 \<Rightarrow> u32 \<Rightarrow> 's machine \<Rightarrow> 's machine" where
  "i8080_hal_io_output port value m =
     (let (io, t) = io_output (uint port) (uint value) (mio m, menv m) in m\<lparr>mio := io, menv := t\<rparr>)"

definition i8080_hal_iff :: "u32 \<Rightarrow> 's machine \<Rightarrow> 's machine" where
  "i8080_hal_iff on m = interrupt (on \<noteq> 0) m"

definition vector_hal :: "bool \<Rightarrow> 's machine hal" where
  "vector_hal nofdc =
     \<lparr>hal_memory_read_byte = i8080_hal_memory_read_byte,
      hal_memory_write_byte = i8080_hal_memory_write_byte,
      hal_memory_read_word = i8080_hal_memory_read_word,
      hal_memory_write_word = i8080_hal_memory_write_word,
      hal_io_input = i8080_hal_io_input nofdc,
      hal_io_output = i8080_hal_io_output,
      hal_iff = i8080_hal_iff\<rparr>"

subsection \<open>The machine as an abstract bus\<close>

text \<open>Reading looks a byte up, writing updates one cell of the memory array, an output latches the
  port and the value; with no callback installed nothing else happens.\<close>

definition poke :: "bool \<Rightarrow> u16 \<Rightarrow> u8 \<Rightarrow> 's machine \<Rightarrow> 's machine" where
  "poke st a v m = m\<lparr>mio := (mio m)\<lparr>kvaz := (kvaz (mio m))\<lparr>bytes :=
     (bytes (kvaz (mio m)))(tobank (bigram_select (kvaz (mio m)) (ucast a) st) := v)\<rparr>\<rparr>\<rparr>"

definition vector_abus :: "bool \<Rightarrow> unit machine abus" where
  "vector_abus nofdc =
     \<lparr>ab_read = (\<lambda>st m a. mem_peek (kvaz (mio m)) (ucast a) st),
      ab_write = poke,
      ab_in = (\<lambda>p m. let (v, m) = i8080_hal_io_input nofdc (ucast p) m in (ucast v, m)),
      ab_out = (\<lambda>p v m. m\<lparr>mio := (mio m)\<lparr>outport := uint p, outbyte := uint v\<rparr>\<rparr>),
      ab_inte = interrupt\<rparr>"

lemma and_ffff_idem: "(x AND 0xffff) AND 0xffff = (x AND 0xffff :: u32)"
  by (simp add: and.assoc)

lemma ucast_and_ffff: "(ucast (a :: u16) :: u32) AND 0xffff = ucast a"
  by (simp add: word_unat_eq_iff unat_low_bits)

lemma ucast_succ_and_ffff: "(ucast (a :: u16) + 1 :: u32) AND 0xffff = ucast (a + 1)"
proof -
  have "unat a + 1 < 4294967296" using unat_u16_lt [of a] by linarith
  then have "unat (ucast a + 1 :: u32) = unat a + 1" by (simp add: unat_word_ariths)
  then show ?thesis by (simp add: word_unat_eq_iff unat_low_bits unat_word_ariths)
qed

lemma mem_peek_wrap: "mem_peek m (ucast (a :: u16) + 1) st = mem_peek m (ucast (a + 1)) st"
  by (simp add: mem_peek_def ucast_succ_and_ffff ucast_and_ffff)

lemma memory_write_poke:
  fixes m :: "unit machine"
  shows "memory_write (ucast a) v st m = poke st a v m"
    and "memory_write (ucast a + 1) v st m = poke st (a + 1) v m"
  by (simp_all add: memory_write_def poke_def mem_write_def Let_def ucast_and_ffff ucast_succ_and_ffff
      split: prod.splits)

lemma word_halves:
  "(ucast (ucast l OR push_bit 8 (ucast h) :: u32) :: u16) = mk16 h l"
  "(ucast (l :: u8) OR push_bit 8 (ucast (h :: u8)) :: u32) = ucast (mk16 h l)"
  by (rule bit_word_eqI, auto simp: bit_simps dest: bit_u8_bound)+

lemma value_halves:
  "(ucast ((w :: u32) AND 0xff) :: u8) = lo8 (ucast w)" "(ucast (drop_bit 8 w) :: u8) = hi8 (ucast w)"
  by (rule bit_word_eqI, auto simp: bit_simps low_bits add.commute)+

lemma uint_ucast_u8: "uint (ucast (v :: u8) :: u32) = uint v"
  by (simp add: unsigned_ucast_eq take_bit_int_eq_self less_trans [OF uint_bounded])

interpretation vector: bus_refinement "vector_hal nofdc" "vector_abus nofdc" "\<lambda>m. m" for nofdc
proof (unfold_locales, goal_cases)
  case (1 a h) show ?case
    by (simp add: vector_hal_def vector_abus_def i8080_hal_memory_read_byte_def split_def mem_read_fst)
next
  case (2 a h) show ?case
    by (simp add: vector_hal_def i8080_hal_memory_read_byte_def split_def)
next
  case (3 a st h) show ?case
    by (simp add: vector_hal_def vector_abus_def i8080_hal_memory_read_word_def split_def mem_read_fst
        ab_read16_def word_halves mem_peek_wrap)
next
  case (4 a st h) show ?case
    by (simp add: vector_hal_def i8080_hal_memory_read_word_def split_def)
next
  case (5 a v h) show ?case
    by (simp add: vector_hal_def vector_abus_def i8080_hal_memory_write_byte_def memory_write_poke)
next
  case (6 a w st h) show ?case
    by (simp add: vector_hal_def vector_abus_def i8080_hal_memory_write_word_def memory_write_poke
        ab_write16_def value_halves)
next
  case (7 p h) show ?case by (simp add: vector_hal_def vector_abus_def split_def Let_def)
next
  case (8 p h) show ?case by (simp add: vector_hal_def vector_abus_def split_def Let_def)
next
  case (9 p v h) show ?case
    by (simp add: vector_hal_def vector_abus_def i8080_hal_io_output_def io_output_def split_def
        uint_ucast_u8)
next
  case (10 n h) show ?case by (simp add: vector_hal_def vector_abus_def i8080_hal_iff_def)
qed

subsection \<open>The invariant of the core\<close>

text \<open>The condition flags are single bits, at most two instructions separate \<^verbatim>\<open>EI\<close> from its
  effect and the interrupt flip-flop is a bit.\<close>

definition is_bit :: "'a::len word \<Rightarrow> bool" where
  "is_bit w \<longleftrightarrow> w = 0 \<or> w = 1"

definition flags_ok :: "flag_reg \<Rightarrow> bool" where
  "flags_ok fl \<longleftrightarrow> is_bit (carry_flag fl) \<and> is_bit (parity_flag fl) \<and> is_bit (half_carry_flag fl) \<and>
     is_bit (zero_flag fl) \<and> is_bit (sign_flag fl)"

definition cpu_ok :: "'h mach \<Rightarrow> bool" where
  "cpu_ok s \<longleftrightarrow> flags_ok (FLAGS s) \<and> EI_PENDING s \<le> 2 \<and> is_bit (IFF s)"

lemma is_bit_simps [simp]: "is_bit 0" "is_bit 1" "is_bit (of_bool b)"
  by (simp_all add: is_bit_def)

lemma flags_ok_szp [simp]: "flags_ok fl \<Longrightarrow> flags_ok (szp r fl)"
  by (simp add: flags_ok_def szp_def)

lemma flags_ok_upd [simp]:
  "flags_ok fl \<Longrightarrow> is_bit c \<Longrightarrow> flags_ok (fl\<lparr>carry_flag := c\<rparr>)"
  "flags_ok fl \<Longrightarrow> is_bit c \<Longrightarrow> flags_ok (fl\<lparr>half_carry_flag := c\<rparr>)"
  by (simp_all add: flags_ok_def)

lemma flags_ok_specs [simp]:
  assumes "flags_ok fl"
  shows "flags_ok (snd (add_spec c v a fl))" "flags_ok (snd (sub_spec c v a fl))"
    "flags_ok (snd (logic_spec r h fl))" "flags_ok (snd (inr_spec r fl))" "flags_ok (snd (dcr_spec r fl))"
  using assms by (simp_all add: add_spec_def sub_spec_def logic_spec_def inr_spec_def dcr_spec_def Let_def)

lemma flags_ok_alu [simp]: "flags_ok fl \<Longrightarrow> flags_ok (snd (alu_spec k v a fl))"
  by (cases k) simp_all

lemma flags_ok_DAA [simp]: "flags_ok fl \<Longrightarrow> flags_ok (snd (DAA a fl))"
  by (simp add: DAA_def Let_def flags_ok_def ADD_spec add_spec_def szp_def PARITY_eq)

lemmas cpu_ok_simps = cpu_ok_def cpu_simps Let_def split_def skip_def isa_push_def isa_ret_def isa_call_def
  isa_pop_def isa_alu_def isa_upd_def isa_rot_def inte_def upd_a_def

lemma put_cpu [simp]:
  "FLAGS (put_r B r v s) = FLAGS s" "EI_PENDING (put_r B r v s) = EI_PENDING s" "IFF (put_r B r v s) = IFF s"
  "FLAGS (put_rp p w s) = FLAGS s" "EI_PENDING (put_rp p w s) = EI_PENDING s" "IFF (put_rp p w s) = IFF s"
  "FLAGS (put_sp q w s) = FLAGS s" "EI_PENDING (put_sp q w s) = EI_PENDING s" "IFF (put_sp q w s) = IFF s"
  by ((cases r; simp add: cpu_simps)+, (cases p; simp add: cpu_simps)+, (cases q; simp add: cpu_simps)+)

lemma flags_ok_retrieve [simp]: "flags_ok (FLAGS (i8080_retrieve_flags s))"
  by (simp add: i8080_retrieve_flags_def flags_ok_def cpu_simps Let_def)

lemma retrieve_store [simp]:
  "EI_PENDING (i8080_retrieve_flags s) = EI_PENDING s" "IFF (i8080_retrieve_flags s) = IFF s"
  "EI_PENDING (i8080_store_flags s) = EI_PENDING s" "IFF (i8080_store_flags s) = IFF s"
  "FLAGS (i8080_store_flags s) = FLAGS s"
  by (simp_all add: i8080_retrieve_flags_def i8080_store_flags_def cpu_simps Let_def)

lemma isa_exec_ok:
  assumes "cpu_ok s"
  shows "cpu_ok (snd (isa_exec B i s))"
  using assms by (cases i) (simp_all add: cpu_ok_simps)

lemma u8_le_2: "(w :: u8) \<le> 2 \<Longrightarrow> w = 0 \<or> w = 1 \<or> w = 2"
proof -
  assume "w \<le> 2"
  then have "unat w = 0 \<or> unat w = 1 \<or> unat w = 2" by (auto simp: word_le_nat_alt)
  then show ?thesis by (auto simp: word_unat_eq_iff)
qed

lemma isa_tick_ok: "cpu_ok s \<Longrightarrow> cpu_ok (isa_tick B s)"
  using u8_le_2 [of "EI_PENDING s"] by (auto simp: isa_tick_def cpu_ok_simps)

lemma isa_instruction_ok:
  assumes "cpu_ok s"
  shows "cpu_ok (snd (snd (isa_instruction B s)))"
proof -
  have "cpu_ok (skip 1 s)" using assms by (simp add: cpu_ok_simps)
  from isa_tick_ok [OF isa_exec_ok [OF this], of B B] show ?thesis
    by (simp add: isa_instruction_def isa_step_def Let_def split_def cpu_ok_def cpu_simps)
qed

subsection \<open>Runs of the core\<close>

definition core_step :: "bool \<Rightarrow> 's machine mach \<Rightarrow> 's machine mach" where
  "core_step nofdc s = snd (snd (i8080_instruction (vector_hal nofdc) s))"

definition isa_run_step :: "bool \<Rightarrow> unit machine mach \<Rightarrow> unit machine mach" where
  "isa_run_step nofdc s = snd (snd (isa_instruction (vector_abus nofdc) s))"

lemma cpu_ok_carry: "cpu_ok s \<Longrightarrow> unat (carry_flag (FLAGS s)) \<le> 1"
  by (auto simp: cpu_ok_def flags_ok_def is_bit_def)

lemma map_bus_id [simp]: "map_bus (\<lambda>m. m) s = s"
  by (cases s) (simp add: map_bus_def)

lemma instruction_isa:
  assumes "cpu_ok s"
  shows "(case i8080_instruction (vector_hal nofdc) s of (op, v, s') \<Rightarrow> (ucast op, v, s')) =
    isa_instruction (vector_abus nofdc) s"
  using vector.instruction_ref [OF cpu_ok_carry [OF assms], of nofdc] by (simp add: split_def)

lemma core_step_isa: "cpu_ok s \<Longrightarrow> core_step nofdc s = isa_run_step nofdc s"
  using instruction_isa [of s nofdc] by (simp add: core_step_def isa_run_step_def split_def prod_eq_iff)

lemma isa_run_step_ok: "cpu_ok s \<Longrightarrow> cpu_ok (isa_run_step nofdc s)"
  by (simp add: isa_run_step_def isa_instruction_ok)

lemma core_run:
  assumes "cpu_ok s"
  shows "(core_step nofdc ^^ n) s = (isa_run_step nofdc ^^ n) s \<and> cpu_ok ((core_step nofdc ^^ n) s)"
  by (induction n) (auto simp: assms core_step_isa isa_run_step_ok)

subsection \<open>Memory behind the stack\<close>

text \<open>What a program may rely on where the bus reaches memory: a byte written is read back through
  the same kind of access and no other byte seen through it changes.  \<open>ram m st a\<close> says that
  address \<open>a\<close> is not covered by the boot ROM, \<open>good\<close> is the invariant of the bus.\<close>

locale ram_bus =
  fixes B :: "'m abus" and good :: "'m \<Rightarrow> bool" and ram :: "'m \<Rightarrow> bool \<Rightarrow> u16 \<Rightarrow> bool"
  assumes read_write: "good m \<Longrightarrow> ram m st a \<Longrightarrow>
      ab_read B st (ab_write B st a v m) b = (if b = a then v else ab_read B st m b)"
    and good_write: "good (ab_write B st a v m) = good m"
    and ram_write: "ram (ab_write B st a v m) st' b = ram m st' b"
begin

lemma read16_write16:
  assumes "good m" "ram m st a" "ram m st (a + 1)"
  shows "ab_read16 B st (ab_write16 B st a w m) a = w"
proof -
  have "a + 1 \<noteq> a" by simp
  then show ?thesis
    using assms by (simp add: ab_read16_def ab_write16_def read_write good_write ram_write)
qed

lemma top_push:
  assumes "good (bus s)" "ram (bus s) True (SP s - 2)" "ram (bus s) True (SP s - 1)"
  shows "isa_top B (isa_push B w s) = w"
proof -
  have "SP s - 2 + 1 = SP s - 1" by simp
  then show ?thesis
    using assms by (simp add: isa_top_def isa_push_def cpu_simps Let_def read16_write16)
qed

lemma pop_push:
  assumes "good (bus s)" "ram (bus s) True (SP s - 2)" "ram (bus s) True (SP s - 1)"
  shows "cpu (isa_pop B p (isa_push B w s)) = cpu (put_sp p w s)"
  using top_push [OF assms, of w]
  by (cases p) (simp_all add: isa_pop_def isa_push_def cpu_simps Let_def)

lemma ret_call:
  assumes "good (bus s)" "ram (bus s) True (SP s - 2)" "ram (bus s) True (SP s - 1)"
  shows "cpu (isa_ret B (isa_call B s)) = cpu (set_PC (PC s + 2) s)"
proof -
  have t: "isa_top B (set_PC w s') = isa_top B s'" for w s' by (simp add: isa_top_def cpu_simps)
  show ?thesis
    using top_push [OF assms, of "PC s + 2"]
    by (simp add: isa_ret_def isa_call_def Let_def t) (simp add: isa_push_def cpu_simps Let_def)
qed

end

text \<open>The memory of the Vector is such a bus, under every mapping of the RAM disk.\<close>

definition vram_ok :: "unit machine \<Rightarrow> bool" where
  "vram_ok m \<longleftrightarrow> memory_ok (kvaz (mio m))"

definition vram :: "unit machine \<Rightarrow> bool \<Rightarrow> u16 \<Rightarrow> bool" where
  "vram m st a \<longleftrightarrow> \<not> in_boot (kvaz (mio m)) (bigram_select (kvaz (mio m)) (ucast a) st)"

lemma select_inj:
  assumes "memory_ok m"
  shows "bigram_select m (ucast (a :: u16)) st = bigram_select m (ucast b) st \<longleftrightarrow> a = b"
proof
  assume eq: "bigram_select m (ucast a) st = bigram_select m (ucast b) st"
  have lt: "unat a mod 65536 = unat a" "unat b mod 65536 = unat b" by simp_all
  have p: "unat (page_map m) = 0 \<or> 0x10000 \<le> unat (page_map m)"
    using assms unat_add_page(2) [of "page_map m"] by (auto simp: memory_ok_def)
  have "unat (select m (ucast a) st) = unat (select m (ucast b) st)"
    using eq by (simp add: ucast_and_ffff)
  moreover obtain x y where xy: "x = unat a" "y = unat b" "x < 65536" "y < 65536" by simp
  ultimately have "x = y"
    using p xy(3,4) unfolding unat_select [OF assms] unat_ucast_u32 lt xy(1,2) [symmetric]
    by (auto split: if_splits)
  then have "unat a = unat b" using xy by simp
  then show "a = b" by (simp add: word_unat_eq_iff)
qed simp

lemma poke_kvaz:
  "kvaz (mio (poke st a v m)) = fst (mem_write (ucast a) v st (kvaz (mio m), ()))"
  by (simp add: poke_def mem_write_def Let_def ucast_and_ffff)

interpretation vstack: ram_bus "vector_abus nofdc" vram_ok vram for nofdc
proof (unfold_locales, goal_cases)
  case (1 m st a v b)
  then show ?case
    using select_inj [of "kvaz (mio m)" a st b]
    by (auto simp: vector_abus_def poke_kvaz mem_peek_write ucast_and_ffff vram_ok_def vram_def)
next
  case (2 st a v m) show ?case by (simp add: vector_abus_def vram_ok_def poke_kvaz)
next
  case (3 st a v m st' b) show ?case by (simp add: vector_abus_def vram_def poke_kvaz)
qed

lemma core_execute:
  assumes "cpu_ok s"
  shows "snd (i8080_execute (vector_hal nofdc) (ucast op) s) = snd (isa_step (vector_abus nofdc) op s)"
  using vector.execute_ref(2) [OF cpu_ok_carry [OF assms], of nofdc op] by simp

lemma isa_step_ok: "cpu_ok s \<Longrightarrow> cpu_ok (snd (isa_step B op s))"
  using isa_tick_ok [OF isa_exec_ok, of s B B "decode op"]
  by (simp add: isa_step_def Let_def split_def cpu_ok_def cpu_simps)

text \<open>The registers a program sees; \<open>isa_step\<close> adds nothing to them.\<close>

definition registers :: "'h mach \<Rightarrow> u16 list \<times> flag_reg" where
  "registers s = ([AF s, BC s, DE s, HL s, SP s, PC s], FLAGS s)"

lemma registers_step: "registers (snd (isa_step B op s)) = registers (snd (isa_exec B (decode op) s))"
  by (simp add: isa_step_def isa_tick_def inte_def registers_def Let_def split_def cpu_simps)

lemma isa_top_tick:
  "isa_top (vector_abus nofdc) (set_CPU_CYCLES c (isa_tick (vector_abus nofdc) s)) = isa_top (vector_abus nofdc) s"
  by (simp add: isa_tick_def inte_def isa_top_def ab_read16_def vector_abus_def interrupt_def cpu_simps)

lemma registers_ret:
  "registers (isa_ret B s) = (case registers s of ([af, bc, de, hl, sp, pc], fl) \<Rightarrow>
     ([af, bc, de, hl, sp + 2, isa_top B s], fl))"
  by (simp add: registers_def isa_ret_def cpu_simps)

lemma call_ret_registers:
  fixes nofdc
  assumes "vram_ok (bus s)" "vram (bus s) True (SP s - 2)" "vram (bus s) True (SP s - 1)"
  defines "B \<equiv> vector_abus nofdc"
  shows "registers (snd (isa_step B 0xc9 (snd (isa_step B 0xcd s)))) = registers (set_PC (PC s + 2) s)"
proof -
  have d: "decode 0xcd = I_CALL" "decode 0xc9 = I_RET" by (simp_all add: vector.decode_simps)
  define s1 where "s1 = snd (isa_step B 0xcd s)"
  have r1: "registers s1 = registers (isa_call B s)" by (simp add: s1_def registers_step d)
  have t1: "isa_top B s1 = isa_top B (isa_call B s)"
    unfolding s1_def B_def by (simp add: isa_step_def d isa_top_tick)
  have "registers (snd (isa_step B 0xc9 s1)) = registers (isa_ret B s1)" by (simp add: registers_step d)
  also have "\<dots> = registers (isa_ret B (isa_call B s))" by (simp only: registers_ret r1 t1)
  also have "\<dots> = registers (set_PC (PC s + 2) s)"
    using vstack.ret_call [OF assms(1-3), of nofdc] unfolding B_def by (simp add: registers_def)
  finally show ?thesis by (simp add: s1_def)
qed

lemma retrieve_store_flags:
  assumes "flags_ok (FLAGS s)"
  shows "FLAGS (i8080_retrieve_flags (set_AF (AF (i8080_store_flags s)) s')) =
    (FLAGS s')\<lparr>sign_flag := sign_flag (FLAGS s), zero_flag := zero_flag (FLAGS s),
       half_carry_flag := half_carry_flag (FLAGS s), parity_flag := parity_flag (FLAGS s),
       carry_flag := carry_flag (FLAGS s)\<rparr>"
proof -
  define p where "p n = push_bit n (1 :: u8)" for n
  have m: "F_NEG = p 7" "F_ZERO = p 6" "F_HCARRY = p 4" "F_PARITY = p 2" "F_CARRY = p 0" "F_UN1 = p 1"
    "F_UN3 = p 3" "F_UN5 = p 5"
    by (simp_all add: F_NEG_def F_ZERO_def F_HCARRY_def F_PARITY_def F_CARRY_def F_UN1_def F_UN3_def
        F_UN5_def p_def push_bit_eq_mult)
  have t: "(w AND p n = 0) \<longleftrightarrow> \<not> bit w n" if "n < 8" for w :: u8 and n
    using that by (simp add: p_def push_bit_eq_mult and_exp_eq_0_iff_not_bit)
  have st: "bit (store_flag fl (p n) w) k = (if k = n then fl \<noteq> 0 else bit w k)"
    if "k < 8" "n < 8" for fl w n k
    using that by (auto simp: store_flag_def p_def bit_simps)
  have o: "bit (w OR p n) k = (k = n \<or> bit w k)" "bit (w AND NOT (p n)) k = (k \<noteq> n \<and> bit w k)"
    if "k < 8" for w :: u8 and n k using that by (auto simp: p_def bit_simps)
  have f: "bit (reg_F (i8080_store_flags s)) 7 = (sign_flag (FLAGS s) \<noteq> 0)"
    "bit (reg_F (i8080_store_flags s)) 6 = (zero_flag (FLAGS s) \<noteq> 0)"
    "bit (reg_F (i8080_store_flags s)) 4 = (half_carry_flag (FLAGS s) \<noteq> 0)"
    "bit (reg_F (i8080_store_flags s)) 2 = (parity_flag (FLAGS s) \<noteq> 0)"
    "bit (reg_F (i8080_store_flags s)) 0 = (carry_flag (FLAGS s) \<noteq> 0)"
    unfolding i8080_store_flags_def m by (simp_all add: cpu_simps Let_def st o del: bit_0)
  have b: "(if w \<noteq> 0 then 1 else 0) = w" if "is_bit w" for w :: u8 using that by (auto simp: is_bit_def)
  have g: "reg_F (set_AF (AF (i8080_store_flags s)) s') = reg_F (i8080_store_flags s)"
    "FLAGS (set_AF (AF (i8080_store_flags s)) s') = FLAGS s'" by (simp_all add: cpu_simps)
  show ?thesis
    using assms unfolding i8080_retrieve_flags_def Let_def m g
    by (simp add: set_FLAGS_def t f flags_ok_def b del: bit_0 bit_lo8 split del: if_split)
qed

lemma push_pop_psw:
  fixes nofdc
  assumes "cpu_ok s" "vram_ok (bus s)" "vram (bus s) True (SP s - 2)" "vram (bus s) True (SP s - 1)"
  defines "B \<equiv> vector_abus nofdc"
  shows "registers (snd (isa_step B 0xf1 (snd (isa_step B 0xf5 s)))) =
    registers (set_AF (AF (i8080_store_flags s)) s)"
proof -
  have d: "decode 0xf5 = I_PUSH S_PSW" "decode 0xf1 = I_POP S_PSW" by (simp_all add: vector.decode_simps)
  define t where "t = i8080_store_flags s"
  define s1 where "s1 = snd (isa_step B 0xf5 s)"
  have t: "bus t = bus s" "SP t = SP s" "PC t = PC s" "BC t = BC s" "DE t = DE s" "HL t = HL s" "FLAGS t = FLAGS s"
    by (simp_all add: t_def i8080_store_flags_def cpu_simps Let_def)
  have r1: "registers s1 = registers (isa_push B (AF t) t)" by (simp add: s1_def registers_step d t_def Let_def)
  have t1: "isa_top B s1 = isa_top B (isa_push B (AF t) t)"
    unfolding s1_def B_def by (simp add: isa_step_def d isa_top_tick t_def Let_def)
  have "isa_top B s1 = AF t"
    using vstack.top_push [of t nofdc "AF t"] assms(2-4) t t1 unfolding B_def by simp
  then have "registers (snd (isa_step B 0xf1 s1)) =
      ([AF t, BC t, DE t, HL t, SP t, PC t], FLAGS (i8080_retrieve_flags (set_AF (AF t) s1)))"
    using r1 unfolding registers_step d
    by (simp add: registers_def isa_pop_def isa_push_def cpu_simps Let_def i8080_retrieve_flags_def
        split del: if_split)
  moreover have "FLAGS (i8080_retrieve_flags (set_AF (AF t) s1)) = FLAGS s"
    using retrieve_store_flags [of s s1] assms(1) r1 t
    by (simp add: t_def [symmetric] cpu_ok_def registers_def isa_push_def cpu_simps Let_def)
  ultimately show ?thesis using t by (simp add: s1_def registers_def cpu_simps t_def [symmetric])
qed

text \<open>A machine at power-on, for the witnesses.\<close>

definition machine_on :: "unit machine" where
  "machine_on = \<lparr>mio = io_power_on, menv = (), b_inte = False, b_irq = False, mfault = None\<rparr>"

definition core_on :: "unit machine mach" where
  "core_on = i8080_init \<lparr>cpu = \<lparr>cpu_f = \<lparr>carry_flag = 0, unused1 = 0, parity_flag = 0, unused3 = 0,
     half_carry_flag = 0, unused5 = 0, zero_flag = 0, sign_flag = 0\<rparr>, cpu_af = 0, cpu_bc = 0, cpu_de = 0,
     cpu_hl = 0, cpu_sp = 0xc300, cpu_pc = 0, cpu_iff = 0, cpu_ei_pending = 0, cpu_cpu_cycles = 0,
     cpu_last_pc = 0\<rparr>, bus = machine_on\<rparr>"

lemma cpu_ok_init: "EI_PENDING s \<le> 2 \<Longrightarrow> IFF s \<le> 1 \<Longrightarrow> cpu_ok (i8080_init s)"
  by (auto simp: i8080_init_def cpu_ok_def flags_ok_def cpu_simps Let_def is_bit_def word_le_nat_alt
      word_unat_eq_iff)

lemma core_on_ok: "cpu_ok core_on" "vram_ok (bus core_on)" "vram (bus core_on) st a"
  by (simp_all add: core_on_def i8080_init_def cpu_ok_def flags_ok_def cpu_simps Let_def machine_on_def
      io_power_on_def IO_new_def vram_ok_def vram_def memory_init_def memory_ok_def page_ok_def in_boot_def)

subsection \<open>Properties\<close>



text \<open>One instruction: opcode, duration and effect are those of the instruction set.\<close>

theorem instruction_refines_isa:
  assumes "cpu_ok s"
  shows "(case i8080_instruction (vector_hal nofdc) s of (op, v, s') \<Rightarrow> (ucast op, v, s')) =
    isa_instruction (vector_abus nofdc) s"
  by (rule instruction_isa [OF assms])

theorem instruction_refines_isa_witness:
  "(case i8080_instruction (vector_hal True) core_on of (op, v, s') \<Rightarrow> (ucast op, v, s')) =
    isa_instruction (vector_abus True) core_on"
  by (rule instruction_refines_isa) (rule core_on_ok)

text \<open>C31: Invariant of the core: after any number of instructions the five condition flags and the
  interrupt flip-flop are 0 or 1 and an \<^verbatim>\<open>EI\<close> is at most two instructions from its effect.\<close>

theorem core_state_invariant:
  fixes s :: "unit machine mach"
  assumes "cpu_ok s"
  shows "cpu_ok ((core_step nofdc ^^ n) s)"
  using core_run [OF assms, where nofdc = nofdc and n = n] by blast

theorem core_state_invariant_witness: "cpu_ok ((core_step True ^^ 3) core_on)"
  by (rule core_state_invariant) (rule core_on_ok)

text \<open>Subroutines: executing \<^verbatim>\<open>CALL\<close> and then \<^verbatim>\<open>RET\<close> comes back to the
  instruction after the call with every register, the flags and the stack pointer as before, when
  the two stack bytes are not under the boot ROM, under every mapping of the RAM disk.\<close>

theorem call_then_return:
  assumes "cpu_ok s" "vram_ok (bus s)" "vram (bus s) True (SP s - 2)" "vram (bus s) True (SP s - 1)"
  shows "registers (snd (i8080_execute (vector_hal nofdc) 0xc9
      (snd (i8080_execute (vector_hal nofdc) 0xcd s)))) = registers (set_PC (PC s + 2) s)"
  using call_ret_registers [OF assms(2-4), where nofdc = nofdc] core_execute [OF assms(1), where nofdc = nofdc and op = "0xcd"]
    core_execute [OF isa_step_ok [OF assms(1)], where nofdc = nofdc and op = "0xc9"] by simp

theorem call_then_return_witness:
  "registers (snd (i8080_execute (vector_hal True) 0xc9
      (snd (i8080_execute (vector_hal True) 0xcd core_on)))) = registers (set_PC (PC core_on + 2) core_on)"
  by (rule call_then_return) (simp_all add: core_on_ok)

text \<open>The processor status word: \<^verbatim>\<open>PUSH PSW\<close> and then \<^verbatim>\<open>POP PSW\<close> restore the
  accumulator, every flag and the stack pointer; the flag byte of the register pair becomes the
  architectural one.\<close>

theorem psw_round_trip:
  assumes "cpu_ok s" "vram_ok (bus s)" "vram (bus s) True (SP s - 2)" "vram (bus s) True (SP s - 1)"
  shows "registers (snd (i8080_execute (vector_hal nofdc) 0xf1
      (snd (i8080_execute (vector_hal nofdc) 0xf5 s)))) =
    registers (set_AF (AF (i8080_store_flags s)) s)"
  using push_pop_psw [OF assms, where nofdc = nofdc] core_execute [OF assms(1), where nofdc = nofdc and op = "0xf5"]
    core_execute [OF isa_step_ok [OF assms(1)], where nofdc = nofdc and op = "0xf1"] by simp

theorem psw_round_trip_witness:
  "registers (snd (i8080_execute (vector_hal True) 0xf1
      (snd (i8080_execute (vector_hal True) 0xf5 core_on)))) =
    registers (set_AF (AF (i8080_store_flags core_on)) core_on)"
  by (rule psw_round_trip) (simp_all add: core_on_ok)

end
