(* ===== verification/Board.thy ===== *)
theory Board
  imports Hal
begin

text \<open>
  The board (\<^verbatim>\<open>src/board.cpp\<close>, \<^verbatim>\<open>src/board.h\<close>, \<^verbatim>\<open>src/breakpoint.h\<close>):
  it resets the machine, runs it instruction by instruction and frame by frame, delivers the frame
  interrupt, keeps the breakpoints and watchpoints of the debugger and saves and loads the state.

  The environment of the ports and the memory callbacks is the record \<open>dbg\<close>: the border colour
  and mode that the raster uses, and what a watchpoint changes.  The hook \<^verbatim>\<open>onbreakpoint\<close>
  of the debugger acts on the fields it may change (the stop flag, the value an input instruction is
  made to return) and on a state \<open>'x\<close> of its own; so do \<^verbatim>\<open>poll_debugger\<close> and
  \<^verbatim>\<open>hooks.frame\<close>.  The mixing of the sound samples is left out, the stepping of the sound
  devices is not.
\<close>

subsection \<open>Watchpoints\<close>

record Breakpoint =
  bp_addr :: int
  bp_kind :: int

record Watchpoint =
  wp_addr :: u32
  wp_length :: u32
  wp_type :: int

definition WP_WRITE :: int where "WP_WRITE = 0"
definition WP_READ :: int where "WP_READ = 1"
definition WP_ACCESS :: int where "WP_ACCESS = 2"

definition Watchpoint_new :: "int \<Rightarrow> int \<Rightarrow> int \<Rightarrow> Watchpoint" where
  "Watchpoint_new kind addr len =
     \<lparr>wp_addr = word_of_int addr, wp_length = word_of_int len, wp_type = kind\<rparr>"

type_synonym 'x hook = "bool \<times> int \<times> 'x \<Rightarrow> bool \<times> int \<times> 'x"

record 'x dbg = vid +
  debugger_interrupt :: bool
  ioread :: int
  hook_state :: 'x
  memory_watchpoints :: "Watchpoint list"
  onbreakpoint :: "'x hook option"

definition call_hook :: "'x hook option \<Rightarrow> 'x dbg \<Rightarrow> 'x dbg" where
  "call_hook h t =
     (case h of None \<Rightarrow> t
      | Some f \<Rightarrow>
          (let (d, r, x) = f (debugger_interrupt t, ioread t, hook_state t)
           in t\<lparr>debugger_interrupt := d, ioread := r, hook_state := x\<rparr>))"

definition iospace :: "u32 \<Rightarrow> bool" where
  "iospace addr \<longleftrightarrow> addr AND 0x80000000 \<noteq> 0"

definition watches :: "u32 \<Rightarrow> int \<Rightarrow> Watchpoint \<Rightarrow> bool" where
  "watches addr how item \<longleftrightarrow>
     (wp_type item = WP_ACCESS \<or> wp_type item = how) \<and>
     addr \<ge> wp_addr item \<and> addr < wp_addr item + wp_length item"

definition check_watchpoint :: "u32 \<Rightarrow> u8 \<Rightarrow> int \<Rightarrow> 'x dbg \<Rightarrow> 'x dbg" where
  "check_watchpoint addr value how t =
     (if list_ex (watches addr how) (memory_watchpoints t)
      then call_hook (onbreakpoint t) (t\<lparr>debugger_interrupt := True\<rparr>) else t)"

definition check_wp_read :: "'x dbg mem_callback" where
  "check_wp_read addr phys stack value t = check_watchpoint addr value WP_READ t"

definition check_wp_write :: "'x dbg mem_callback" where
  "check_wp_write addr phys stack value t = check_watchpoint addr value WP_WRITE t"

definition check_wp_ioread :: "u32 \<Rightarrow> u8 \<Rightarrow> 'x dbg \<Rightarrow> int \<times> 'x dbg" where
  "check_wp_ioread addr value t =
     (let t = check_watchpoint (0x80000000 OR addr) value WP_READ (t\<lparr>ioread := -1\<rparr>) in (ioread t, t))"

definition check_wp_iowrite :: "u32 \<Rightarrow> u8 \<Rightarrow> 'x dbg \<Rightarrow> 'x dbg" where
  "check_wp_iowrite addr value t = check_watchpoint (0x80000000 OR addr) value WP_WRITE t"

definition listen :: "Watchpoint \<Rightarrow> 'x dbg IO \<Rightarrow> 'x dbg IO" where
  "listen w io =
     (let io = (if onwrite (kvaz io) = None \<and> (wp_type w = WP_WRITE \<or> wp_type w = WP_ACCESS)
                then (if iospace (wp_addr w) then io\<lparr>io_onwrite := Some check_wp_iowrite\<rparr>
                      else io\<lparr>kvaz := (kvaz io)\<lparr>onwrite := Some check_wp_write\<rparr>\<rparr>)
                else io)
      in if onread (kvaz io) = None \<and> (wp_type w = WP_READ \<or> wp_type w = WP_ACCESS)
         then (if iospace (wp_addr w) then io\<lparr>io_onread := Some check_wp_ioread\<rparr>
               else io\<lparr>kvaz := (kvaz io)\<lparr>onwrite := Some check_wp_read\<rparr>\<rparr>)
         else io)"

definition refresh_watchpoint_listeners :: "Watchpoint list \<Rightarrow> 'x dbg IO \<Rightarrow> 'x dbg IO" where
  "refresh_watchpoint_listeners ws io =
     fold listen ws (io\<lparr>kvaz := (kvaz io)\<lparr>onwrite := None, onread := None\<rparr>,
                       io_onwrite := None, io_onread := None\<rparr>)"

subsection \<open>The board\<close>

record 'x board =
  core :: "'x dbg machine mach"
  filler :: PixelFiller
  aywrapper :: AYWrapper
  timerwrapper :: TimerWrapper
  between :: int
  instr_time :: int
  last_opcode :: u32
  frame_no :: int
  cadence_frames :: "int list option"
  cadence_length :: int
  cadence_seq :: int
  irq_carry :: bool
  boot :: "u8 list"
  debugging :: bool
  breakpoints :: "Breakpoint list"
  poll_debugger :: "'x hook option"
  frame_hook :: "(int \<Rightarrow> 'x hook) option"

definition upd_bus :: "('x dbg machine \<Rightarrow> 'x dbg machine) \<Rightarrow> 'x board \<Rightarrow> 'x board" where
  "upd_bus f b = b\<lparr>core := (core b)\<lparr>bus := f (bus (core b))\<rparr>\<rparr>"

definition upd_io :: "('x dbg IO \<Rightarrow> 'x dbg IO) \<Rightarrow> 'x board \<Rightarrow> 'x board" where
  "upd_io f b = upd_bus (\<lambda>m. m\<lparr>mio := f (mio m)\<rparr>) b"

definition upd_env :: "('x dbg \<Rightarrow> 'x dbg) \<Rightarrow> 'x board \<Rightarrow> 'x board" where
  "upd_env f b = upd_bus (\<lambda>m. m\<lparr>menv := f (menv m)\<rparr>) b"

datatype ResetMode = BLKSBR | BLKVVOD | LOADROM

text \<open>\<open>bootrom\<close> is what \<^verbatim>\<open>init_bootrom\<close> loads (a file of the user or the ROM linked into the
  program), \<open>options_pc\<close> the option \<^verbatim>\<open>pc\<close>.\<close>

definition reset :: "u8 list \<Rightarrow> u32 \<Rightarrow> ResetMode \<Rightarrow> 'x board \<Rightarrow> 'x board" where
  "reset bootrom options_pc mode b =
     (let b = upd_io (\<lambda>io. io\<lparr>ayc := ay_init\<rparr>) b;
          b = (case mode of
                 BLKVVOD \<Rightarrow>
                   (let b = (if boot b = [] then b\<lparr>boot := bootrom\<rparr> else b)
                    in upd_io (\<lambda>io. io\<lparr>kvaz := attach_boot (boot b) (kvaz io)\<rparr>) b)
               | BLKSBR \<Rightarrow> upd_io (\<lambda>io. io\<lparr>kvaz := detach_boot (kvaz io)\<rparr>) b
               | LOADROM \<Rightarrow>
                   (let b = upd_io (\<lambda>io. io\<lparr>kvaz := detach_boot (kvaz io)\<rparr>) b
                    in b\<lparr>core := i8080_setreg_sp 0xc300 (i8080_jump options_pc (core b))\<rparr>));
          b = upd_bus (\<lambda>m. m\<lparr>b_irq := False\<rparr>) (b\<lparr>last_opcode := 0\<rparr>)
      in b\<lparr>core := i8080_init (core b)\<rparr>)"

definition check_interrupt :: "bool \<Rightarrow> 'x board \<Rightarrow> bool \<times> 'x board" where
  "check_interrupt nofdc b =
     (if b_irq (bus (core b)) \<and> i8080_iff (core b) then
        (let b = upd_bus (interrupt False) b;
             b = (if last_opcode b = 0x76 then b\<lparr>core := i8080_jump (i8080_pc (core b) + 1) (core b)\<rparr> else b);
             b = b\<lparr>core := snd (i8080_execute (vector_hal nofdc) 0xff (core b))\<rparr>
         in (True, b\<lparr>instr_time := instr_time b + 16\<rparr>))
      else (False, b))"

text \<open>\<^verbatim>\<open>Soundnik::soundSteps\<close> without the floating-point mix: two clocks of the sound chip and
  one of the timer per step.\<close>

fun soundSteps :: "nat \<Rightarrow> ay \<times> AYWrapper \<times> I8253 \<times> TimerWrapper \<Rightarrow> ay \<times> AYWrapper \<times> I8253 \<times> TimerWrapper" where
  "soundSteps 0 st = st"
| "soundSteps (Suc n) (y, aw, tm, tw) =
     (let (_, aw) = step2 2 (aw\<lparr>wrapped := y\<rparr>); (_, tm, tw) = timer_step 1 (tm, tw)
      in soundSteps n (wrapped aw, aw, tm, tw))"

definition sound :: "'x board \<Rightarrow> 'x board" where
  "sound b =
     (let io = mio (bus (core b));
          (y, aw, tm, tw) =
            soundSteps (nat (instr_time b div 2)) (ayc io, aywrapper b, timer io, timerwrapper b)
      in upd_io (\<lambda>io. io\<lparr>ayc := y, timer := tm\<rparr>) (b\<lparr>aywrapper := aw, timerwrapper := tw\<rparr>))"

definition irq_threshold :: "int \<Rightarrow> int" where
  "irq_threshold thresh =
     (if thresh = 11 then 15 else if thresh = 13 then 15 else if thresh = 17 then 23
      else if thresh = 18 then 21 else thresh)"

definition irq_logic :: "'x board \<Rightarrow> 'x board" where
  "irq_logic b =
     (if firq (filler b) then
        (if irq_clk (filler b) > irq_threshold (uint (i8080_cycles (core b))) * 4
         then b\<lparr>irq_carry := True\<rparr>
         else upd_bus (\<lambda>m. m\<lparr>b_irq := (b_irq m \<or> b_inte m \<and> firq (filler b))\<rparr>) b)
      else if irq_carry b then upd_bus (\<lambda>m. m\<lparr>b_irq := (b_irq m \<or> b_inte m)\<rparr>) (b\<lparr>irq_carry := False\<rparr>)
      else b)"

definition tape :: "'x board \<Rightarrow> 'x board res" where
  "tape b =
     (if frame_no b > 60
      then bind_res (tape_advance (instr_time b) (tape_player (mio (bus (core b)))))
             (\<lambda>(_, w). Inr (upd_io (\<lambda>io. io\<lparr>tape_player := w\<rparr>) b))
      else Inr b)"

definition commit_times :: "u32 \<Rightarrow> int \<Rightarrow> int \<times> int" where
  "commit_times opcode time =
     (if opcode = 0xd3 then (let commit_time = (time - 4) * 4 in (commit_time, commit_time - 20))
      else (-1, -1))"

text \<open>\<^verbatim>\<open>Board::single_step\<close>: the instruction, then the raster for its time, the interrupt logic,
  the tape and the sound.\<close>

definition run_instruction :: "bool \<Rightarrow> 'x board \<Rightarrow> 'x board res" where
  "run_instruction nofdc b =
     (let b = (if instr_time b \<noteq> 0 \<and> between b = 0
               then b\<lparr>between := between b + instr_time b, instr_time := 0\<rparr> else b);
          (op, v, c) = i8080_instruction (vector_hal nofdc) (core b)
      in case mfault (bus c) of Some e \<Rightarrow> Inl e
         | None \<Rightarrow> Inr (b\<lparr>core := c, last_opcode := op, instr_time := instr_time b + v\<rparr>))"

definition run_raster :: "bool \<Rightarrow> 'x board \<Rightarrow> (int \<times> 'x board) res" where
  "run_raster update_screen b =
     (let m = bus (core b); (ct, ctp) = commit_times (last_opcode b) (instr_time b)
      in bind_res (fill (instr_time b * 4) ct ctp update_screen (filler b, mio m, menv m))
           (\<lambda>(afterbrk12, f, io, t).
              Inr (afterbrk12, upd_bus (\<lambda>m. m\<lparr>mio := io, menv := t\<rparr>) (b\<lparr>filler := f\<rparr>))))"

definition single_step :: "bool \<Rightarrow> bool \<Rightarrow> 'x board \<Rightarrow> 'x board res" where
  "single_step nofdc update_screen b =
     bind_res (run_instruction nofdc b) (\<lambda>b.
     bind_res (run_raster update_screen b) (\<lambda>(afterbrk12, b).
     bind_res (tape (irq_logic b)) (\<lambda>b.
       let b = sound b; time = instr_time b
       in Inr (b\<lparr>instr_time := afterbrk12 div 4, between := between b + time - afterbrk12 div 4\<rparr>))))"

definition check_breakpoint :: "'x board \<Rightarrow> bool" where
  "check_breakpoint b \<longleftrightarrow>
     \<lparr>bp_addr = uint (i8080_pc (core b)), bp_kind = 1\<rparr> \<in> set (breakpoints b)"

abbreviation stopped :: "'x board \<Rightarrow> bool" where
  "stopped b \<equiv> debugger_interrupt (menv (bus (core b)))"

text \<open>The breakpoint test of the frame loop; the flag says whether the loop is left.\<close>

definition break_test :: "'x board \<Rightarrow> bool \<times> 'x board" where
  "break_test b =
     (if debugging b \<and> check_breakpoint b then
        (let b = upd_env (\<lambda>t. call_hook (onbreakpoint t) (t\<lparr>debugger_interrupt := True\<rparr>)) b
         in (stopped b, b))
      else (False, b))"

text \<open>The loop of \<^verbatim>\<open>execute_frame\<close>, with fuel; \<open>None\<close> is out of fuel.  A frame has 59904
  processor clocks and an instruction takes at least four.\<close>

fun frame_loop :: "nat \<Rightarrow> bool \<Rightarrow> bool \<Rightarrow> 'x board \<Rightarrow> 'x board res option" where
  "frame_loop 0 nofdc update_screen b = None"
| "frame_loop (Suc n) nofdc update_screen b =
     (if \<not> brk (filler b) \<and> \<not> stopped b then
        (let (_, b) = check_interrupt nofdc b;
             b = b\<lparr>filler := (filler b)\<lparr>firq := False\<rparr>\<rparr>;
             (leave, b) = break_test b
         in if leave then Some (Inr b)
            else (case single_step nofdc update_screen b of Inl e \<Rightarrow> Some (Inl e)
                  | Inr b \<Rightarrow> frame_loop n nofdc update_screen b))
      else Some (Inr b))"

definition FRAME_FUEL :: nat where "FRAME_FUEL = 14977"

definition execute_frame ::
  "(nat \<Rightarrow> u32) \<Rightarrow> bool \<Rightarrow> bool \<Rightarrow> 'x board \<Rightarrow> (int \<times> 'x board) res option" where
  "execute_frame buf nofdc update_screen b =
     (let b = upd_env (call_hook (map_option (\<lambda>h. h (frame_no b)) (frame_hook b))) b;
          b = upd_env (call_hook (poll_debugger b)) b
      in if stopped b then Some (Inr (0, b))
         else map_option (map_sum id (\<lambda>b. (1, b)))
                (frame_loop FRAME_FUEL nofdc update_screen
                   (b\<lparr>frame_no := frame_no b + 1, filler := filler_reset buf (filler b),
                      irq_carry := False, between := 0\<rparr>)))"

definition cadence_allows :: "'x board \<Rightarrow> (bool \<times> 'x board) res" where
  "cadence_allows b =
     (case cadence_frames b of None \<Rightarrow> Inr (True, b)
      | Some frames \<Rightarrow>
          (let seq = cadence_seq b;
               b = b\<lparr>cadence_seq := (if cadence_seq b + 1 = cadence_length b then 0 else cadence_seq b + 1)\<rparr>
           in if 0 \<le> seq \<and> nat seq < length frames then Inr (frames ! nat seq \<noteq> 0, b) else Inl Undefined))"

definition execute_frame_with_cadence ::
  "(nat \<Rightarrow> u32) \<Rightarrow> bool \<Rightarrow> bool \<Rightarrow> bool \<Rightarrow> 'x board \<Rightarrow> (bool \<times> 'x board) res option" where
  "execute_frame_with_cadence buf nofdc update_screen use_cadence b =
     (case cadence_allows b of Inl e \<Rightarrow> Some (Inl e)
      | Inr (c, b) \<Rightarrow>
          if c \<or> \<not> use_cadence
          then map_option (map_sum id (\<lambda>(r, b). (r \<noteq> 0, b))) (execute_frame buf nofdc update_screen b)
          else Some (Inr (False, b)))"

subsection \<open>The duration of an instruction\<close>

definition time_ok :: "(int \<times> int) \<times> 'h mach \<Rightarrow> bool" where
  "time_ok r \<longleftrightarrow> 4 \<le> snd (fst r) \<and> snd (fst r) \<le> 24"

lemma time_ok_simps:
  "time_ok ((a, v), s) \<longleftrightarrow> 4 \<le> v \<and> v \<le> 24"
  "time_ok (if c then x else y) \<longleftrightarrow> (if c then time_ok x else time_ok y)"
  "time_ok (let z = e in f z) \<longleftrightarrow> time_ok (f e)"
  "time_ok (case p of (q, r) \<Rightarrow> g q r) \<longleftrightarrow> time_ok (g (fst p) (snd p))"
  by (simp_all add: time_ok_def split_def)

lemma exec_row_time:
  "time_ok (exec_0x H opcode s)" "time_ok (exec_1x H opcode s)" "time_ok (exec_2x H opcode s)"
  "time_ok (exec_3x H opcode s)" "time_ok (exec_4x H opcode s)" "time_ok (exec_5x H opcode s)"
  "time_ok (exec_6x H opcode s)" "time_ok (exec_7x H opcode s)" "time_ok (exec_8x H opcode s)"
  "time_ok (exec_9x H opcode s)" "time_ok (exec_Ax H opcode s)" "time_ok (exec_Bx H opcode s)"
  "time_ok (exec_Cx H opcode s)" "time_ok (exec_Dx H opcode s)" "time_ok (exec_Ex H opcode s)"
  "time_ok (exec_Fx H opcode s)"
  unfolding exec_0x_def exec_1x_def exec_2x_def exec_3x_def exec_4x_def exec_5x_def exec_6x_def exec_7x_def
    exec_8x_def exec_9x_def exec_Ax_def exec_Bx_def exec_Cx_def exec_Dx_def exec_Ex_def exec_Fx_def
  by (simp_all only: time_ok_simps) simp_all

lemma exec_switch_time: "opcode < 0x100 \<Longrightarrow> time_ok (exec_switch H opcode s)"
  by (simp add: exec_switch_def exec_row_time)

lemma ucast_u8_lt: "(ucast (v :: u8) :: u32) < 0x100"
  by (simp add: word_less_nat_alt unsigned_ucast_eq take_bit_nat_eq_self less_trans [OF unat_u8_lt])

lemma instruction_time:
  assumes "i8080_instruction H s = (op, v, s')"
  shows "4 \<le> v" "v \<le> 24" "op = 0xd3 \<Longrightarrow> v = 12"
proof -
  obtain w s1 where f: "FETCH H s = (w, s1)" by fastforce
  have v: "v = snd (fst (exec_switch H (ucast w) s1))" "op = ucast w"
    using assms by (auto simp: i8080_instruction_def i8080_execute_def f Let_def split_def)
  show "4 \<le> v" "v \<le> 24"
    using exec_switch_time [OF ucast_u8_lt, of H w s1] by (simp_all add: time_ok_def v)
  show "v = 12" if "op = 0xd3"
    using that unfolding v by (simp add: exec_switch_def exec_Dx_def Let_def split_def)
qed

subsection \<open>The raster during an instruction\<close>

lemma fill1_loop_beam:
  assumes "fill1_loop clocks ct ctp upd clk ab index (f, io, t) = Inr (clk', ab', index', f', io', t')"
    "beam_ok f" "even (clocks - clk)" "clk \<le> clocks"
  shows "clk' = clocks \<and> beam_ok f' \<and> (brk f \<longrightarrow> brk f') \<and> ab \<le> ab' \<and> ab' \<le> ab + (clocks - clk) \<and>
    even (ab' - ab) \<and> (\<not> brk f' \<longrightarrow> ab' = ab \<and> 2 * (beam_time f' - beam_time f) = clocks - clk)"
  using assms
proof (induction clocks ct ctp upd clk ab index "(f, io, t)" arbitrary: f io t rule: fill1_loop.induct)
  case (1 clocks ct ctp upd clk ab index f io t)
  show ?case
  proof (cases "clk < clocks")
    case False
    then show ?thesis using "1.prems" by (simp add: fill1_loop.simps [of clocks])
  next
    case True
    then obtain i f1 io1 t1 where s: "fill_step ct ctp upd clk (f, io, t) = Inr (i, f1, io1, t1)"
      and l: "fill1_loop clocks ct ctp upd (clk + 2) (ab + (if brk f1 then 2 else 0)) i (f1, io1, t1) =
        Inr (clk', ab', index', f', io', t')"
      using "1.prems"(1) by (auto simp: fill1_loop.simps [of clocks ct ctp upd clk] bind_res_Inr_iff)
    note st = fill_step_beam [OF "1.prems"(2) s]
    have c: "even (clocks - (clk + 2))" "clk + 2 \<le> clocks" using "1.prems"(3) True by presburger+
    note ih = "1.hyps" [OF True, where f = f1 and io = io1 and t = t1, unfolded fst_conv, OF l st(1) c]
    have "beam_time f1 = beam_time f + 1" if "\<not> brk f1"
    proof -
      have "beam_time f1 \<noteq> 0" using that st(4) by simp
      moreover have "0 \<le> beam_time f" "beam_time f < 119808"
        using "1.prems"(2) by (auto simp: beam_ok_def beam_time_def)
      ultimately show ?thesis using st(2) by (cases "beam_time f + 1 = 119808") auto
    qed
    then show ?thesis using ih st(4) by (auto split: if_splits)
  qed
qed

text \<open>What the raster leaves of an instruction's time once the frame has ended.\<close>

lemma fill_after:
  assumes "fill (4 * n) ct ctp upd (f, io, t) = Inr (ab, f', io', t')" "ct \<noteq> 0" "beam_ok f" "\<not> brk f" "0 \<le> n"
  shows "beam_ok f'" "0 \<le> ab" "ab \<le> 4 * n" "\<not> brk f' \<Longrightarrow> ab = 0"
    "\<not> brk f' \<Longrightarrow> beam_time f' = beam_time f + 2 * n"
proof -
  define f0 where "f0 = f\<lparr>fill1_count := fill1_count f + 4 * n\<rparr>"
  have b0: "beam_ok f0" "beam_time f0 = beam_time f" "\<not> brk f0"
    using assms(3,4) by (simp_all add: f0_def beam_ok_def beam_time_def)
  obtain clk ab1 i f1 io1 t1 where l:
      "fill1_loop (4 * n) ct ctp upd 0 0 0 (f0, io, t) = Inr (clk, ab1, i, f1, io1, t1)"
    and c: "commits clk ct ctp i (f1, io1, t1) = Inr (f', io', t')"
    and ab: "ab = (if ab1 \<noteq> 0 then ab1 - 2 else ab1)"
    using assms(1,2) by (auto simp: fill_def fill1_def f0_def bind_res_Inr_iff)
  have "f1 = f'" using c by (auto simp: commits_def bind_res_Inr_iff)
  with fill1_loop_beam [OF l b0(1)] assms(5) have r: "even ab1" "beam_ok f'" "0 \<le> ab1" "ab1 \<le> 4 * n"
    "\<not> brk f' \<longrightarrow> ab1 = 0 \<and> 2 * (beam_time f' - beam_time f0) = 4 * n" by auto
  from this(1) show "beam_ok f'" "0 \<le> ab" "ab \<le> 4 * n" "\<not> brk f' \<Longrightarrow> ab = 0"
    "\<not> brk f' \<Longrightarrow> beam_time f' = beam_time f + 2 * n"
    using r(2-) ab b0(2) by (auto elim!: evenE)
qed

subsection \<open>The frame loop\<close>

text \<open>The invariant at the head of the loop: the raster is in order, and time left over from the last
  frame has not been counted twice.\<close>

definition board_ok :: "nat \<Rightarrow> nat \<Rightarrow> 'x board \<Rightarrow> bool" where
  "board_ok W H b \<longleftrightarrow> frame_ok W H (filler b) \<and> 0 \<le> instr_time b \<and>
     (brk (filler b) \<or> between b = 0 \<or> instr_time b = 0)"

lemma frame_ok_firq [simp]: "frame_ok W H (f\<lparr>firq := x\<rparr>) = frame_ok W H f"
  by (simp add: frame_ok_def beam_ok_def colpos_def)

lemma beam_firq [simp]:
  "beam_ok (f\<lparr>firq := x\<rparr>) = beam_ok f" "beam_time (f\<lparr>firq := x\<rparr>) = beam_time f"
  by (simp_all add: beam_ok_def beam_time_def)

lemma upd_fields [simp]:
  "filler (upd_bus g b) = filler b" "instr_time (upd_bus g b) = instr_time b"
  "between (upd_bus g b) = between b" "last_opcode (upd_bus g b) = last_opcode b"
  "filler (upd_io h b) = filler b" "instr_time (upd_io h b) = instr_time b" "between (upd_io h b) = between b"
  "filler (upd_env k b) = filler b" "instr_time (upd_env k b) = instr_time b" "between (upd_env k b) = between b"
  by (simp_all add: upd_bus_def upd_io_def upd_env_def)

lemma step_fields [simp]:
  "filler (irq_logic b) = filler b" "instr_time (irq_logic b) = instr_time b" "between (irq_logic b) = between b"
  "filler (sound b) = filler b" "instr_time (sound b) = instr_time b" "between (sound b) = between b"
  by (simp_all add: irq_logic_def sound_def Let_def split_def)

lemma tape_fields:
  "tape b = Inr b' \<Longrightarrow> filler b' = filler b \<and> instr_time b' = instr_time b \<and> between b' = between b"
  by (auto simp: tape_def bind_res_Inr_iff split: if_splits)

lemma check_interrupt_fields [simp]:
  "filler (snd (check_interrupt nofdc b)) = filler b" "between (snd (check_interrupt nofdc b)) = between b"
  "instr_time (snd (check_interrupt nofdc b)) =
     instr_time b + (if b_irq (bus (core b)) \<and> i8080_iff (core b) then 16 else 0)"
  by (simp_all add: check_interrupt_def Let_def)

lemma break_test_fields [simp]:
  "filler (snd (break_test b)) = filler b" "between (snd (break_test b)) = between b"
  "instr_time (snd (break_test b)) = instr_time b"
  by (simp_all add: break_test_def Let_def)

lemma run_instruction_time:
  assumes "run_instruction nofdc b = Inr b'" "0 \<le> instr_time b"
    "between b = 0 \<or> instr_time b \<le> 16"
  shows "filler b' = filler b" "4 \<le> instr_time b'" "instr_time b' \<le> 40"
    "fst (commit_times (last_opcode b') (instr_time b')) \<noteq> 0"
proof -
  obtain op v c where i: "i8080_instruction (vector_hal nofdc) (core b) = (op, v, c)" by (metis prod_cases3)
  define t where "t = (if instr_time b \<noteq> 0 \<and> between b = 0 then 0 else instr_time b)"
  have b': "filler b' = filler b" "last_opcode b' = op" "instr_time b' = t + v"
    using assms(1) i by (auto simp: run_instruction_def Let_def t_def split: option.splits if_splits)
  note v = instruction_time [OF i]
  have t: "0 \<le> t" "t \<le> 16" using assms(2,3) by (auto simp: t_def)
  show "filler b' = filler b" by (fact b')
  show "4 \<le> instr_time b'" "instr_time b' \<le> 40" using b' v t by linarith+
  show "fst (commit_times (last_opcode b') (instr_time b')) \<noteq> 0"
    using b' v t by (auto simp: commit_times_def Let_def)
qed

lemma run_raster_step:
  assumes "run_raster upd b = Inr (ab, b')" "frame_ok W H (filler b)" "\<not> brk (filler b)"
    "0 \<le> instr_time b" "instr_time b \<le> 40" "fst (commit_times (last_opcode b) (instr_time b)) \<noteq> 0"
  shows "frame_ok W H (filler b')" "0 \<le> ab" "ab \<le> 160" "instr_time b' = instr_time b"
    "between b' = between b" "\<not> brk (filler b') \<Longrightarrow> ab = 0"
    "\<not> brk (filler b') \<Longrightarrow> beam_time (filler b') = beam_time (filler b) + 2 * instr_time b"
    "W * H \<le> j \<Longrightarrow> pixels (filler b') j = pixels (filler b) j"
proof -
  define m ct ctp where "m = bus (core b)" and "ct = fst (commit_times (last_opcode b) (instr_time b))"
    and "ctp = snd (commit_times (last_opcode b) (instr_time b))"
  obtain f io t where fl: "fill (4 * instr_time b) ct ctp upd (filler b, mio m, menv m) = Inr (ab, f, io, t)"
    and b': "b' = upd_bus (\<lambda>m. m\<lparr>mio := io, menv := t\<rparr>) (b\<lparr>filler := f\<rparr>)"
    using assms(1)
    by (auto simp: run_raster_def Let_def split_def m_def ct_def ctp_def bind_res_Inr_iff mult.commute)
  have ct: "ct \<noteq> 0" using assms(6) by (simp add: ct_def)
  have bo: "beam_ok (filler b)" using assms(2) by (simp add: frame_ok_def)
  note fa = fill_after [OF fl ct bo assms(3,4)]
  have "frame_ok W H f \<and> (\<forall>j \<ge> W * H. pixels f j = pixels (filler b) j)"
    using fill_frame_ok [OF assms(2,3) _ ct fl] assms(5) by simp
  then show "frame_ok W H (filler b')" "0 \<le> ab" "ab \<le> 160" "instr_time b' = instr_time b"
    "between b' = between b" "\<not> brk (filler b') \<Longrightarrow> ab = 0"
    "\<not> brk (filler b') \<Longrightarrow> beam_time (filler b') = beam_time (filler b) + 2 * instr_time b"
    "W * H \<le> j \<Longrightarrow> pixels (filler b') j = pixels (filler b) j"
    using fa assms(5) by (auto simp: b')
qed

lemma single_step_ok:
  assumes "single_step nofdc upd b = Inr b'" "frame_ok W H (filler b)" "\<not> brk (filler b)"
    "0 \<le> instr_time b" "between b = 0 \<or> instr_time b \<le> 16"
  shows "board_ok W H b'" "W * H \<le> j \<Longrightarrow> pixels (filler b') j = pixels (filler b) j"
    "\<not> brk (filler b') \<Longrightarrow> beam_time (filler b) + 8 \<le> beam_time (filler b')"
proof -
  obtain b1 b2 ab b3 where s: "run_instruction nofdc b = Inr b1" "run_raster upd b1 = Inr (ab, b2)"
    "tape (irq_logic b2) = Inr b3"
    and b': "b' = (sound b3)\<lparr>instr_time := ab div 4,
        between := between (sound b3) + instr_time (sound b3) - ab div 4\<rparr>"
    using assms(1) by (auto simp: single_step_def bind_res_Inr_iff Let_def)
  note i = run_instruction_time [OF s(1) assms(4,5)]
  have f1: "frame_ok W H (filler b1)" "\<not> brk (filler b1)" "0 \<le> instr_time b1"
    using assms(2,3) i by auto
  note r = run_raster_step [OF s(2) f1 i(3,4)]
  have f: "filler b' = filler b2" "instr_time b' = ab div 4" using tape_fields [OF s(3)] b' by simp_all
  show "board_ok W H b'"
    using r(1-3) r(6) by (cases "brk (filler b2)") (auto simp: board_ok_def f)
  show "pixels (filler b') j = pixels (filler b) j" if "W * H \<le> j"
    using r(8) [OF that] i(1) f by simp
  show "beam_time (filler b) + 8 \<le> beam_time (filler b')" if "\<not> brk (filler b')"
    using r(7) i(1,2) f that by auto
qed

text \<open>What the loop does before the instruction: accept an interrupt, test for a breakpoint.\<close>

definition loop_head :: "bool \<Rightarrow> 'x board \<Rightarrow> bool \<times> 'x board" where
  "loop_head nofdc b =
     (let b = snd (check_interrupt nofdc b) in break_test (b\<lparr>filler := (filler b)\<lparr>firq := False\<rparr>\<rparr>))"

lemma frame_loop_Suc:
  "frame_loop (Suc n) nofdc upd b =
     (if \<not> brk (filler b) \<and> \<not> stopped b
      then if fst (loop_head nofdc b) then Some (Inr (snd (loop_head nofdc b)))
           else (case single_step nofdc upd (snd (loop_head nofdc b)) of Inl e \<Rightarrow> Some (Inl e)
                 | Inr b \<Rightarrow> frame_loop n nofdc upd b)
      else Some (Inr b))"
  by (simp add: Let_def split_def loop_head_def)

lemma loop_head_stops: "fst (loop_head nofdc b) \<Longrightarrow> stopped (snd (loop_head nofdc b))"
  by (auto simp: loop_head_def break_test_def Let_def split: if_splits)

lemma loop_step:
  assumes "board_ok W H b" "\<not> brk (filler b)"
  shows "frame_ok W H (filler (snd (loop_head nofdc b)))" "\<not> brk (filler (snd (loop_head nofdc b)))"
    "0 \<le> instr_time (snd (loop_head nofdc b))"
    "between (snd (loop_head nofdc b)) = 0 \<or> instr_time (snd (loop_head nofdc b)) \<le> 16"
    "beam_time (filler (snd (loop_head nofdc b))) = beam_time (filler b)"
    "pixels (filler (snd (loop_head nofdc b))) = pixels (filler b)"
  using assms by (auto simp: board_ok_def loop_head_def Let_def)

definition frame_result :: "nat \<Rightarrow> nat \<Rightarrow> 'x board \<Rightarrow> 'x board res option \<Rightarrow> bool" where
  "frame_result W H b r \<longleftrightarrow>
     (case r of None \<Rightarrow> False | Some (Inl _) \<Rightarrow> True
      | Some (Inr b') \<Rightarrow> (brk (filler b') \<or> stopped b') \<and> frame_ok W H (filler b') \<and> 0 \<le> instr_time b' \<and>
          (\<forall>j \<ge> W * H. pixels (filler b') j = pixels (filler b) j))"

declare frame_loop.simps [simp del]

lemma frame_loop_ends:
  assumes "board_ok W H b" "119808 - beam_time (filler b) \<le> 8 * int n"
  shows "frame_result W H b (frame_loop (Suc n) nofdc upd b)"
  using assms
proof (induction n arbitrary: b)
  case 0
  then have False by (auto simp: board_ok_def frame_ok_def beam_ok_def beam_time_def)
  then show ?case ..
next
  case (Suc n)
  define h where "h = loop_head nofdc b"
  show ?case
  proof (cases "\<not> brk (filler b) \<and> \<not> stopped b")
    case False
    then show ?thesis
      using Suc.prems unfolding frame_loop_Suc [of "Suc n"] by (auto simp: board_ok_def frame_result_def)
  next
    case True
    note st = loop_step [OF Suc.prems(1) conjunct1 [OF True], of nofdc, folded h_def]
    show ?thesis
    proof (cases "fst h \<or> (\<exists>e. single_step nofdc upd (snd h) = Inl e)")
      case left: True
      then show ?thesis
        using True st loop_head_stops [of nofdc b, folded h_def]
        unfolding frame_loop_Suc [of "Suc n"] h_def [symmetric] by (auto simp: frame_result_def)
    next
      case False
      then obtain b3 where b3: "single_step nofdc upd (snd h) = Inr b3"
        by (cases "single_step nofdc upd (snd h)") auto
      note ok = single_step_ok [OF b3 st(1-4)]
      have "frame_result W H b3 (frame_loop (Suc n) nofdc upd b3)"
      proof (cases "brk (filler b3)")
        case True
        then show ?thesis using ok(1) by (simp add: frame_loop_Suc frame_result_def board_ok_def)
      next
        case False
        then show ?thesis using Suc.IH [OF ok(1)] ok(3) st(5) Suc.prems(2) by simp
      qed
      then show ?thesis
        using True False b3 ok(2) st(6) unfolding frame_loop_Suc [of "Suc n" _ _ b] h_def [symmetric]
        by (auto simp: frame_result_def split: option.splits sum.splits)
    qed
  qed
qed

lemma execute_frame_result:
  assumes "frame_ok W H (filler b)" "0 \<le> instr_time b"
  obtains b0 where "execute_frame buf nofdc upd b = Some (Inr (0, b0))" "stopped b0" "filler b0 = filler b"
      "instr_time b0 = instr_time b"
  | r where "execute_frame buf nofdc upd b = Some r"
      "case r of Inl _ \<Rightarrow> True
       | Inr (n, b') \<Rightarrow> n = 1 \<and> (brk (filler b') \<or> stopped b') \<and> frame_ok W H (filler b') \<and>
           0 \<le> instr_time b' \<and> (\<forall>j \<ge> W * H. pixels (filler b') j = buf j)"
proof -
  define b1 where "b1 = upd_env (call_hook (map_option (\<lambda>h. h (frame_no b)) (frame_hook b))) b"
  define b2 where "b2 = upd_env (call_hook (poll_debugger b1)) b1"
  define b3 where "b3 = b2\<lparr>frame_no := frame_no b2 + 1, filler := filler_reset buf (filler b2),
    irq_carry := False, between := 0\<rparr>"
  have f: "filler b2 = filler b" "instr_time b2 = instr_time b" by (simp_all add: b2_def b1_def)
  have unf: "execute_frame buf nofdc upd b = (if stopped b2 then Some (Inr (0, b2))
      else map_option (map_sum id (\<lambda>b. (1, b))) (frame_loop FRAME_FUEL nofdc upd b3))"
    unfolding execute_frame_def Let_def b1_def [symmetric] b2_def [symmetric] b3_def [symmetric] by simp
  have ok: "board_ok W H b3"
    using frame_ok_reset [OF assms(1), of buf] assms(2) by (simp add: board_ok_def b3_def f)
  have "0 \<le> beam_time (filler b3)" using ok by (simp add: board_ok_def frame_ok_def beam_ok_def beam_time_def)
  then have "frame_result W H b3 (frame_loop (Suc 14976) nofdc upd b3)"
    by (intro frame_loop_ends [OF ok]) simp
  then have r: "frame_result W H b3 (frame_loop FRAME_FUEL nofdc upd b3)" by (simp add: FRAME_FUEL_def)
  have p: "pixels (filler b3) = buf" by (simp add: b3_def filler_reset_def)
  show thesis
  proof (cases "stopped b2")
    case True
    then show ?thesis using f by (intro that(1) [of b2]) (simp_all add: unf)
  next
    case False
    obtain r' where r': "frame_loop FRAME_FUEL nofdc upd b3 = Some r'"
      using r by (auto simp: frame_result_def split: option.splits)
    show ?thesis
      by (rule that(2) [of "map_sum id (\<lambda>b. (1, b)) r'"])
         (use r r' False p in \<open>auto simp: unf frame_result_def split: sum.splits\<close>)
  qed
qed

subsection \<open>Interrupts\<close>

lemma execute_rst7:
  assumes "EI_PENDING s = 0"
  shows "snd (i8080_execute (vector_hal nofdc) 0xff s) =
    set_CPU_CYCLES 11 (set_PC 0x38 (set_SP (SP s - 2)
      (s\<lparr>bus := i8080_hal_memory_write_word (ucast (SP s - 2)) (ucast (PC s)) True (bus s)\<rparr>)))"
  using assms
  by (simp add: i8080_execute_def exec_switch_def exec_Fx_def RST_def PUSH_def WR_STACK_def vector_hal_def
      ei_tick_def cpu_simps Let_def)

lemma kvaz_memory_write:
  "kvaz (mio (memory_write a v st m)) = fst (mem_write a v st (kvaz (mio m), menv m))"
  "b_irq (memory_write a v st m) = b_irq m" "b_inte (memory_write a v st m) = b_inte m"
  by (simp_all add: memory_write_def split_def Let_def)

text \<open>The word that \<^verbatim>\<open>i8080_hal_memory_write_word\<close> leaves in memory, whatever is observing it.\<close>

lemma write_word_peek:
  fixes a w :: u16 and st :: bool
  assumes "memory_ok (kvaz (mio m))" "bootbytes (kvaz (mio m)) = []"
  defines "k \<equiv> kvaz (mio (i8080_hal_memory_write_word (ucast a) (ucast w) st m))"
  shows "mem_peek k (ucast a) st = lo8 w" "mem_peek k (ucast (a + 1)) st = hi8 w"
proof -
  have ne: "a + 1 \<noteq> a" by simp
  have nb: "\<not> in_boot (kvaz (mio m)) x" for x using assms(2) by (simp add: in_boot_def)
  have bytes: "(ucast ((ucast w :: u32) AND 0xff) :: u8) = lo8 w" "(ucast (drop_bit 8 (ucast w :: u32)) :: u8) = hi8 w"
    by (rule bit_word_eqI, auto simp: bit_simps low_bits add.commute)+
  have sel: "bigram_select (kvaz (mio m)) (ucast (a + 1)) st = bigram_select (kvaz (mio m)) (ucast a) st \<longleftrightarrow> False"
    using select_inj [OF assms(1), of "a + 1" st a] ne by simp
  show "mem_peek k (ucast a) st = lo8 w" "mem_peek k (ucast (a + 1)) st = hi8 w"
    unfolding k_def i8080_hal_memory_write_word_def kvaz_memory_write
    using assms(1) sel
    by (simp_all add: kvaz_memory_write mem_peek_write ucast_and_ffff ucast_succ_and_ffff nb bytes)
qed

lemma check_interrupt_accept:
  assumes "b_irq (bus (core b))" "i8080_iff (core b)" "EI_PENDING (core b) = 0"
  shows "check_interrupt nofdc b = (True, b\<lparr>instr_time := instr_time b + 16, core :=
    (let s = core b; pc = (if last_opcode b = 0x76 then PC s + 1 else PC s)
     in set_CPU_CYCLES 11 (set_PC 0x38 (set_SP (SP s - 2)
          (s\<lparr>bus := i8080_hal_memory_write_word (ucast (SP s - 2)) (ucast pc) True (interrupt False (bus s))\<rparr>))))\<rparr>)"
proof -
  have pc: "(ucast ((ucast (p :: u16) + 1 :: u32) AND 0xffff) :: u16) = p + 1" for p
    unfolding ucast_succ_and_ffff by simp
  have e: "EI_PENDING (core (upd_bus f b)) = 0" "EI_PENDING (i8080_jump x (core (upd_bus f b))) = 0" for f x
    using assms(3) by (simp_all add: upd_bus_def i8080_jump_def cpu_simps)
  show ?thesis
    using assms(1,2)
    by (simp add: check_interrupt_def Let_def execute_rst7 e)
       (simp add: upd_bus_def i8080_jump_def i8080_pc_def cpu_simps pc)
qed

subsection \<open>A board at power-on\<close>

definition dbg_zero :: "unit dbg" where
  "dbg_zero = \<lparr>border_index = 0, mode512 = False, debugger_interrupt = False, ioread = 0, hook_state = (),
     memory_watchpoints = [], onbreakpoint = None\<rparr>"

definition dbg_io :: "unit dbg IO" where
  "dbg_io = install_callbacks (IO_new \<lparr>palette = [], raw_palette = [], kvaz = memory_init, kbd = Keyboard_new,
     timer = \<lparr>counters = replicate 3 (CounterUnit_new 0 0 0 0), control_word = 0\<rparr>,
     fdc = fd_zero, ayc = ay_init, tape_player = wav_zero,
     io_CW = 0, io_PA = 0, io_PB = 0, io_PC = 0, PIA1_last = 0, io_CW2 = 0, io_PA2 = 0, io_PB2 = 0,
     io_PC2 = 0, outport = 0, outbyte = 0, palettebyte = 0, onborderchange = (\<lambda>_ t. t),
     onmodechange = (\<lambda>_ t. t), onruslat = None, rgb2pixelformat = (\<lambda>r g b. ucast r),
     io_onread = None, io_onwrite = None\<rparr>)"

definition board_on :: "unit board" where
  "board_on = \<lparr>core = \<lparr>cpu = cpu core_on, bus = \<lparr>mio = dbg_io, menv = dbg_zero, b_inte = False,
       b_irq = False, mfault = None\<rparr>\<rparr>,
     filler = filler_zero, aywrapper = \<lparr>wrapped = ay_init, ayAccu = 0, instr_accu = 0\<rparr>,
     timerwrapper = \<lparr>last_sound = 0\<rparr>, between = 0, instr_time = 0, last_opcode = 0, frame_no = 0,
     cadence_frames = None, cadence_length = 1, cadence_seq = 0, irq_carry = False, boot = [0xc3],
     debugging = False, breakpoints = [], poll_debugger = None, frame_hook = None\<rparr>"

lemma board_on_fields [simp]: "filler board_on = filler_zero" "instr_time board_on = 0"
  by (simp_all add: board_on_def)

subsection \<open>Properties\<close>

text \<open>C2: A frame always ends: whatever program runs, however it treats the ports and wherever the
  debugger has put breakpoints, the loop of one frame returns after at most 14976 instructions,
  because the raster reached the end of the frame or the debugger stopped the machine; the only
  other way out is an exception of a device.\<close>

theorem frame_always_ends:
  assumes "frame_ok W H (filler b)" "0 \<le> instr_time b"
  shows "\<exists>r. execute_frame buf nofdc upd b = Some r \<and>
    (case r of Inl _ \<Rightarrow> True | Inr (n, b') \<Rightarrow> if n = 0 then stopped b' else brk (filler b') \<or> stopped b')"
  by (rule execute_frame_result [OF assms, of buf nofdc upd]) (auto split: sum.splits)

theorem frame_always_ends_witness:
  "\<exists>r. execute_frame (\<lambda>_. 0) True True board_on = Some r \<and>
    (case r of Inl _ \<Rightarrow> True | Inr (n, b') \<Rightarrow> if n = 0 then stopped b' else brk (filler b') \<or> stopped b')"
  by (rule frame_always_ends [of 576 288]) (simp_all add: filler_zero_ok)

text \<open>C5: A whole frame draws inside its buffer: with a screen of W by H pixels no store of the frame
  reaches a pixel at or beyond W times H, and the raster is in order for the next frame.\<close>

theorem frame_draws_in_bounds:
  assumes "frame_ok W H (filler b)" "0 \<le> instr_time b"
  shows "case execute_frame buf nofdc upd b of
      Some (Inr (n, b')) \<Rightarrow> frame_ok W H (filler b') \<and> 0 \<le> instr_time b' \<and>
        (\<forall>j \<ge> W * H. pixels (filler b') j = (if n = 0 then pixels (filler b) else buf) j)
    | _ \<Rightarrow> True"
  by (rule execute_frame_result [OF assms, of buf nofdc upd]) (use assms in \<open>auto split: sum.splits\<close>)

theorem frame_draws_in_bounds_witness:
  "case execute_frame (\<lambda>_. 0) True True board_on of
      Some (Inr (n, b')) \<Rightarrow> frame_ok 576 288 (filler b') \<and> 0 \<le> instr_time b' \<and>
        (\<forall>j \<ge> 576 * 288. pixels (filler b') j = (if n = 0 then pixels (filler board_on) else (\<lambda>_. 0)) j)
    | _ \<Rightarrow> True"
  by (rule frame_draws_in_bounds) (simp_all add: filler_zero_ok)

text \<open>C6: Accepting the frame interrupt: the processor continues at 0038h with the return address on
  the stack (the address after the \<^verbatim>\<open>HLT\<close> it was waiting in, if it was), the other registers
  and flags unchanged, the request cleared and further interrupts off until the program enables
  them; it takes sixteen clocks.\<close>

theorem interrupt_acceptance:
  assumes "b_irq (bus (core b))" "i8080_iff (core b)" "EI_PENDING (core b) = 0"
    "memory_ok (kvaz (mio (bus (core b))))" "bootbytes (kvaz (mio (bus (core b)))) = []"
  shows "let b' = snd (check_interrupt nofdc b); s = core b; s' = core b'; k = kvaz (mio (bus s'));
      ret = (if last_opcode b = 0x76 then PC s + 1 else PC s) in
    fst (check_interrupt nofdc b) \<and>
    registers s' = ([AF s, BC s, DE s, HL s, SP s - 2, 0x38], FLAGS s) \<and>
    mem_peek k (ucast (SP s - 2)) True = lo8 ret \<and> mem_peek k (ucast (SP s - 1)) True = hi8 ret \<and>
    \<not> b_inte (bus s') \<and> \<not> b_irq (bus s') \<and> instr_time b' = instr_time b + 16"
proof -
  have ok: "memory_ok (kvaz (mio (interrupt False (bus (core b)))))"
    "bootbytes (kvaz (mio (interrupt False (bus (core b))))) = []"
    using assms(4,5) by (simp_all add: interrupt_def)
  have ww: "mem_peek (kvaz (mio (i8080_hal_memory_write_word (ucast (a - 2)) (ucast w) True
        (interrupt False (bus (core b)))))) (ucast (a - 2)) True = lo8 w"
    "mem_peek (kvaz (mio (i8080_hal_memory_write_word (ucast (a - 2)) (ucast w) True
        (interrupt False (bus (core b)))))) (ucast (a - 1)) True = hi8 w" for a w :: u16
    using write_word_peek [OF ok, of "a - 2" w True] by simp_all
  have irq: "\<not> b_inte (i8080_hal_memory_write_word a w st (interrupt False m))"
    "\<not> b_irq (i8080_hal_memory_write_word a w st (interrupt False m))" for a w st and m :: "'a dbg machine"
    by (simp_all add: i8080_hal_memory_write_word_def kvaz_memory_write interrupt_def)
  show ?thesis
    unfolding check_interrupt_accept [OF assms(1-3)] Let_def
    by (simp add: registers_def cpu_simps ww irq)
qed

definition irq_board :: "unit board" where
  "irq_board = board_on\<lparr>core := set_IFF 1 ((core board_on)\<lparr>bus := (bus (core board_on))\<lparr>b_irq := True, b_inte := True\<rparr>\<rparr>)\<rparr>"

theorem interrupt_acceptance_witness:
  "let b = irq_board; b' = snd (check_interrupt True b); s = core b; s' = core b'; k = kvaz (mio (bus s'));
      ret = (if last_opcode b = 0x76 then PC s + 1 else PC s) in
    fst (check_interrupt True b) \<and>
    registers s' = ([AF s, BC s, DE s, HL s, SP s - 2, 0x38], FLAGS s) \<and>
    mem_peek k (ucast (SP s - 2)) True = lo8 ret \<and> mem_peek k (ucast (SP s - 1)) True = hi8 ret \<and>
    \<not> b_inte (bus s') \<and> \<not> b_irq (bus s') \<and> instr_time b' = instr_time b + 16"
proof -
  have "b_irq (bus (core irq_board))" "i8080_iff (core irq_board)" "EI_PENDING (core irq_board) = 0"
    "memory_ok (kvaz (mio (bus (core irq_board))))" "bootbytes (kvaz (mio (bus (core irq_board)))) = []"
    by (simp_all add: irq_board_def board_on_def core_on_def i8080_init_def cpu_simps Let_def i8080_iff_def
        dbg_io_def install_callbacks_def IO_new_def memory_init_def memory_ok_def page_ok_def)
  from interrupt_acceptance [OF this, where nofdc = True] show ?thesis unfolding Let_def .
qed

text \<open>Reset: in every mode the processor restarts at address 0 with no interrupt pending, the boot
  ROM is attached by a power-on reset and detached by the others.  So the start address given to a
  reset that loads a ROM never takes effect.\<close>

theorem reset_restarts_at_zero:
  "let b' = reset rom options_pc mode b in
   PC (core b') = 0 \<and> \<not> b_irq (bus (core b')) \<and> last_opcode b' = 0 \<and>
   bootbytes (kvaz (mio (bus (core b')))) =
     (if mode = BLKVVOD then if boot b = [] then rom else boot b else []) \<and>
   bytes (kvaz (mio (bus (core b')))) = bytes (kvaz (mio (bus (core b))))"
  by (cases mode) (simp_all add: reset_def Let_def upd_io_def upd_bus_def i8080_init_def i8080_jump_def
      i8080_setreg_sp_def attach_boot_def detach_boot_def cpu_simps)

end
