(* ===== verification/Board_Debug.thy ===== *)
theory Board_Debug
  imports Board
begin

text \<open>
  The board as the debugger and the saved states see it (\<^verbatim>\<open>src/board.cpp\<close>, from
  \<^verbatim>\<open>read_memory\<close> on): memory and registers as strings of hexadecimal digits, breakpoints and
  watchpoints, and the four chunks of a saved state.
\<close>

subsection \<open>Memory and registers\<close>

definition hex_digit :: "nat \<Rightarrow> char" where
  "hex_digit n = ''0123456789abcdef'' ! n"

text \<open>\<^verbatim>\<open>sprintf("%02x")\<close> of a byte.\<close>

definition hex2 :: "u8 \<Rightarrow> string" where
  "hex2 v = [hex_digit (unat v div 16), hex_digit (unat v mod 16)]"

definition mem_read_io :: "u32 \<Rightarrow> 'x board \<Rightarrow> u8 \<times> 'x board" where
  "mem_read_io addr b =
     (let (v, t) = mem_read (kvaz (mio (bus (core b)))) addr False (menv (bus (core b)))
      in (v, upd_bus (\<lambda>m. m\<lparr>menv := t\<rparr>) b))"

fun read_loop :: "u32 \<Rightarrow> nat \<Rightarrow> 'x board \<Rightarrow> string \<times> 'x board" where
  "read_loop i 0 b = ([], b)"
| "read_loop i (Suc n) b =
     (let (v, b) = mem_read_io i b; (str, b) = read_loop (i + 1) n b in (hex2 v @ str, b))"

definition read_memory :: "u32 \<Rightarrow> nat \<Rightarrow> 'x board \<Rightarrow> string \<times> 'x board" where
  "read_memory start count b = read_loop start count b"

definition write_memory_byte :: "u32 \<Rightarrow> u32 \<Rightarrow> 'x board \<Rightarrow> 'x board" where
  "write_memory_byte addr value b = upd_bus (memory_write addr (ucast value) False) b"

definition hex2i :: "u32 \<Rightarrow> string" where
  "hex2i v = hex2 (ucast v)"

definition read_registers :: "'x board \<Rightarrow> string" where
  "read_registers b =
     (let c = core b
      in hex2i (i8080_regs_a c) @ hex2i (i8080_regs_f c) @
         hex2i (i8080_regs_c c) @ hex2i (i8080_regs_b c) @
         hex2i (i8080_regs_e c) @ hex2i (i8080_regs_d c) @
         hex2i (i8080_regs_l c) @ hex2i (i8080_regs_h c) @ ''00000000'' @
         hex2i (i8080_regs_sp c AND 0xff) @ hex2i (drop_bit 8 (i8080_regs_sp c) AND 0xff) @
         ''00000000000000000000'' @
         hex2i (i8080_pc c AND 0xff) @ hex2i (drop_bit 8 (i8080_pc c) AND 0xff))"

text \<open>The argument is a pointer to 26 bytes; a shorter block is read past its end.\<close>

definition write_registers :: "u8 list \<Rightarrow> 'x board \<Rightarrow> 'x board res" where
  "write_registers regs b =
     (if length regs < 26 then Inl Undefined
      else
        (let c = core b; c = i8080_setreg_a (ucast (regs ! 0)) c; c = i8080_setreg_f (ucast (regs ! 1)) c;
             c = i8080_setreg_c (ucast (regs ! 2)) c; c = i8080_setreg_b (ucast (regs ! 3)) c;
             c = i8080_setreg_e (ucast (regs ! 4)) c; c = i8080_setreg_d (ucast (regs ! 5)) c;
             c = i8080_setreg_l (ucast (regs ! 6)) c; c = i8080_setreg_h (ucast (regs ! 7)) c;
             c = i8080_setreg_sp (ucast (regs ! 12) OR push_bit 8 (ucast (regs ! 13))) c;
             c = i8080_jump (ucast (regs ! 24) OR push_bit 8 (ucast (regs ! 25))) c
         in Inr (b\<lparr>core := c\<rparr>)))"

subsection \<open>The debugger\<close>

definition debugger_break :: "'x board \<Rightarrow> 'x board" where
  "debugger_break b = upd_env (\<lambda>t. t\<lparr>debugger_interrupt := True\<rparr>) b"

definition debugger_continue :: "'x board \<Rightarrow> 'x board" where
  "debugger_continue b = upd_env (\<lambda>t. t\<lparr>debugger_interrupt := False\<rparr>) b"

definition debugger_attached :: "'x board \<Rightarrow> 'x board" where
  "debugger_attached b = debugger_break (b\<lparr>debugging := True\<rparr>)"

definition debugger_detached :: "'x board \<Rightarrow> 'x board" where
  "debugger_detached b = debugger_continue (b\<lparr>debugging := False\<rparr>)"

definition set_watchpoints :: "(Watchpoint list \<Rightarrow> Watchpoint list) \<Rightarrow> 'x board \<Rightarrow> 'x board" where
  "set_watchpoints f b =
     (let b = upd_env (\<lambda>t. t\<lparr>memory_watchpoints := f (memory_watchpoints t)\<rparr>) b
      in upd_io (refresh_watchpoint_listeners (memory_watchpoints (menv (bus (core b))))) b)"

definition insert_breakpoint :: "int \<Rightarrow> int \<Rightarrow> int \<Rightarrow> 'x board \<Rightarrow> string \<times> 'x board" where
  "insert_breakpoint ty addr kind b =
     (if ty = 0 \<or> ty = 1 then (''OK'', b\<lparr>breakpoints := breakpoints b @ [\<lparr>bp_addr = addr, bp_kind = kind\<rparr>]\<rparr>)
      else if ty = 2 then (''OK'', set_watchpoints (\<lambda>ws. ws @ [Watchpoint_new WP_WRITE addr kind]) b)
      else if ty = 3 then (''OK'', set_watchpoints (\<lambda>ws. ws @ [Watchpoint_new WP_READ addr kind]) b)
      else if ty = 4 then (''OK'', set_watchpoints (\<lambda>ws. ws @ [Watchpoint_new WP_ACCESS addr kind]) b)
      else ([], b))"

definition remove_breakpoint :: "int \<Rightarrow> int \<Rightarrow> int \<Rightarrow> 'x board \<Rightarrow> string \<times> 'x board" where
  "remove_breakpoint ty addr kind b =
     (if ty = 0 \<or> ty = 1 then
        (''OK'', b\<lparr>breakpoints := filter (\<lambda>p. p \<noteq> \<lparr>bp_addr = addr, bp_kind = kind\<rparr>) (breakpoints b)\<rparr>)
      else if ty = 2 then (''OK'', set_watchpoints (filter (\<lambda>w. w \<noteq> Watchpoint_new WP_WRITE addr kind)) b)
      else if ty = 3 then (''OK'', set_watchpoints (filter (\<lambda>w. w \<noteq> Watchpoint_new WP_READ addr kind)) b)
      else if ty = 4 then (''OK'', set_watchpoints (filter (\<lambda>w. w \<noteq> Watchpoint_new WP_ACCESS addr kind)) b)
      else ([], b))"

subsection \<open>Saved states\<close>

text \<open>The processor is saved as the bytes of its structure, 26 on a little-endian host.\<close>

definition le16 :: "u16 \<Rightarrow> u8 list" where
  "le16 w = [lo8 w, hi8 w]"

definition cpu_payload :: "i8080 \<Rightarrow> u8 list" where
  "cpu_payload c =
     (let f = cpu_f c
      in [carry_flag f, unused1 f, parity_flag f, unused3 f, half_carry_flag f, unused5 f, zero_flag f,
          sign_flag f] @
         le16 (cpu_af c) @ le16 (cpu_bc c) @ le16 (cpu_de c) @ le16 (cpu_hl c) @ le16 (cpu_sp c) @
         le16 (cpu_pc c) @ le16 (cpu_iff c) @ [cpu_ei_pending c, cpu_cpu_cycles c] @ le16 (cpu_last_pc c))"

definition cpu_deserialize :: "u8 list \<Rightarrow> i8080 option" where
  "cpu_deserialize it =
     (if length it < 26 then None
      else Some \<lparr>cpu_f = \<lparr>carry_flag = it ! 0, unused1 = it ! 1, parity_flag = it ! 2, unused3 = it ! 3,
               half_carry_flag = it ! 4, unused5 = it ! 5, zero_flag = it ! 6, sign_flag = it ! 7\<rparr>,
             cpu_af = mk16 (it ! 9) (it ! 8), cpu_bc = mk16 (it ! 11) (it ! 10),
             cpu_de = mk16 (it ! 13) (it ! 12), cpu_hl = mk16 (it ! 15) (it ! 14),
             cpu_sp = mk16 (it ! 17) (it ! 16), cpu_pc = mk16 (it ! 19) (it ! 18),
             cpu_iff = mk16 (it ! 21) (it ! 20), cpu_ei_pending = it ! 22, cpu_cpu_cycles = it ! 23,
             cpu_last_pc = mk16 (it ! 25) (it ! 24)\<rparr>)"

definition cpu_serialize :: "i8080 \<Rightarrow> u8 list \<Rightarrow> u8 list" where
  "cpu_serialize c to = insert_chunk to ID_CPU (cpu_payload c)"

definition self_payload :: "'x board \<Rightarrow> u8 list" where
  "self_payload b =
     [of_bool (b_inte (bus (core b))), of_bool (b_irq (bus (core b))), of_bool (irq_carry b)]"

definition serialize_self :: "'x board \<Rightarrow> u8 list \<Rightarrow> u8 list" where
  "serialize_self b to = insert_chunk to ID_BOARD (self_payload b)"

definition deserialize_self :: "u8 list \<Rightarrow> 'x board \<Rightarrow> 'x board option" where
  "deserialize_self it b =
     (case it of
        b0 # b1 # b2 # _ \<Rightarrow>
          Some (upd_bus (\<lambda>m. m\<lparr>b_inte := (b0 \<noteq> 0), b_irq := (b1 \<noteq> 0)\<rparr>) (b\<lparr>irq_carry := (b2 \<noteq> 0)\<rparr>))
      | _ \<Rightarrow> None)"

definition board_serialize :: "'x board \<Rightarrow> u8 list \<Rightarrow> u8 list" where
  "board_serialize b to =
     serialize_self b (cpu_serialize (cpu (core b)) (io_serialize (mio (bus (core b)))
       (memory_serialize (kvaz (mio (bus (core b)))) to)))"

definition load_chunk :: "u32 \<Rightarrow> u8 list \<Rightarrow> nat \<Rightarrow> 'x board \<Rightarrow> 'x board option" where
  "load_chunk sig it sz b =
     (if sig = ID_MEMORY then
        map_option (\<lambda>k. upd_io (\<lambda>io. io\<lparr>kvaz := k\<rparr>) b) (memory_deserialize it sz (kvaz (mio (bus (core b)))))
      else if sig = ID_IO then map_option (\<lambda>io. upd_io (\<lambda>_. io) b) (io_deserialize it (mio (bus (core b))))
      else if sig = ID_CPU then map_option (\<lambda>c. b\<lparr>core := (core b)\<lparr>cpu := c\<rparr>\<rparr>) (cpu_deserialize it)
      else deserialize_self it b)"

text \<open>The loop over the chunks; a chunk that reaches past the end of the vector is undefined
  behaviour, which is \<open>None\<close>.  The flag is the result of the function.\<close>

function load_chunks :: "u8 list \<Rightarrow> 'x board \<Rightarrow> (bool \<times> 'x board) option" where
  "load_chunks it b =
     (if it = [] then Some (True, b)
      else (case take_chunk it of None \<Rightarrow> None
            | Some (sig, sz, begin) \<Rightarrow>
                if length begin < unat sz then None
                else if sz = 0 then load_chunks begin b
                else if sig \<in> {ID_MEMORY, ID_IO, ID_CPU, ID_BOARD} then
                  (case load_chunk sig begin (unat sz) b of None \<Rightarrow> None
                   | Some b \<Rightarrow> load_chunks (drop (unat sz) begin) b)
                else Some (False, b)))"
  by pat_completeness auto

lemma un_le32_length: "un_le32 it = Some (w, it') \<Longrightarrow> length it = length it' + 4"
  by (cases it rule: un_le32.cases) auto

lemma take_chunk_length: "take_chunk it = Some (sig, sz, begin) \<Longrightarrow> length it = length begin + 8"
  by (auto simp: take_chunk_def dest!: un_le32_length split: option.splits)

termination load_chunks
  by (relation "measure (\<lambda>(it, _). length it)") (auto dest: take_chunk_length)

declare load_chunks.simps [simp del]

definition board_deserialize :: "u8 list \<Rightarrow> 'x board \<Rightarrow> (bool \<times> 'x board) option" where
  "board_deserialize from b = load_chunks from b"

lemma load_chunks_Nil [simp]: "load_chunks [] b = Some (True, b)"
  by (simp add: load_chunks.simps)

lemma load_chunks_insert:
  assumes "sig \<in> {ID_MEMORY, ID_IO, ID_CPU, ID_BOARD}" "chunk \<noteq> []" "length chunk < 2 ^ 32"
    "load_chunk sig (chunk @ rest) (length chunk) b = Some b'"
  shows "load_chunks (insert_chunk [] sig chunk @ rest) b = load_chunks rest b'"
proof -
  have u: "unat (word_of_nat (length chunk) :: u32) = length chunk"
    using assms(3) by (simp add: unsigned_of_nat take_bit_nat_eq_self)
  then have n: "(word_of_nat (length chunk) :: u32) \<noteq> 0"
    using assms(2) by (metis length_0_conv unat_0)
  have ne: "insert_chunk [] sig chunk \<noteq> []" using assms(2) by (simp add: insert_chunk_def)
  show ?thesis
    by (subst load_chunks.simps) (use assms(1,4) ne n u in \<open>simp add: take_insert_chunk\<close>)
qed

lemma board_serialize_eq:
  "board_serialize b [] =
     insert_chunk [] ID_MEMORY (memory_payload (kvaz (mio (bus (core b))))) @
     insert_chunk [] ID_IO (io_payload (mio (bus (core b)))) @
     insert_chunk [] ID_CPU (cpu_payload (cpu (core b))) @ insert_chunk [] ID_BOARD (self_payload b)"
  unfolding board_serialize_def serialize_self_def cpu_serialize_def io_serialize_def memory_serialize_def
  by (simp add: insert_chunk_def)

lemma cpu_deserialize_payload: "cpu_deserialize (cpu_payload c @ rest) = Some c"
  by (cases c; cases "cpu_f c")
     (simp add: cpu_deserialize_def cpu_payload_def le16_def Let_def)

lemma payload_lengths:
  "length (cpu_payload c) = 26" "length (self_payload b) = 3"
  "length (palette io) = 16 \<Longrightarrow> length (io_payload io) = 73"
  "length (memory_payload m) = 5 + TOTAL_MEMORY + length (bootbytes m)"
proof -
  have "length (concat (map le32 ws)) = 4 * length ws" for ws by (induction ws) simp_all
  then show "length (palette io) = 16 \<Longrightarrow> length (io_payload io) = 73" by (simp add: io_payload_def)
qed (simp_all add: cpu_payload_def self_payload_def memory_payload_def le16_def Let_def)

lemma ids_distinct: "ID_MEMORY \<noteq> ID_IO" "ID_MEMORY \<noteq> ID_CPU" "ID_MEMORY \<noteq> ID_BOARD" "ID_IO \<noteq> ID_CPU"
  "ID_IO \<noteq> ID_BOARD" "ID_CPU \<noteq> ID_BOARD"
  by (simp_all add: ID_MEMORY_def ID_IO_def ID_CPU_def ID_BOARD_def)

text \<open>What loading a saved board puts into another one.\<close>

definition restored_memory :: "'s memory \<Rightarrow> 's memory \<Rightarrow> 's memory" where
  "restored_memory m m0 = m\<lparr>bytes := (\<lambda>a. if unat a < TOTAL_MEMORY then bytes m a else bytes m0 a),
     onread := onread m0, onwrite := onwrite m0\<rparr>"

definition restored_io :: "'s IO \<Rightarrow> 's IO \<Rightarrow> 's IO" where
  "restored_io io io0 = io0\<lparr>kvaz := restored_memory (kvaz io) (kvaz io0), palette := palette io, io_CW := io_CW io,
     io_PA := io_PA io, io_PB := io_PB io, io_PC := io_PC io, PIA1_last := PIA1_last io, io_CW2 := io_CW2 io,
     io_PA2 := io_PA2 io, io_PB2 := io_PB2 io, io_PC2 := io_PC2 io\<rparr>"

definition restored :: "'x board \<Rightarrow> 'x board \<Rightarrow> 'x board" where
  "restored b b0 = b0\<lparr>core := \<lparr>cpu = cpu (core b), bus = (bus (core b0))\<lparr>
       mio := restored_io (mio (bus (core b))) (mio (bus (core b0))),
       b_inte := b_inte (bus (core b)), b_irq := b_irq (bus (core b))\<rparr>\<rparr>, irq_carry := irq_carry b\<rparr>"

lemma board_round_trip:
  fixes b b0 :: "'x board"
  defines "io \<equiv> mio (bus (core b))"
  assumes "memory_ok (kvaz io)" "length (palette io) = 16" "length (bootbytes (kvaz io)) \<le> 65536"
  shows "board_deserialize (board_serialize b []) b0 = Some (True, restored b b0)"
proof -
  define m0 where "m0 = bus (core b0)"
  define b1 where "b1 = upd_io (\<lambda>io0. io0\<lparr>kvaz := restored_memory (kvaz io) (kvaz io0)\<rparr>) b0"
  define b2 where "b2 = upd_io (restored_io io) b0"
  define b3 where "b3 = b2\<lparr>core := (core b2)\<lparr>cpu := cpu (core b)\<rparr>\<rparr>"
  have mem: "load_chunk ID_MEMORY (memory_payload (kvaz io) @ rest) (length (memory_payload (kvaz io))) b0 = Some b1"
    for rest
    by (simp add: load_chunk_def memory_deserialize_payload [OF assms(2)] b1_def restored_memory_def upd_io_def
        upd_bus_def)
  have ios: "load_chunk ID_IO (io_payload io @ rest) n b1 = Some b2" for rest n
    using ids_distinct assms(3)
    by (simp add: load_chunk_def io_deserialize_payload b1_def b2_def restored_io_def upd_io_def upd_bus_def)
  have cpu: "load_chunk ID_CPU (cpu_payload (cpu (core b)) @ rest) n b2 = Some b3" for rest n
    using ids_distinct by (simp add: load_chunk_def cpu_deserialize_payload b3_def)
  have self: "load_chunk ID_BOARD (self_payload b @ rest) n b3 = Some (restored b b0)" for rest n
    using ids_distinct
    by (simp add: load_chunk_def deserialize_self_def self_payload_def b3_def b2_def restored_def upd_io_def
        upd_bus_def io_def)
  have ne: "memory_payload (kvaz io) \<noteq> []" "io_payload io \<noteq> []" "cpu_payload (cpu (core b)) \<noteq> []"
    "self_payload b \<noteq> []"
    by (simp_all add: memory_payload_def io_payload_def cpu_payload_def self_payload_def Let_def)
  have len: "length (memory_payload (kvaz io)) < 2 ^ 32" "length (io_payload io) < 2 ^ 32"
    "length (cpu_payload (cpu (core b))) < 2 ^ 32" "length (self_payload b) < 2 ^ 32"
    using assms(3,4) by (simp_all add: payload_lengths TOTAL_MEMORY_def)
  have last: "load_chunks (insert_chunk [] ID_BOARD (self_payload b)) b3 = Some (True, restored b b0)"
    using load_chunks_insert [OF _ ne(4) len(4) self, where rest = "[]"] by simp
  show ?thesis
    unfolding board_deserialize_def board_serialize_eq io_def [symmetric]
    using load_chunks_insert [OF _ ne(1) len(1) mem] load_chunks_insert [OF _ ne(2) len(2) ios]
      load_chunks_insert [OF _ ne(3) len(3) cpu] last by simp
qed

lemma memory_payload_restored: "memory_payload (restored_memory m m0) = memory_payload m"
proof -
  have "buffer (restored_memory m m0) = buffer m"
    unfolding buffer_def
    by (rule map_cong) (simp_all add: restored_memory_def unsigned_of_nat take_bit_nat_eq_self TOTAL_MEMORY_def)
  then show ?thesis by (simp add: memory_payload_def) (simp add: restored_memory_def)
qed

lemma restored_again: "board_serialize (restored b b0) [] = board_serialize b []"
  by (simp add: board_serialize_eq restored_def restored_io_def io_payload_def self_payload_def
      memory_payload_restored)

subsection \<open>Watchpoints and breakpoints\<close>

lemma listen_onread [simp]: "onread (kvaz (listen w io)) = onread (kvaz io)"
  by (simp add: listen_def Let_def)

lemma refresh_onread: "onread (kvaz (refresh_watchpoint_listeners ws io)) = None"
proof -
  have "onread (kvaz (fold listen ws io)) = onread (kvaz io)" for io :: "'a dbg IO"
    by (induction ws arbitrary: io) simp_all
  then show ?thesis by (simp add: refresh_watchpoint_listeners_def)
qed

lemma refresh_keeps_write:
  "onwrite (kvaz io) \<noteq> None \<Longrightarrow> (\<forall>w \<in> set ws. wp_type w = WP_WRITE) \<Longrightarrow>
    onwrite (kvaz (fold listen ws io)) = onwrite (kvaz io)"
  by (induction ws arbitrary: io) (auto simp: listen_def Let_def WP_WRITE_def WP_READ_def WP_ACCESS_def)

text \<open>With write watchpoints only, the memory reports every write.\<close>

lemma refresh_onwrite:
  assumes "\<forall>w \<in> set ws. wp_type w = WP_WRITE" "\<exists>w \<in> set ws. \<not> iospace (wp_addr w)"
  shows "onwrite (kvaz (refresh_watchpoint_listeners ws io)) = Some check_wp_write"
proof -
  have "onwrite (kvaz (fold listen ws io)) = Some check_wp_write" if "onwrite (kvaz io) = None" for io :: "'a dbg IO"
    using assms that
  proof (induction ws arbitrary: io)
    case (Cons w ws)
    have t: "wp_type w = WP_WRITE" "\<forall>w \<in> set ws. wp_type w = WP_WRITE" using Cons.prems(1) by simp_all
    show ?case
    proof (cases "iospace (wp_addr w)")
      case True
      then show ?thesis
        using Cons.IH [of "listen w io"] Cons.prems t
        by (auto simp: listen_def Let_def WP_WRITE_def WP_READ_def WP_ACCESS_def)
    next
      case False
      then have "onwrite (kvaz (listen w io)) = Some check_wp_write"
        using Cons.prems(3) t by (simp add: listen_def Let_def WP_WRITE_def WP_READ_def WP_ACCESS_def)
      then show ?thesis using refresh_keeps_write [OF _ t(2), of "listen w io"] by simp
    qed
  qed simp
  then show ?thesis by (simp add: refresh_watchpoint_listeners_def)
qed

lemma write_reports:
  assumes "onwrite (kvaz (mio m)) = Some check_wp_write" "onbreakpoint (menv m) = None"
  shows "debugger_interrupt (menv (memory_write addr v st m)) =
    (debugger_interrupt (menv m) \<or> list_ex (watches addr WP_WRITE) (memory_watchpoints (menv m)))"
  using assms
  by (simp add: memory_write_def mem_write_def Let_def split_def callback_def check_wp_write_def
      check_watchpoint_def call_hook_def)

subsection \<open>Registers\<close>

lemma hex2i_low: "hex2i (ucast (w :: u16) AND 0xff) = hex2 (lo8 w)" "hex2i (drop_bit 8 (ucast w) AND 0xff) = hex2 (hi8 w)"
  "hex2i (ucast (v :: u8)) = hex2 v"
proof -
  have "(ucast ((ucast w :: u32) AND 0xff) :: u8) = lo8 w" "(ucast (drop_bit 8 (ucast w :: u32) AND 0xff) :: u8) = hi8 w"
    by (rule bit_word_eqI, auto simp: bit_simps low_bits add.commute)+
  then show "hex2i (ucast w AND 0xff) = hex2 (lo8 w)" "hex2i (drop_bit 8 (ucast w) AND 0xff) = hex2 (hi8 w)"
    "hex2i (ucast v) = hex2 v" by (simp_all add: hex2i_def)
qed

lemma pc_word: "(ucast ((ucast l OR push_bit 8 (ucast h) :: u32) AND 0xffff) :: u16) = mk16 h l"
  "(ucast (ucast (l :: u8) OR push_bit 8 (ucast (h :: u8)) :: u32) :: u16) = mk16 h l"
  by (rule bit_word_eqI, auto simp: bit_simps low_bits dest: bit_u8_bound)+

lemma read_registers_eq:
  "read_registers b =
     concat (map hex2 [reg_A (core b), reg_F (core b), reg_C (core b), reg_B (core b), reg_E (core b),
       reg_D (core b), reg_L (core b), reg_H (core b)]) @ ''00000000'' @
     hex2 (lo8 (SP (core b))) @ hex2 (hi8 (SP (core b))) @ ''00000000000000000000'' @
     hex2 (lo8 (PC (core b))) @ hex2 (hi8 (PC (core b)))"
  by (simp add: read_registers_def Let_def i8080_regs_a_def i8080_regs_f_def i8080_regs_c_def i8080_regs_b_def
      i8080_regs_e_def i8080_regs_d_def i8080_regs_l_def i8080_regs_h_def i8080_regs_sp_def i8080_pc_def
      hex2i_low)

lemma write_then_read_registers:
  assumes "length regs \<ge> 26" "write_registers regs b = Inr b'"
  shows "read_registers b' =
     concat (map hex2 (take 8 regs)) @ ''00000000'' @ hex2 (regs ! 12) @ hex2 (regs ! 13) @
     ''00000000000000000000'' @ hex2 (regs ! 24) @ hex2 (regs ! 25)"
proof -
  have t: "take 8 regs = [regs ! 0, regs ! 1, regs ! 2, regs ! 3, regs ! 4, regs ! 5, regs ! 6, regs ! 7]"
    using assms(1) by (intro nth_equalityI) (auto simp: less_Suc_eq numeral_eq_Suc)
  show ?thesis
    using assms unfolding read_registers_eq t
    by (auto simp: write_registers_def Let_def i8080_setreg_a_def i8080_setreg_f_def i8080_setreg_b_def
        i8080_setreg_c_def i8080_setreg_d_def i8080_setreg_e_def i8080_setreg_h_def i8080_setreg_l_def
        i8080_setreg_sp_def i8080_jump_def cpu_simps pc_word)
qed

lemma board_on_parts [simp]:
  "memory_ok (kvaz (mio (bus (core board_on))))" "length (palette (mio (bus (core board_on)))) = 16"
  "bootbytes (kvaz (mio (bus (core board_on)))) = []" "menv (bus (core board_on)) = dbg_zero"
  by (simp_all add: board_on_def dbg_io_def install_callbacks_def IO_new_def memory_init_def memory_ok_def
      page_ok_def)

subsection \<open>Properties\<close>

text \<open>C7: Saved states: loading what a board saved into any other board succeeds and restores the
  processor, the memory with its mapping and boot ROM, the palette and port registers and the
  interrupt state; saving that board again gives the same bytes.\<close>

theorem saved_state_round_trip:
  fixes b b0 :: "'x board"
  assumes "memory_ok (kvaz (mio (bus (core b))))" "length (palette (mio (bus (core b)))) = 16"
    "length (bootbytes (kvaz (mio (bus (core b))))) \<le> 65536"
  shows "\<exists>b'. board_deserialize (board_serialize b []) b0 = Some (True, b') \<and>
    cpu (core b') = cpu (core b) \<and> buffer (kvaz (mio (bus (core b')))) = buffer (kvaz (mio (bus (core b)))) \<and>
    b_inte (bus (core b')) = b_inte (bus (core b)) \<and> b_irq (bus (core b')) = b_irq (bus (core b)) \<and>
    board_serialize b' [] = board_serialize b []"
proof -
  have "buffer (restored_memory m m0) = buffer m" for m m0 :: "'x dbg memory"
    unfolding buffer_def
    by (rule map_cong) (simp_all add: restored_memory_def unsigned_of_nat take_bit_nat_eq_self TOTAL_MEMORY_def)
  then show ?thesis
    using board_round_trip [OF assms, of b0] restored_again [of b b0]
    by (intro exI [of _ "restored b b0"]) (simp add: restored_def restored_io_def)
qed

theorem saved_state_round_trip_witness:
  "\<exists>b'. board_deserialize (board_serialize board_on []) irq_board = Some (True, b') \<and>
    cpu (core b') = cpu (core board_on) \<and>
    buffer (kvaz (mio (bus (core b')))) = buffer (kvaz (mio (bus (core board_on)))) \<and>
    b_inte (bus (core b')) = b_inte (bus (core board_on)) \<and> b_irq (bus (core b')) = b_irq (bus (core board_on)) \<and>
    board_serialize b' [] = board_serialize board_on []"
  by (rule saved_state_round_trip) simp_all

text \<open>A chunk with an unknown signature: loading stops there and reports failure.\<close>

theorem unknown_chunk_is_rejected:
  assumes "sig \<notin> {ID_MEMORY, ID_IO, ID_CPU, ID_BOARD}" "chunk \<noteq> []" "length chunk < 2 ^ 32"
  shows "board_deserialize (insert_chunk [] sig chunk @ rest) b = Some (False, b)"
proof -
  have u: "unat (word_of_nat (length chunk) :: u32) = length chunk"
    using assms(3) by (simp add: unsigned_of_nat take_bit_nat_eq_self)
  then have n: "(word_of_nat (length chunk) :: u32) \<noteq> 0" using assms(2) by (metis length_0_conv unat_0)
  have ne: "insert_chunk [] sig chunk \<noteq> []" using assms(2) by (simp add: insert_chunk_def)
  show ?thesis
    unfolding board_deserialize_def
    by (subst load_chunks.simps) (use assms(1) ne n u in \<open>simp add: take_insert_chunk\<close>)
qed

theorem unknown_chunk_is_rejected_witness:
  "board_deserialize (insert_chunk [] 0x12345678 [1, 2] @ []) board_on = Some (False, board_on)"
  by (rule unknown_chunk_is_rejected) (simp_all add: ID_MEMORY_def ID_IO_def ID_CPU_def ID_BOARD_def)

text \<open>The registers the debugger writes are the registers it reads back, byte for byte in the
  order of the protocol.\<close>

theorem debugger_registers_round_trip:
  assumes "length regs \<ge> 26"
  shows "\<exists>b'. write_registers regs b = Inr b' \<and>
    read_registers b' = concat (map hex2 (take 8 regs)) @ ''00000000'' @ hex2 (regs ! 12) @ hex2 (regs ! 13) @
      ''00000000000000000000'' @ hex2 (regs ! 24) @ hex2 (regs ! 25)"
proof -
  obtain b' where "write_registers regs b = Inr b'" using assms by (simp add: write_registers_def Let_def)
  then show ?thesis using write_then_read_registers [OF assms] by blast
qed

theorem debugger_registers_round_trip_witness:
  "\<exists>b'. write_registers (replicate 26 0x5a) board_on = Inr b' \<and>
    read_registers b' = concat (map hex2 (take 8 (replicate 26 0x5a))) @ ''00000000'' @
      hex2 (replicate 26 0x5a ! 12) @ hex2 (replicate 26 0x5a ! 13) @
      ''00000000000000000000'' @ hex2 (replicate 26 0x5a ! 24) @ hex2 (replicate 26 0x5a ! 25)"
  by (rule debugger_registers_round_trip) simp

text \<open>Breakpoints: after a software or hardware breakpoint of kind 1 is inserted the machine
  stops there and everywhere it stopped before; after it is removed, however often it was
  inserted, it stops everywhere else it did.\<close>

theorem breakpoints_insert_remove:
  assumes "ty = 0 \<or> ty = 1"
  shows "check_breakpoint (snd (insert_breakpoint ty addr 1 b)) =
      (check_breakpoint b \<or> uint (i8080_pc (core b)) = addr) \<and>
    check_breakpoint (snd (remove_breakpoint ty addr 1 b)) =
      (check_breakpoint b \<and> uint (i8080_pc (core b)) \<noteq> addr)"
  using assms by (auto simp: insert_breakpoint_def remove_breakpoint_def check_breakpoint_def)

theorem breakpoints_insert_remove_witness:
  "check_breakpoint (snd (insert_breakpoint 0 0 1 board_on)) =
      (check_breakpoint board_on \<or> uint (i8080_pc (core board_on)) = 0) \<and>
    check_breakpoint (snd (remove_breakpoint 0 0 1 board_on)) =
      (check_breakpoint board_on \<and> uint (i8080_pc (core board_on)) \<noteq> 0)"
  by (rule breakpoints_insert_remove) simp



text \<open>A read watchpoint in memory never stops the machine at a read: whatever watchpoints are
  set, the memory's read callback stays empty, so no read changes the debugger's state.\<close>

theorem read_watchpoints_never_fire:
  "let m = bus (core (snd (insert_breakpoint 3 addr len b))) in
   snd (mem_read (kvaz (mio m)) a st (menv m)) = menv m"
  by (simp add: insert_breakpoint_def set_watchpoints_def Let_def upd_env_def upd_io_def upd_bus_def mem_read_def
      refresh_onread callback_def split_def)

end
