(* ===== verification/I8080_Inv.thy ===== *)
theory I8080_Inv
  imports I8080
begin

text \<open>
  Invariants of the machine behind the core: what every function of the hardware abstraction layer
  preserves, every instruction preserves.
\<close>

locale bus_invariant =
  fixes H :: "'h hal" and P :: "'h \<Rightarrow> bool"
  assumes read_byte_inv [simp]: "P h \<Longrightarrow> P (snd (hal_memory_read_byte H a h))"
    and write_byte_inv [simp]: "P h \<Longrightarrow> P (hal_memory_write_byte H a v h)"
    and read_word_inv [simp]: "P h \<Longrightarrow> P (snd (hal_memory_read_word H a st h))"
    and write_word_inv [simp]: "P h \<Longrightarrow> P (hal_memory_write_word H a w st h)"
    and io_input_inv [simp]: "P h \<Longrightarrow> P (snd (hal_io_input H p h))"
    and io_output_inv [simp]: "P h \<Longrightarrow> P (hal_io_output H p v h)"
    and iff_inv [simp]: "P h \<Longrightarrow> P (hal_iff H n h)"
begin

lemma macro_inv [simp]:
  assumes "P (bus s)"
  shows "P (bus (snd (RD_BYTE H a s)))" "P (bus (snd (RD_WORD H a s)))" "P (bus (snd (RD_STACK H a s)))"
    "P (bus (WR_BYTE H a v s))" "P (bus (WR_WORD H a w s))" "P (bus (WR_STACK H a w s))"
    "P (bus (snd (FETCH H s)))" "P (bus (PUSH H w s))" "P (bus (CALL H s))" "P (bus (RST H a' s))"
  using assms
  by (simp_all add: RD_BYTE_def RD_WORD_def RD_STACK_def WR_BYTE_def WR_WORD_def WR_STACK_def FETCH_def
      PUSH_def CALL_def RST_def Let_def split_def cpu_simps)

lemma bus_set [simp]:
  "bus (set_FLAGS fl s) = bus s" "bus (set_AF w s) = bus s" "bus (set_BC w s) = bus s"
  "bus (set_DE w s) = bus s" "bus (set_HL w s) = bus s" "bus (set_SP w s) = bus s" "bus (set_PC w s) = bus s"
  "bus (set_IFF w s) = bus s" "bus (set_EI_PENDING v s) = bus s" "bus (set_CPU_CYCLES v s) = bus s"
  "bus (set_C_FLAG v s) = bus s" "bus (set_A v s) = bus s" "bus (set_F v s) = bus s" "bus (set_B v s) = bus s"
  "bus (set_C v s) = bus s" "bus (set_D v s) = bus s" "bus (set_E v s) = bus s" "bus (set_H v s) = bus s"
  "bus (set_L v s) = bus s" "bus (i8080_store_flags s) = bus s" "bus (i8080_retrieve_flags s) = bus s"
  "bus (upd_a f s) = bus s" "bus (upd_hl g s) = bus s"
  by (simp_all add: cpu_simps i8080_store_flags_def i8080_retrieve_flags_def upd_a_def upd_hl_def Let_def
      split_def)

lemma upd8_bus [simp]:
  "(\<And>v s. bus (set_reg v s) = bus s) \<Longrightarrow> bus (upd8 f get_reg set_reg s) = bus s"
  by (simp add: upd8_def Let_def split_def cpu_simps)

lemma POP_inv [simp]:
  "P (bus s) \<Longrightarrow> (\<And>v s. bus (set_reg v s) = bus s) \<Longrightarrow> P (bus (POP H set_reg s))"
  by (simp add: POP_def Let_def split_def)

definition keeps :: "(int \<times> int) \<times> 'h mach \<Rightarrow> bool" where
  "keeps r \<longleftrightarrow> P (bus (snd r))"

lemma keeps_simps:
  "keeps (c, s) \<longleftrightarrow> P (bus s)"
  "keeps (if c' then x else y) \<longleftrightarrow> (if c' then keeps x else keeps y)"
  "keeps (let z = e in f z) \<longleftrightarrow> keeps (f e)"
  "keeps (case p of (q, r) \<Rightarrow> g q r) \<longleftrightarrow> keeps (g (fst p) (snd p))"
  by (simp_all add: keeps_def split_def)

lemma keeps_rows:
  assumes "P (bus s)"
  shows "keeps (exec_0x H opcode s)" "keeps (exec_1x H opcode s)" "keeps (exec_2x H opcode s)"
    "keeps (exec_3x H opcode s)" "keeps (exec_4x H opcode s)" "keeps (exec_5x H opcode s)"
    "keeps (exec_6x H opcode s)" "keeps (exec_7x H opcode s)" "keeps (exec_8x H opcode s)"
    "keeps (exec_9x H opcode s)" "keeps (exec_Ax H opcode s)" "keeps (exec_Bx H opcode s)"
    "keeps (exec_Cx H opcode s)" "keeps (exec_Dx H opcode s)" "keeps (exec_Ex H opcode s)"
    "keeps (exec_Fx H opcode s)"
  using assms unfolding exec_0x_def exec_1x_def exec_2x_def exec_3x_def exec_4x_def exec_5x_def exec_6x_def
    exec_7x_def exec_8x_def exec_9x_def exec_Ax_def exec_Bx_def exec_Cx_def exec_Dx_def exec_Ex_def exec_Fx_def
  by (simp_all only: keeps_simps) (simp_all add: Let_def split_def)

lemma exec_switch_inv: "P (bus s) \<Longrightarrow> P (bus (snd (exec_switch H opcode s)))"
  using keeps_rows [of s opcode] by (simp add: exec_switch_def keeps_def)

lemma ei_tick_inv: "P (bus s) \<Longrightarrow> P (bus (ei_tick H s))"
  by (simp add: ei_tick_def Let_def)

lemma execute_inv: "P (bus s) \<Longrightarrow> P (bus (snd (i8080_execute H opcode s)))"
  by (simp add: i8080_execute_def Let_def split_def ei_tick_inv exec_switch_inv)

lemma instruction_inv: "P (bus s) \<Longrightarrow> P (bus (snd (snd (i8080_instruction H s))))"
  by (simp add: i8080_instruction_def Let_def split_def execute_inv)

end

end
