(* ===== verification/Machine_Inv.thy ===== *)
theory Machine_Inv
  imports Board_Debug I8080_Inv
begin

text \<open>
  The invariant of the running machine: the page registers select existing memory, the timer has
  its three counters, the palette its sixteen entries, the sound chip is in a state whose table
  lookups are in range, and an interrupt is requested only while the processor enables it.  Every
  instruction, every port write committed by the raster, every frame and every action of the user
  or the debugger preserves it.
\<close>

definition io_ok :: "'s IO \<Rightarrow> bool" where
  "io_ok io \<longleftrightarrow> memory_ok (kvaz io) \<and> length (counters (timer io)) = 3 \<and> length (palette io) = 16 \<and>
     ay_ok (ayc io)"

definition machine_ok :: "'s machine \<Rightarrow> bool" where
  "machine_ok m \<longleftrightarrow> io_ok (mio m) \<and> (b_irq m \<longrightarrow> b_inte m)"

subsection \<open>The hardware abstraction layer\<close>

lemma timer_ops_length:
  "length (counters (snd (timer_read a t))) = length (counters t)"
  "timer_write a w t = Some t' \<Longrightarrow> length (counters t') = length (counters t)"
  "length (counters (snd (timer_Count n t))) = 3"
  by (auto simp: timer_read_def timer_write_def timer_write_cw_def timer_Count_def Let_def split_def
      split: if_splits)

lemma io_ok_upd [simp]:
  "io_ok (io\<lparr>outport := p\<rparr>) = io_ok io" "io_ok (io\<lparr>outbyte := v\<rparr>) = io_ok io"
  "io_ok (io\<lparr>fdc := f\<rparr>) = io_ok io" "io_ok (io\<lparr>palettebyte := v\<rparr>) = io_ok io"
  "io_ok (io\<lparr>tape_player := w\<rparr>) = io_ok io" "io_ok (io\<lparr>kbd := k\<rparr>) = io_ok io"
  "io_ok (io\<lparr>raw_palette := rp\<rparr>) = io_ok io"
  "io_ok (io\<lparr>io_CW := r\<rparr>) = io_ok io" "io_ok (io\<lparr>io_PA := r\<rparr>) = io_ok io" "io_ok (io\<lparr>io_PB := r\<rparr>) = io_ok io"
  "io_ok (io\<lparr>io_PC := r\<rparr>) = io_ok io" "io_ok (io\<lparr>PIA1_last := r\<rparr>) = io_ok io"
  "io_ok (io\<lparr>io_CW2 := r\<rparr>) = io_ok io" "io_ok (io\<lparr>io_PA2 := r\<rparr>) = io_ok io"
  "io_ok (io\<lparr>io_PB2 := r\<rparr>) = io_ok io" "io_ok (io\<lparr>io_PC2 := r\<rparr>) = io_ok io"
  "io_ok (io\<lparr>io_onread := x\<rparr>) = io_ok io" "io_ok (io\<lparr>io_onwrite := y\<rparr>) = io_ok io"
  by (simp_all add: io_ok_def)

lemma fdc_in_ok: "fdc_in nofdc a io = Inr (v, io') \<Longrightarrow> io_ok io \<Longrightarrow> io_ok io'"
  by (auto simp: fdc_in_def bind_res_Inr_iff)

lemma port_in_ok: "port_in nofdc p io = Inr (v, io') \<Longrightarrow> io_ok io \<Longrightarrow> io_ok io'"
  by (auto simp: port_in_def dest: fdc_in_ok split: if_splits)

lemma io_input_ok: "io_input nofdc p (io, t) = Inr (v, io', t') \<Longrightarrow> io_ok io \<Longrightarrow> io_ok io'"
proof (cases "p = 0x08 \<or> p = 0x09 \<or> p = 0x0a \<or> p = 0x0b")
  case True
  assume "io_input nofdc p (io, t) = Inr (v, io', t')" "io_ok io"
  then show ?thesis
    using True timer_ops_length(1) [of "NOT (p AND 3)" "timer io"]
    by (auto simp: io_input_def io_ok_def Let_def split_def)
next
  case False
  assume "io_input nofdc p (io, t) = Inr (v, io', t')" "io_ok io"
  then show ?thesis
    using False by (auto simp: io_input_def bind_res_Inr_iff split_def Let_def split: option.splits dest: port_in_ok)
qed

lemma memory_write_kvaz:
  "kvaz (mio (memory_write a v st m)) = fst (mem_write a v st (kvaz (mio m), menv m))"
  "mio (memory_write a v st m) = (mio m)\<lparr>kvaz := fst (mem_write a v st (kvaz (mio m), menv m))\<rparr>"
  "b_irq (memory_write a v st m) = b_irq m" "b_inte (memory_write a v st m) = b_inte m"
  "menv (memory_write a v st m) = snd (mem_write a v st (kvaz (mio m), menv m))"
  by (simp_all add: memory_write_def split_def Let_def)

lemma io_ok_kvaz: "io_ok io \<Longrightarrow> memory_ok k \<Longrightarrow> io_ok (io\<lparr>kvaz := k\<rparr>)"
  by (simp add: io_ok_def)

lemma memory_write_ok: "machine_ok m \<Longrightarrow> machine_ok (memory_write a v st m)"
  by (simp add: machine_ok_def memory_write_kvaz io_ok_def)

interpretation machine: bus_invariant "vector_hal nofdc" machine_ok for nofdc
proof (unfold_locales, goal_cases)
  case (5 h p)
  then show ?case
    by (auto simp: vector_hal_def i8080_hal_io_input_def machine_ok_def dest: io_input_ok split: sum.splits)
qed (simp_all add: vector_hal_def i8080_hal_memory_read_byte_def i8080_hal_memory_write_byte_def
      i8080_hal_memory_read_word_def i8080_hal_memory_write_word_def i8080_hal_io_output_def
      i8080_hal_iff_def interrupt_def io_output_def memory_write_ok split_def Let_def machine_ok_def
      memory_write_kvaz io_ok_def)

subsection \<open>Committed port writes\<close>

lemma ruslat_changed_ok: "io_ok (fst (ruslat_changed old iot)) = io_ok (fst iot)"
  by simp

lemma out_ok:
  assumes "io_ok (fst iot)"
  shows "io_ok (fst (out_01 w iot))" "io_ok (fst (out_02 w iot))" "io_ok (fst (out_03 w iot))"
    "io_ok (fst (out_00 w iot))"
proof -
  have o: "io_ok (fst (out_01 w iot))" "io_ok (fst (out_02 w iot))" "io_ok (fst (out_03 w iot))"
    if "io_ok (fst iot)" for w and iot :: "'a IO \<times> 'a"
    using that by (simp_all add: out_01_def out_02_def out_03_def Let_def split_def)
  show "io_ok (fst (out_01 w iot))" "io_ok (fst (out_02 w iot))" "io_ok (fst (out_03 w iot))"
    by (rule o [OF assms])+
  show "io_ok (fst (out_00 w iot))"
    using assms by (simp add: out_00_def Let_def split_def o)
qed

lemma fdc_out_ok: "fdc_out a w io = Inr io' \<Longrightarrow> io_ok io \<Longrightarrow> io_ok io'"
  by (auto simp: fdc_out_def bind_res_Inr_iff)

lemma realoutput_ok:
  assumes "realoutput p w (io, t) = Inr (io', t')" "io_ok io"
  shows "io_ok io'"
proof -
  have tm: "io_ok (io\<lparr>timer := t\<rparr>)" if "length (counters t) = 3" for t
    using assms(2) that by (simp add: io_ok_def)
  have k: "io_ok (io\<lparr>kvaz := control_write w (kvaz io)\<rparr>)" "io_ok (io\<lparr>ayc := ay_write a v (ayc io)\<rparr>)" for a v
    using assms(2) by (simp_all add: io_ok_def control_write_ok ay_write_ok)
  have f: "io_ok io'" if "map_sum id (\<lambda>io. (io, t)) (fdc_out a w io) = Inr (io', t')" for a
    using that assms(2) by (cases "fdc_out a w io") (auto dest: fdc_out_ok)
  have fo: "io_ok (fst (io, t))" using assms(2) by simp
  have o: "io_ok io'" if "out_00 w (io, t) = (io', t') \<or> out_01 w (io, t) = (io', t') \<or>
      out_02 w (io, t) = (io', t') \<or> out_03 w (io, t) = (io', t')"
    using that out_ok [OF fo, of w] by (metis fst_conv)
  have "length (counters t0) = 3" if "timer_write a w (timer io) = Some t0" for a t0
    using timer_ops_length(2) [OF that] assms(2) by (simp add: io_ok_def)
  then show ?thesis
    using assms unfolding realoutput_def Let_def prod.case
    by (auto intro: tm k f o split: if_splits option.splits)
qed

lemma commit_ok: "commit (io, t) = Inr (io', t') \<Longrightarrow> io_ok io \<Longrightarrow> io_ok io'"
  by (auto simp: commit_def bind_res_Inr_iff split: if_splits dest: realoutput_ok)

lemma commit_palette_ok: "io_ok io \<Longrightarrow> io_ok (commit_palette index io)"
  by (auto simp: commit_palette_def Let_def io_ok_def)

lemma commits_ok:
  "commits clk ct ctp index (f, io, t) = Inr (f', io', t') \<Longrightarrow> io_ok io \<Longrightarrow> io_ok io'"
  by (auto simp: commits_def bind_res_Inr_iff commit_palette_ok dest: commit_ok split: if_splits)

lemma fill_step_ok:
  "fill_step ct ctp upd clk (f, io, t) = Inr (i, f', io', t') \<Longrightarrow> io_ok io \<Longrightarrow> io_ok io'"
  by (auto simp: fill_step_def Let_def bind_res_Inr_iff split_def dest: commits_ok)

lemma fill1_loop_ok:
  assumes "fill1_loop clocks ct ctp upd clk ab index (f, io, t) = Inr (clk', ab', index', f', io', t')"
    "io_ok io"
  shows "io_ok io'"
  using assms
proof (induction clocks ct ctp upd clk ab index "(f, io, t)" arbitrary: f io t rule: fill1_loop.induct)
  case (1 clocks ct ctp upd clk ab index f io t)
  show ?case
  proof (cases "clk < clocks")
    case False
    then show ?thesis using "1.prems" by (simp add: fill1_loop.simps [of clocks])
  next
    case True
    then obtain i f1 io1 t1 where s: "fill_step ct ctp upd clk (f, io, t) = Inr (i, f1, io1, t1)"
      and l: "fill1_loop clocks ct ctp upd (clk + 2) (ab + (if brk f1 then 2 else 0)) i (f1, io1, t1) =
        Inr (clk', ab', index', f', io', t')"
      using "1.prems"(1) by (auto simp: fill1_loop.simps [of clocks ct ctp upd clk] bind_res_Inr_iff)
    show ?thesis
      by (rule "1.hyps" [OF True, where f = f1 and io = io1 and t = t1, unfolded fst_conv, OF l
            fill_step_ok [OF s "1.prems"(2)]])
  qed
qed

lemma fill23_loop_snd: "snd (fill23_loop wide clocks clk rpixel r) = snd r"
proof (induction wide clocks clk rpixel r rule: fill23_loop.induct)
  case (1 wide clocks clk rpixel r)
  have e: "snd (snd (eight_pairs n wide rp r)) = snd r" for n rp and r :: "'a raster"
    by (induction n arbitrary: rp r) (simp_all add: pixel_pair_def Let_def split_def)
  show ?case using 1 e [of 8 rpixel r] by (subst fill23_loop.simps) (simp add: split_def Let_def)
qed

lemma fill_ok:
  assumes "fill clocks ct ctp upd (f, io, t) = Inr (ab, f', io', t')" "io_ok io"
  shows "io_ok io'"
  using assms
  by (auto simp: fill23_loop_snd fill_def fill1_def fill2_def fill3_def fill4_def Let_def bind_res_Inr_iff split_def prod_eq_iff
      dest!: fill1_loop_ok commits_ok split: if_splits)

subsection \<open>The board\<close>

abbreviation board_inv :: "'x board \<Rightarrow> bool" where
  "board_inv b \<equiv> machine_ok (bus (core b))"

lemma bus_upd [simp]:
  "bus (core (upd_bus f b)) = f (bus (core b))"
  "bus (core (upd_io g b)) = (bus (core b))\<lparr>mio := g (mio (bus (core b)))\<rparr>"
  "bus (core (upd_env h b)) = (bus (core b))\<lparr>menv := h (menv (bus (core b)))\<rparr>"
  by (simp_all add: upd_bus_def upd_io_def upd_env_def)

lemma machine_ok_env [simp]:
  "machine_ok (m\<lparr>menv := t\<rparr>) = machine_ok m" "machine_ok (m\<lparr>mfault := x\<rparr>) = machine_ok m"
  by (simp_all add: machine_ok_def)

lemma machine_ok_io: "machine_ok m \<Longrightarrow> io_ok io \<Longrightarrow> machine_ok (m\<lparr>mio := io\<rparr>)"
  by (simp add: machine_ok_def)

lemma run_instruction_inv: "run_instruction nofdc b = Inr b' \<Longrightarrow> board_inv b \<Longrightarrow> board_inv b'"
proof -
  assume r: "run_instruction nofdc b = Inr b'" and i: "board_inv b"
  have "machine_ok (bus (snd (snd (i8080_instruction (vector_hal nofdc) (core b)))))"
    using machine.instruction_inv [OF i] .
  then show "board_inv b'"
    using r by (auto simp: run_instruction_def Let_def split_def split: option.splits if_splits)
qed

lemma run_raster_inv: "run_raster upd b = Inr (ab, b') \<Longrightarrow> board_inv b \<Longrightarrow> board_inv b'"
  by (auto simp: run_raster_def Let_def split_def bind_res_Inr_iff machine_ok_def dest: fill_ok)

lemma irq_logic_inv: "board_inv b \<Longrightarrow> board_inv (irq_logic b)"
  by (auto simp: irq_logic_def machine_ok_def)

lemma tape_inv: "tape b = Inr b' \<Longrightarrow> board_inv b \<Longrightarrow> board_inv b'"
  by (auto simp: tape_def bind_res_Inr_iff machine_ok_def split: if_splits)

lemma step2_loop_ok: "ay_ok (wrapped w) \<Longrightarrow> ay_ok (wrapped (snd (step2_loop w)))"
proof (induction w rule: step2_loop.induct)
  case (1 w)
  obtain ss y where y: "ay_step (wrapped w) = (ss, y)" by fastforce
  then have "ay_ok y" using ay_step_ok(1) [OF "1.prems"] by simp
  then show ?case
    using "1.IH" [OF _ y [symmetric] refl] "1.prems" y
    by (subst step2_loop.simps) (simp add: split_def Let_def)
qed

lemma soundSteps_ok:
  assumes "ay_ok y" "length (counters tm) = 3"
  shows "ay_ok (fst (soundSteps n (y, aw, tm, tw))) \<and>
    length (counters (fst (snd (snd (soundSteps n (y, aw, tm, tw)))))) = 3"
  using assms
proof (induction n arbitrary: y aw tm tw)
  case (Suc n)
  have "ay_ok (wrapped (snd (step2 2 (aw\<lparr>wrapped := y\<rparr>))))"
    using Suc.prems by (simp add: step2_def step2_loop_ok)
  moreover have "length (counters (fst (snd (timer_step 1 (tm, tw))))) = 3"
    using timer_ops_length(3) [of 1 tm] by (simp add: timer_step_def Let_def split_def)
  ultimately show ?case
    by (cases "snd (timer_step 1 (tm, tw))") (simp add: Let_def split_def Suc.IH)
qed simp

lemma sound_inv: "board_inv b \<Longrightarrow> board_inv (sound b)"
  using soundSteps_ok [of "ayc (mio (bus (core b)))" "timer (mio (bus (core b)))"
      "nat (instr_time b div 2)" "aywrapper b" "timerwrapper b"]
  by (auto simp: sound_def Let_def split_def machine_ok_def io_ok_def)

lemma single_step_inv: "single_step nofdc upd b = Inr b' \<Longrightarrow> board_inv b \<Longrightarrow> board_inv b'"
  by (auto simp: single_step_def bind_res_Inr_iff Let_def
      dest!: run_instruction_inv run_raster_inv tape_inv intro: sound_inv irq_logic_inv)

lemma check_interrupt_inv: "board_inv b \<Longrightarrow> board_inv (snd (check_interrupt nofdc b))"
proof -
  assume i: "board_inv b"
  define c where "c = core (upd_bus (interrupt False) b)"
  have "machine_ok (bus c)" using i by (simp add: c_def interrupt_def machine_ok_def)
  then have "machine_ok (bus (snd (i8080_execute (vector_hal nofdc) 0xff c)))"
    "machine_ok (bus (snd (i8080_execute (vector_hal nofdc) 0xff (i8080_jump a c))))" for a
    by (rule machine.execute_inv, simp add: i8080_jump_def cpu_simps machine.execute_inv)
  then show ?thesis using i by (simp add: check_interrupt_def Let_def c_def)
qed

lemma break_test_inv: "board_inv b \<Longrightarrow> board_inv (snd (break_test b))"
  by (simp add: break_test_def Let_def)

lemma frame_loop_inv: "frame_loop n nofdc upd b = Some (Inr b') \<Longrightarrow> board_inv b \<Longrightarrow> board_inv b'"
proof (induction n arbitrary: b)
  case (Suc n)
  have "board_inv (snd (loop_head nofdc b))"
    unfolding loop_head_def Let_def
    by (rule break_test_inv) (simp add: check_interrupt_inv [OF Suc.prems(2)])
  then show ?case
    using Suc.prems Suc.IH single_step_inv [of nofdc upd "snd (loop_head nofdc b)"]
    by (auto simp: frame_loop_Suc split: if_splits sum.splits)
qed (simp add: frame_loop.simps)

lemma execute_frame_inv:
  assumes "execute_frame buf nofdc upd b = Some (Inr (r, b'))" "board_inv b"
  shows "board_inv b'"
proof -
  define b1 where "b1 = upd_env (call_hook (map_option (\<lambda>h. h (frame_no b)) (frame_hook b))) b"
  define b2 where "b2 = upd_env (call_hook (poll_debugger b1)) b1"
  define b3 where "b3 = b2\<lparr>frame_no := frame_no b2 + 1, filler := filler_reset buf (filler b2),
    irq_carry := False, between := 0\<rparr>"
  have i: "board_inv b2" "board_inv b3" using assms(2) by (simp_all add: b3_def b2_def b1_def)
  have "b' = b2 \<or> frame_loop FRAME_FUEL nofdc upd b3 = Some (Inr b')"
    using assms(1) unfolding execute_frame_def Let_def b1_def [symmetric] b2_def [symmetric] b3_def [symmetric]
    by (cases "frame_loop FRAME_FUEL nofdc upd b3"; cases "the (frame_loop FRAME_FUEL nofdc upd b3)")
       (auto split: if_splits)
  then show ?thesis using i frame_loop_inv by blast
qed

lemma reset_inv: "board_inv b \<Longrightarrow> board_inv (reset rom pc mode b)"
  by (auto simp: reset_def Let_def i8080_init_def i8080_jump_def i8080_setreg_sp_def cpu_simps machine_ok_def
      io_ok_def ay_ok_init attach_boot_def detach_boot_def split: ResetMode.splits)

lemma listen_ok [simp]: "io_ok (listen w io) = io_ok io"
  by (simp add: listen_def Let_def io_ok_def)

lemma refresh_ok [simp]: "io_ok (refresh_watchpoint_listeners ws io) = io_ok io"
proof -
  have "io_ok (fold listen ws io) = io_ok io" for io :: "'a dbg IO"
    by (induction ws arbitrary: io) simp_all
  then show ?thesis by (simp add: refresh_watchpoint_listeners_def io_ok_def)
qed

lemma set_watchpoints_inv: "board_inv b \<Longrightarrow> board_inv (set_watchpoints f b)"
  by (simp add: set_watchpoints_def Let_def machine_ok_def)

lemma insert_remove_inv:
  assumes "board_inv b"
  shows "board_inv (snd (insert_breakpoint ty addr kind b))" "board_inv (snd (remove_breakpoint ty addr kind b))"
  using assms by (auto simp: insert_breakpoint_def remove_breakpoint_def set_watchpoints_inv)

subsection \<open>Reachable states\<close>

text \<open>What the emulator does with a board after it is set up: run it, reset it, press keys, load
  programs, let the debugger look at it and change it.\<close>

inductive board_op :: "'x board \<Rightarrow> 'x board \<Rightarrow> bool" where
  frame: "execute_frame buf nofdc upd b = Some (Inr (r, b')) \<Longrightarrow> board_op b b'"
| step: "single_step nofdc upd b = Inr b' \<Longrightarrow> board_op b b'"
| intr: "board_op b (snd (check_interrupt nofdc b))"
| reset: "board_op b (reset rom pc mode b)"
| key: "board_op b (upd_io (\<lambda>io. io\<lparr>kbd := k\<rparr>) b)"
| load: "init_from_vector xs start (kvaz (mio (bus (core b)))) = Some m \<Longrightarrow>
    board_op b (upd_io (\<lambda>io. io\<lparr>kvaz := m\<rparr>) b)"
| insert: "board_op b (snd (insert_breakpoint ty addr kind b))"
| remove: "board_op b (snd (remove_breakpoint ty addr kind b))"
| poke: "board_op b (write_memory_byte a v b)"
| regs: "write_registers rs b = Inr b' \<Longrightarrow> board_op b b'"

inductive reachable :: "'x board \<Rightarrow> 'x board \<Rightarrow> bool" where
  start: "reachable b b"
| op: "reachable b b' \<Longrightarrow> board_op b' b'' \<Longrightarrow> reachable b b''"

lemma board_op_inv: "board_op b b' \<Longrightarrow> board_inv b \<Longrightarrow> board_inv b'"
proof (induction rule: board_op.induct)
  case (frame buf nofdc upd b r b') then show ?case by (rule execute_frame_inv)
next
  case (step nofdc upd b b') then show ?case by (rule single_step_inv)
next
  case (intr b nofdc) then show ?case by (rule check_interrupt_inv)
next
  case (reset b rom pc mode) then show ?case by (rule reset_inv)
next
  case (key b k) then show ?case by (simp add: machine_ok_def)
next
  case (load xs start b m)
  then show ?case by (auto simp: machine_ok_def io_ok_def init_from_vector_def split: if_splits)
next
  case (insert b ty addr kind) then show ?case by (rule insert_remove_inv)
next
  case (remove b ty addr kind) then show ?case by (rule insert_remove_inv)
next
  case (poke b a v) then show ?case by (simp add: write_memory_byte_def memory_write_ok)
next
  case (regs rs b b')
  then show ?case
    by (auto simp: write_registers_def Let_def i8080_setreg_a_def i8080_setreg_f_def i8080_setreg_b_def
        i8080_setreg_c_def i8080_setreg_d_def i8080_setreg_e_def i8080_setreg_h_def i8080_setreg_l_def
        i8080_setreg_sp_def i8080_jump_def cpu_simps split: if_splits)
qed

lemma reachable_inv: "reachable b b' \<Longrightarrow> board_inv b \<Longrightarrow> board_inv b'"
  by (induction rule: reachable.induct) (auto dest: board_op_inv)

lemma board_on_inv: "board_inv board_on"
  by (simp add: board_on_def dbg_io_def install_callbacks_def IO_new_def memory_init_def memory_ok_def
      page_ok_def machine_ok_def io_ok_def ay_ok_init)

subsection \<open>Properties\<close>

text \<open>C3: In every state that frames, single steps, interrupts, resets, key presses, loaded programs
  and the debugger can bring the machine to, its invariant holds: the memory is mapped to existing
  pages, the timer, the palette and the sound chip are in range, and an interrupt request is
  pending only while interrupts are enabled.\<close>

theorem machine_invariant:
  assumes "reachable b b'" "machine_ok (bus (core b))"
  shows "machine_ok (bus (core b'))"
  by (rule reachable_inv [OF assms])

theorem machine_invariant_witness:
  "machine_ok (bus (core (reset [] 0 BLKSBR board_on)))"
  by (rule machine_invariant [OF reachable.op [OF reachable.start board_op.reset] board_on_inv])



text \<open>A saved state is trusted: five bytes of a memory chunk are accepted that map a page which
  does not exist, and the next access in its window lies outside the array.\<close>

theorem saved_page_is_trusted:
  "\<exists>m'. memory_deserialize [0, 1, 5, 0, 0] 5 m = Some m' \<and>
    TOTAL_MEMORY \<le> unat (tobank (select m' 0xa000 False))"
  by (simp add: memory_deserialize_def bigram_select_def tobank_def TOTAL_MEMORY_def)

end
