(* ===== verification/Disasm.thy ===== *)
theory Disasm
  imports I8080_Isa
begin

text \<open>
  The disassembler of the debugger: the instruction lengths of \<^verbatim>\<open>opcode_info.h\<close>, the table of
  mnemonics and operand formats and the function \<^verbatim>\<open>disassemble\<close> of \<^verbatim>\<open>disassembler.cpp\<close>.
  The function that reads a byte of memory is an argument.  Against it stands the assembly syntax
  of the decoded instructions of \<open>I8080_Isa\<close>, the instruction set the core implements: the
  listing shows what the core executes, except for five opcodes that the tables call undefined.
\<close>

subsection \<open>Instruction lengths\<close>

definition opcode_length :: "u8 list" where
  "opcode_length =
  [1, 3, 1, 1, 1, 1, 2, 1, 1, 1, 1, 1, 1, 1, 2, 1,
   1, 3, 1, 1, 1, 1, 2, 1, 1, 1, 1, 1, 1, 1, 2, 1,
   1, 3, 3, 1, 1, 1, 2, 1, 1, 1, 3, 1, 1, 1, 2, 1,
   1, 3, 3, 1, 1, 1, 2, 1, 1, 1, 3, 1, 1, 1, 2, 1,
   1, 1, 1, 1, 1, 1, 1, 1, 1, 1, 1, 1, 1, 1, 1, 1,
   1, 1, 1, 1, 1, 1, 1, 1, 1, 1, 1, 1, 1, 1, 1, 1,
   1, 1, 1, 1, 1, 1, 1, 1, 1, 1, 1, 1, 1, 1, 1, 1,
   1, 1, 1, 1, 1, 1, 1, 1, 1, 1, 1, 1, 1, 1, 1, 1,
   1, 1, 1, 1, 1, 1, 1, 1, 1, 1, 1, 1, 1, 1, 1, 1,
   1, 1, 1, 1, 1, 1, 1, 1, 1, 1, 1, 1, 1, 1, 1, 1,
   1, 1, 1, 1, 1, 1, 1, 1, 1, 1, 1, 1, 1, 1, 1, 1,
   1, 1, 1, 1, 1, 1, 1, 1, 1, 1, 1, 1, 1, 1, 1, 1,
   1, 1, 3, 3, 3, 1, 2, 1, 1, 1, 3, 1, 3, 3, 2, 1,
   1, 1, 3, 2, 3, 1, 2, 1, 1, 1, 3, 2, 3, 1, 2, 1,
   1, 1, 3, 1, 3, 1, 2, 1, 1, 1, 3, 1, 3, 1, 2, 1,
   1, 1, 3, 1, 3, 1, 2, 1, 1, 1, 3, 1, 3, 1, 2, 1]"

definition get_length :: "u8 \<Rightarrow> u8" where
  "get_length opcode =
     (let len = opcode_length ! unat opcode in if len \<noteq> 0 then len else 1)"

subsection \<open>Mnemonics and formats\<close>

datatype OpFormat =
  F_IMP | F_REG | F_RPAIR | F_MVI | F_ALU | F_MOV | F_IMM16 | F_LXI | F_JMP | F_CALL | F_RET
| F_RST | F_STA | F_LDA | F_SHLD | F_LHLD | F_IN | F_OUT | F_PCHL | F_DB

type_synonym OpEntry = "string \<times> OpFormat"

definition optable :: "OpEntry list" where
  "optable =
  [(''NOP'', F_IMP), (''LXI'', F_LXI), (''STAX'', F_RPAIR), (''INX'', F_RPAIR),
   (''INR'', F_REG), (''DCR'', F_REG), (''MVI'', F_MVI), (''RLC'', F_IMP),
   (''NOP'', F_IMP), (''DAD'', F_RPAIR), (''LDAX'', F_RPAIR), (''DCX'', F_RPAIR),
   (''INR'', F_REG), (''DCR'', F_REG), (''MVI'', F_MVI), (''RRC'', F_IMP),
   (''NOP'', F_IMP), (''LXI'', F_LXI), (''STAX'', F_RPAIR), (''INX'', F_RPAIR),
   (''INR'', F_REG), (''DCR'', F_REG), (''MVI'', F_MVI), (''RAL'', F_IMP),
   (''NOP'', F_IMP), (''DAD'', F_RPAIR), (''LDAX'', F_RPAIR), (''DCX'', F_RPAIR),
   (''INR'', F_REG), (''DCR'', F_REG), (''MVI'', F_MVI), (''RAR'', F_IMP),
   (''NOP'', F_IMP), (''LXI'', F_LXI), (''SHLD'', F_SHLD), (''INX'', F_RPAIR),
   (''INR'', F_REG), (''DCR'', F_REG), (''MVI'', F_MVI), (''DAA'', F_IMP),
   (''NOP'', F_IMP), (''DAD'', F_RPAIR), (''LHLD'', F_LHLD), (''DCX'', F_RPAIR),
   (''INR'', F_REG), (''DCR'', F_REG), (''MVI'', F_MVI), (''CMA'', F_IMP),
   (''NOP'', F_IMP), (''LXI'', F_LXI), (''STA'', F_STA), (''INX'', F_RPAIR),
   (''INR'', F_REG), (''DCR'', F_REG), (''MVI'', F_MVI), (''STC'', F_IMP),
   (''NOP'', F_IMP), (''DAD'', F_RPAIR), (''LDA'', F_LDA), (''DCX'', F_RPAIR),
   (''INR'', F_REG), (''DCR'', F_REG), (''MVI'', F_MVI), (''CMC'', F_IMP),
   (''MOV'', F_MOV), (''MOV'', F_MOV), (''MOV'', F_MOV), (''MOV'', F_MOV),
   (''MOV'', F_MOV), (''MOV'', F_MOV), (''MOV'', F_MOV), (''MOV'', F_MOV),
   (''MOV'', F_MOV), (''MOV'', F_MOV), (''MOV'', F_MOV), (''MOV'', F_MOV),
   (''MOV'', F_MOV), (''MOV'', F_MOV), (''MOV'', F_MOV), (''MOV'', F_MOV),
   (''MOV'', F_MOV), (''MOV'', F_MOV), (''MOV'', F_MOV), (''MOV'', F_MOV),
   (''MOV'', F_MOV), (''MOV'', F_MOV), (''MOV'', F_MOV), (''MOV'', F_MOV),
   (''MOV'', F_MOV), (''MOV'', F_MOV), (''MOV'', F_MOV), (''MOV'', F_MOV),
   (''MOV'', F_MOV), (''MOV'', F_MOV), (''MOV'', F_MOV), (''MOV'', F_MOV),
   (''MOV'', F_MOV), (''MOV'', F_MOV), (''MOV'', F_MOV), (''MOV'', F_MOV),
   (''MOV'', F_MOV), (''MOV'', F_MOV), (''MOV'', F_MOV), (''MOV'', F_MOV),
   (''MOV'', F_MOV), (''MOV'', F_MOV), (''MOV'', F_MOV), (''MOV'', F_MOV),
   (''MOV'', F_MOV), (''MOV'', F_MOV), (''MOV'', F_MOV), (''MOV'', F_MOV),
   (''MOV'', F_MOV), (''MOV'', F_MOV), (''MOV'', F_MOV), (''MOV'', F_MOV),
   (''MOV'', F_MOV), (''MOV'', F_MOV), (''HLT'', F_IMP), (''MOV'', F_MOV),
   (''MOV'', F_MOV), (''MOV'', F_MOV), (''MOV'', F_MOV), (''MOV'', F_MOV),
   (''MOV'', F_MOV), (''MOV'', F_MOV), (''MOV'', F_MOV), (''MOV'', F_MOV),
   (''ADD'', F_ALU), (''ADD'', F_ALU), (''ADD'', F_ALU), (''ADD'', F_ALU),
   (''ADD'', F_ALU), (''ADD'', F_ALU), (''ADD'', F_ALU), (''ADD'', F_ALU),
   (''ADC'', F_ALU), (''ADC'', F_ALU), (''ADC'', F_ALU), (''ADC'', F_ALU),
   (''ADC'', F_ALU), (''ADC'', F_ALU), (''ADC'', F_ALU), (''ADC'', F_ALU),
   (''SUB'', F_ALU), (''SUB'', F_ALU), (''SUB'', F_ALU), (''SUB'', F_ALU),
   (''SUB'', F_ALU), (''SUB'', F_ALU), (''SUB'', F_ALU), (''SUB'', F_ALU),
   (''SBB'', F_ALU), (''SBB'', F_ALU), (''SBB'', F_ALU), (''SBB'', F_ALU),
   (''SBB'', F_ALU), (''SBB'', F_ALU), (''SBB'', F_ALU), (''SBB'', F_ALU),
   (''ANA'', F_ALU), (''ANA'', F_ALU), (''ANA'', F_ALU), (''ANA'', F_ALU),
   (''ANA'', F_ALU), (''ANA'', F_ALU), (''ANA'', F_ALU), (''ANA'', F_ALU),
   (''XRA'', F_ALU), (''XRA'', F_ALU), (''XRA'', F_ALU), (''XRA'', F_ALU),
   (''XRA'', F_ALU), (''XRA'', F_ALU), (''XRA'', F_ALU), (''XRA'', F_ALU),
   (''ORA'', F_ALU), (''ORA'', F_ALU), (''ORA'', F_ALU), (''ORA'', F_ALU),
   (''ORA'', F_ALU), (''ORA'', F_ALU), (''ORA'', F_ALU), (''ORA'', F_ALU),
   (''CMP'', F_ALU), (''CMP'', F_ALU), (''CMP'', F_ALU), (''CMP'', F_ALU),
   (''CMP'', F_ALU), (''CMP'', F_ALU), (''CMP'', F_ALU), (''CMP'', F_ALU),
   (''RNZ'', F_RET), (''POP'', F_RPAIR), (''JNZ'', F_JMP), (''JMP'', F_JMP),
   (''CNZ'', F_CALL), (''PUSH'', F_RPAIR), (''ADI'', F_IMM16), (''RST'', F_RST),
   (''RZ'', F_RET), (''RET'', F_RET), (''JZ'', F_JMP), (''DB'', F_DB),
   (''CZ'', F_CALL), (''CALL'', F_CALL), (''ACI'', F_IMM16), (''RST'', F_RST),
   (''RNC'', F_RET), (''POP'', F_RPAIR), (''JNC'', F_JMP), (''OUT'', F_OUT),
   (''CNC'', F_CALL), (''PUSH'', F_RPAIR), (''SUI'', F_IMM16), (''RST'', F_RST),
   (''RC'', F_RET), (''DB'', F_DB), (''JC'', F_JMP), (''IN'', F_IN),
   (''CC'', F_CALL), (''DB'', F_DB), (''SBI'', F_IMM16), (''RST'', F_RST),
   (''RPO'', F_RET), (''POP'', F_RPAIR), (''JPO'', F_JMP), (''XTHL'', F_IMP),
   (''CPO'', F_CALL), (''PUSH'', F_RPAIR), (''ANI'', F_IMM16), (''RST'', F_RST),
   (''RPE'', F_RET), (''PCHL'', F_PCHL), (''JPE'', F_JMP), (''XCHG'', F_IMP),
   (''CPE'', F_CALL), (''DB'', F_DB), (''XRI'', F_IMM16), (''RST'', F_RST),
   (''RP'', F_RET), (''POP'', F_RPAIR), (''JP'', F_JMP), (''DI'', F_IMP),
   (''CP'', F_CALL), (''PUSH'', F_RPAIR), (''ORI'', F_IMM16), (''RST'', F_RST),
   (''RM'', F_RET), (''SPHL'', F_IMP), (''JM'', F_JMP), (''EI'', F_IMP),
   (''CM'', F_CALL), (''DB'', F_DB), (''CPI'', F_IMM16), (''RST'', F_RST)]"

definition reg_name :: "u8 \<Rightarrow> string" where
  "reg_name r = [''B'', ''C'', ''D'', ''E'', ''H'', ''L'', ''M'', ''A''] ! unat (r AND 7)"

definition rp_name :: "u8 \<Rightarrow> string" where
  "rp_name rp = [''B'', ''D'', ''H'', ''SP''] ! unat (rp AND 3)"

definition rp_push_name :: "u8 \<Rightarrow> string" where
  "rp_push_name rp = [''B'', ''D'', ''H'', ''PSW''] ! unat (rp AND 3)"

text \<open>\<^verbatim>\<open>%X\<close> of \<^verbatim>\<open>snprintf\<close>, padded with zeros on the left; the buffers of the callers hold
  every result.\<close>

definition hex_char :: "nat \<Rightarrow> char" where
  "hex_char d = (''0123456789ABCDEF'' ! d)"

fun hex_digits :: "nat \<Rightarrow> string" where
  "hex_digits n = (if n < 16 then [hex_char n] else hex_digits (n div 16) @ [hex_char (n mod 16)])"

declare hex_digits.simps [simp del]

definition zero_pad :: "nat \<Rightarrow> string \<Rightarrow> string" where
  "zero_pad k cs = replicate (k - length cs) (CHR ''0'') @ cs"

definition fmt_hex :: "u16 \<Rightarrow> nat \<Rightarrow> string" where
  "fmt_hex val digits =
     (if digits = 2 then zero_pad 2 (hex_digits (unat val)) else zero_pad 4 (hex_digits (unat val)))"

subsection \<open>Disassembly\<close>

record DisassembledInstruction =
  di_address :: u16
  di_opcode :: u8
  di_length :: u8
  di_bytes :: "u8 list"
  di_mnemonic :: string
  di_operands :: string
  di_text :: string
  di_hasTarget :: bool
  di_target :: u16

text \<open>The operands, and the mnemonic where the format replaces it.  Both branches of the jump and
  call format print the same operand.\<close>

definition disasm_operands :: "OpFormat \<Rightarrow> u8 \<Rightarrow> u8 \<Rightarrow> u16 \<Rightarrow> string \<Rightarrow> string \<times> string" where
  "disasm_operands fmt op b1 word mnem = (case fmt of
     F_IMP \<Rightarrow> (mnem, '''')
   | F_REG \<Rightarrow> (mnem, reg_name (drop_bit 3 op AND 7))
   | F_RPAIR \<Rightarrow>
       (mnem, if op = 0xC1 \<or> op = 0xC5 \<or> op = 0xD1 \<or> op = 0xD5 \<or>
                 op = 0xE1 \<or> op = 0xE5 \<or> op = 0xF1 \<or> op = 0xF5
              then rp_push_name (drop_bit 4 op AND 3) else rp_name (drop_bit 4 op AND 3))
   | F_MVI \<Rightarrow> (mnem, reg_name (drop_bit 3 op AND 7) @ '', '' @ fmt_hex (ucast b1) 2)
   | F_ALU \<Rightarrow> (mnem, reg_name (op AND 7))
   | F_MOV \<Rightarrow>
       (if op = 0x76 then (''HLT'', '''')
        else (mnem, reg_name (drop_bit 3 op AND 7) @ '', '' @ reg_name (op AND 7)))
   | F_IMM16 \<Rightarrow> (mnem, fmt_hex (ucast b1) 2)
   | F_LXI \<Rightarrow> (mnem, rp_name (drop_bit 4 op AND 3) @ '', '' @ fmt_hex word 4)
   | F_JMP \<Rightarrow> (mnem, fmt_hex word 4)
   | F_CALL \<Rightarrow> (mnem, fmt_hex word 4)
   | F_RET \<Rightarrow> (mnem, '''')
   | F_RST \<Rightarrow> (mnem, fmt_hex (ucast ((drop_bit 3 op AND 7) * 8)) 2)
   | F_STA \<Rightarrow> (mnem, fmt_hex word 4)
   | F_LDA \<Rightarrow> (mnem, fmt_hex word 4)
   | F_SHLD \<Rightarrow> (mnem, fmt_hex word 4)
   | F_LHLD \<Rightarrow> (mnem, fmt_hex word 4)
   | F_IN \<Rightarrow> (mnem, fmt_hex (ucast b1) 2)
   | F_OUT \<Rightarrow> (mnem, fmt_hex (ucast b1) 2)
   | F_PCHL \<Rightarrow> (mnem, '''')
   | F_DB \<Rightarrow> (mnem, fmt_hex (ucast op) 2))"

definition disasm_target :: "OpFormat \<Rightarrow> u8 \<Rightarrow> u16 \<Rightarrow> bool \<times> u16" where
  "disasm_target fmt op word = (case fmt of
     F_JMP \<Rightarrow> (True, word)
   | F_CALL \<Rightarrow> (True, word)
   | F_RST \<Rightarrow> (True, ucast ((drop_bit 3 op AND 7) * 8))
   | _ \<Rightarrow> (False, 0))"

definition disassemble :: "u16 \<Rightarrow> (u16 \<Rightarrow> u8) \<Rightarrow> DisassembledInstruction" where
  "disassemble address readByte =
     (let op = readByte address;
          len = get_length op;
          b1 = (if 2 \<le> len then readByte (address + 1) else 0);
          b2 = (if 3 \<le> len then readByte (address + 2) else 0);
          word = ucast b1 OR push_bit 8 (ucast b2);
          (mnem, fmt) = optable ! unat op;
          (mnem, operands) = disasm_operands fmt op b1 word mnem;
          (hasTarget, target) = disasm_target fmt op word
      in \<lparr>di_address = address, di_opcode = op, di_length = len, di_bytes = [op, b1, b2],
          di_mnemonic = mnem, di_operands = operands,
          di_text = (if operands = [] then mnem else mnem @ '' '' @ operands),
          di_hasTarget = hasTarget, di_target = target\<rparr>)"

subsection \<open>The assembly language of the instruction set\<close>

datatype imm = No_imm | Imm_u8 | Imm_u16

fun instr_imm :: "instr \<Rightarrow> imm" where
  "instr_imm (I_LXI p) = Imm_u16"
| "instr_imm I_SHLD = Imm_u16" | "instr_imm I_LHLD = Imm_u16"
| "instr_imm I_STA = Imm_u16" | "instr_imm I_LDA = Imm_u16"
| "instr_imm I_JMP = Imm_u16" | "instr_imm (I_JCC c) = Imm_u16"
| "instr_imm I_CALL = Imm_u16" | "instr_imm (I_CCC c) = Imm_u16"
| "instr_imm (I_MVI r) = Imm_u8" | "instr_imm (I_ALUI k) = Imm_u8"
| "instr_imm I_IN = Imm_u8" | "instr_imm I_OUT = Imm_u8"
| "instr_imm _ = No_imm"

primrec imm_size :: "imm \<Rightarrow> nat" where
  "imm_size No_imm = 0" | "imm_size Imm_u8 = 1" | "imm_size Imm_u16 = 2"

definition instr_size :: "instr \<Rightarrow> nat" where
  "instr_size i = 1 + imm_size (instr_imm i)"

primrec asm_r :: "reg8 \<Rightarrow> string" where
  "asm_r RB = ''B''" | "asm_r RC = ''C''" | "asm_r RD = ''D''" | "asm_r RE = ''E''"
| "asm_r RH = ''H''" | "asm_r RL = ''L''" | "asm_r RM = ''M''" | "asm_r RA = ''A''"

primrec asm_rp :: "rpair \<Rightarrow> string" where
  "asm_rp P_BC = ''B''" | "asm_rp P_DE = ''D''" | "asm_rp P_HL = ''H''" | "asm_rp P_SP = ''SP''"

primrec asm_sp :: "spair \<Rightarrow> string" where
  "asm_sp S_BC = ''B''" | "asm_sp S_DE = ''D''" | "asm_sp S_HL = ''H''" | "asm_sp S_PSW = ''PSW''"

primrec asm_cond :: "cond \<Rightarrow> string" where
  "asm_cond NZ = ''NZ''" | "asm_cond Z = ''Z''" | "asm_cond NC = ''NC''" | "asm_cond CY = ''C''"
| "asm_cond PO = ''PO''" | "asm_cond PE = ''PE''" | "asm_cond Pos = ''P''" | "asm_cond Minus = ''M''"

primrec asm_alu :: "alu_op \<Rightarrow> string" where
  "asm_alu A_ADD = ''ADD''" | "asm_alu A_ADC = ''ADC''" | "asm_alu A_SUB = ''SUB''"
| "asm_alu A_SBB = ''SBB''" | "asm_alu A_ANA = ''ANA''" | "asm_alu A_XRA = ''XRA''"
| "asm_alu A_ORA = ''ORA''" | "asm_alu A_CMP = ''CMP''"

primrec asm_alui :: "alu_op \<Rightarrow> string" where
  "asm_alui A_ADD = ''ADI''" | "asm_alui A_ADC = ''ACI''" | "asm_alui A_SUB = ''SUI''"
| "asm_alui A_SBB = ''SBI''" | "asm_alui A_ANA = ''ANI''" | "asm_alui A_XRA = ''XRI''"
| "asm_alui A_ORA = ''ORI''" | "asm_alui A_CMP = ''CPI''"

text \<open>Everything of the line but the immediate operand, which comes last in the 8080 syntax.\<close>

primrec asm_head :: "instr \<Rightarrow> string" where
  "asm_head I_NOP = ''NOP''"
| "asm_head (I_LXI p) = ''LXI '' @ asm_rp p @ '', ''"
| "asm_head (I_DAD p) = ''DAD '' @ asm_rp p"
| "asm_head (I_STAX p) = ''STAX '' @ asm_rp p"
| "asm_head (I_LDAX p) = ''LDAX '' @ asm_rp p"
| "asm_head I_SHLD = ''SHLD ''" | "asm_head I_LHLD = ''LHLD ''"
| "asm_head I_STA = ''STA ''" | "asm_head I_LDA = ''LDA ''"
| "asm_head (I_INX p) = ''INX '' @ asm_rp p" | "asm_head (I_DCX p) = ''DCX '' @ asm_rp p"
| "asm_head (I_INR r) = ''INR '' @ asm_r r" | "asm_head (I_DCR r) = ''DCR '' @ asm_r r"
| "asm_head (I_MVI r) = ''MVI '' @ asm_r r @ '', ''"
| "asm_head I_RLC = ''RLC''" | "asm_head I_RRC = ''RRC''"
| "asm_head I_RAL = ''RAL''" | "asm_head I_RAR = ''RAR''"
| "asm_head I_DAA = ''DAA''" | "asm_head I_CMA = ''CMA''"
| "asm_head I_STC = ''STC''" | "asm_head I_CMC = ''CMC''"
| "asm_head (I_MOV d r) = ''MOV '' @ asm_r d @ '', '' @ asm_r r"
| "asm_head I_HLT = ''HLT''"
| "asm_head (I_ALU k r) = asm_alu k @ '' '' @ asm_r r"
| "asm_head (I_ALUI k) = asm_alui k @ '' ''"
| "asm_head (I_RCC c) = ''R'' @ asm_cond c" | "asm_head I_RET = ''RET''"
| "asm_head (I_POP p) = ''POP '' @ asm_sp p" | "asm_head (I_PUSH p) = ''PUSH '' @ asm_sp p"
| "asm_head (I_JCC c) = ''J'' @ asm_cond c @ '' ''" | "asm_head I_JMP = ''JMP ''"
| "asm_head (I_CCC c) = ''C'' @ asm_cond c @ '' ''" | "asm_head I_CALL = ''CALL ''"
| "asm_head (I_RST a) = ''RST '' @ fmt_hex a 2"
| "asm_head I_OUT = ''OUT ''" | "asm_head I_IN = ''IN ''"
| "asm_head I_XTHL = ''XTHL''" | "asm_head I_XCHG = ''XCHG''"
| "asm_head I_PCHL = ''PCHL''" | "asm_head I_SPHL = ''SPHL''"
| "asm_head I_DI = ''DI''" | "asm_head I_EI = ''EI''"

text \<open>The source line of the instruction at an address.\<close>

definition asm_line :: "instr \<Rightarrow> (u16 \<Rightarrow> u8) \<Rightarrow> u16 \<Rightarrow> string" where
  "asm_line i rd a = asm_head i @ (case instr_imm i of
     No_imm \<Rightarrow> '''' | Imm_u8 \<Rightarrow> fmt_hex (ucast (rd (a + 1))) 2
   | Imm_u16 \<Rightarrow> fmt_hex (mk16 (rd (a + 2)) (rd (a + 1))) 4)"

text \<open>Where an instruction may send control by its encoding: to its operand or to a fixed address.\<close>

datatype flow_target = No_target | Operand_target | Fixed_target u16

fun instr_target :: "instr \<Rightarrow> flow_target" where
  "instr_target I_JMP = Operand_target" | "instr_target (I_JCC c) = Operand_target"
| "instr_target I_CALL = Operand_target" | "instr_target (I_CCC c) = Operand_target"
| "instr_target (I_RST a) = Fixed_target a" | "instr_target _ = No_target"

definition undefined_opcode :: "u8 \<Rightarrow> bool" where
  "undefined_opcode op \<longleftrightarrow> op = 0xCB \<or> op = 0xD9 \<or> op = 0xDD \<or> op = 0xED \<or> op = 0xFD"


subsection \<open>The tables against the instruction set\<close>

fun fmt_imm :: "OpFormat \<Rightarrow> imm" where
  "fmt_imm F_MVI = Imm_u8" | "fmt_imm F_IMM16 = Imm_u8" | "fmt_imm F_IN = Imm_u8"
| "fmt_imm F_OUT = Imm_u8" | "fmt_imm F_LXI = Imm_u16" | "fmt_imm F_JMP = Imm_u16"
| "fmt_imm F_CALL = Imm_u16" | "fmt_imm F_STA = Imm_u16" | "fmt_imm F_LDA = Imm_u16"
| "fmt_imm F_SHLD = Imm_u16" | "fmt_imm F_LHLD = Imm_u16" | "fmt_imm _ = No_imm"

fun fmt_target :: "OpFormat \<Rightarrow> u8 \<Rightarrow> flow_target" where
  "fmt_target F_JMP op = Operand_target" | "fmt_target F_CALL op = Operand_target"
| "fmt_target F_RST op = Fixed_target (ucast ((drop_bit 3 op AND 7) * 8))"
| "fmt_target _ op = No_target"

text \<open>The line up to the immediate operand.\<close>

definition fmt_head :: "OpFormat \<Rightarrow> u8 \<Rightarrow> string \<Rightarrow> string" where
  "fmt_head fmt op mnem = (case fmt of
     F_MVI \<Rightarrow> mnem @ '' '' @ reg_name (drop_bit 3 op AND 7) @ '', ''
   | F_LXI \<Rightarrow> mnem @ '' '' @ rp_name (drop_bit 4 op AND 3) @ '', ''
   | _ \<Rightarrow>
      (if fmt_imm fmt \<noteq> No_imm then mnem @ '' ''
       else let (m, operands) = disasm_operands fmt op 0 0 mnem
            in if operands = [] then m else m @ '' '' @ operands))"

lemma hex_digits_nonempty [simp]: "hex_digits n \<noteq> []"
  by (subst hex_digits.simps) simp

lemma fmt_hex_nonempty [simp]: "fmt_hex v d \<noteq> []"
  by (simp add: fmt_hex_def zero_pad_def)

definition entry_ok :: "u8 \<Rightarrow> u8 \<Rightarrow> OpEntry \<Rightarrow> bool" where
  "entry_ok op len e = (let (mnem, fmt) = e; i = decode op
     in len \<noteq> 0 \<and> unat len = 1 + imm_size (fmt_imm fmt) \<and>
        (if undefined_opcode op then mnem = ''DB'' \<and> fmt = F_DB
         else fmt_imm fmt = instr_imm i \<and> fmt_target fmt op = instr_target i \<and>
           fmt_head fmt op mnem = asm_head i))"



definition entries_ok :: "u8 list \<Rightarrow> u8 list \<Rightarrow> OpEntry list \<Rightarrow> bool" where
  "entries_ok ops lens es \<longleftrightarrow>
     length lens = length ops \<and> length es = length ops \<and>
     list_all (\<lambda>(op, len, e). entry_ok op len e) (zip ops (zip lens es))"

text \<open>The tables are checked in rows of eight.\<close>

lemma entries_ok_Nil: "entries_ok [] [] []"
  by (simp add: entries_ok_def)

lemma entries_ok_row:
  assumes "list_all (\<lambda>(op, len, e). entry_ok op len e)
      (zip [o0, o1, o2, o3, o4, o5, o6, o7] (zip [l0, l1, l2, l3, l4, l5, l6, l7] [e0, e1, e2, e3, e4, e5, e6, e7]))"
    and "entries_ok os ls es"
  shows "entries_ok (o0 # o1 # o2 # o3 # o4 # o5 # o6 # o7 # os) (l0 # l1 # l2 # l3 # l4 # l5 # l6 # l7 # ls)
    (e0 # e1 # e2 # e3 # e4 # e5 # e6 # e7 # es)"
  using assms by (simp add: entries_ok_def)

definition all_opcodes :: "u8 list" where
  "all_opcodes =
  [0x00, 0x01, 0x02, 0x03, 0x04, 0x05, 0x06, 0x07, 0x08, 0x09, 0x0A, 0x0B, 0x0C, 0x0D, 0x0E, 0x0F,
   0x10, 0x11, 0x12, 0x13, 0x14, 0x15, 0x16, 0x17, 0x18, 0x19, 0x1A, 0x1B, 0x1C, 0x1D, 0x1E, 0x1F,
   0x20, 0x21, 0x22, 0x23, 0x24, 0x25, 0x26, 0x27, 0x28, 0x29, 0x2A, 0x2B, 0x2C, 0x2D, 0x2E, 0x2F,
   0x30, 0x31, 0x32, 0x33, 0x34, 0x35, 0x36, 0x37, 0x38, 0x39, 0x3A, 0x3B, 0x3C, 0x3D, 0x3E, 0x3F,
   0x40, 0x41, 0x42, 0x43, 0x44, 0x45, 0x46, 0x47, 0x48, 0x49, 0x4A, 0x4B, 0x4C, 0x4D, 0x4E, 0x4F,
   0x50, 0x51, 0x52, 0x53, 0x54, 0x55, 0x56, 0x57, 0x58, 0x59, 0x5A, 0x5B, 0x5C, 0x5D, 0x5E, 0x5F,
   0x60, 0x61, 0x62, 0x63, 0x64, 0x65, 0x66, 0x67, 0x68, 0x69, 0x6A, 0x6B, 0x6C, 0x6D, 0x6E, 0x6F,
   0x70, 0x71, 0x72, 0x73, 0x74, 0x75, 0x76, 0x77, 0x78, 0x79, 0x7A, 0x7B, 0x7C, 0x7D, 0x7E, 0x7F,
   0x80, 0x81, 0x82, 0x83, 0x84, 0x85, 0x86, 0x87, 0x88, 0x89, 0x8A, 0x8B, 0x8C, 0x8D, 0x8E, 0x8F,
   0x90, 0x91, 0x92, 0x93, 0x94, 0x95, 0x96, 0x97, 0x98, 0x99, 0x9A, 0x9B, 0x9C, 0x9D, 0x9E, 0x9F,
   0xA0, 0xA1, 0xA2, 0xA3, 0xA4, 0xA5, 0xA6, 0xA7, 0xA8, 0xA9, 0xAA, 0xAB, 0xAC, 0xAD, 0xAE, 0xAF,
   0xB0, 0xB1, 0xB2, 0xB3, 0xB4, 0xB5, 0xB6, 0xB7, 0xB8, 0xB9, 0xBA, 0xBB, 0xBC, 0xBD, 0xBE, 0xBF,
   0xC0, 0xC1, 0xC2, 0xC3, 0xC4, 0xC5, 0xC6, 0xC7, 0xC8, 0xC9, 0xCA, 0xCB, 0xCC, 0xCD, 0xCE, 0xCF,
   0xD0, 0xD1, 0xD2, 0xD3, 0xD4, 0xD5, 0xD6, 0xD7, 0xD8, 0xD9, 0xDA, 0xDB, 0xDC, 0xDD, 0xDE, 0xDF,
   0xE0, 0xE1, 0xE2, 0xE3, 0xE4, 0xE5, 0xE6, 0xE7, 0xE8, 0xE9, 0xEA, 0xEB, 0xEC, 0xED, 0xEE, 0xEF,
   0xF0, 0xF1, 0xF2, 0xF3, 0xF4, 0xF5, 0xF6, 0xF7, 0xF8, 0xF9, 0xFA, 0xFB, 0xFC, 0xFD, 0xFE, 0xFF]"

lemma table_ok: "entries_ok all_opcodes opcode_length optable"
  unfolding all_opcodes_def opcode_length_def optable_def
  by (intro entries_ok_Nil entries_ok_row; code_simp)

lemma all_opcodes_nth [simp]: "all_opcodes ! unat op = op"
  and length_all_opcodes [simp]: "length all_opcodes = 256"
proof -
  have eq: "all_opcodes = map word_of_nat [0..<256]"
    by (simp add: all_opcodes_def upt_rec)
  show "all_opcodes ! unat op = op" "length all_opcodes = 256" by (simp_all add: eq)
qed

lemma entry_ok: "entry_ok op (opcode_length ! unat op) (optable ! unat op)"
  using table_ok unat_u8_lt [of op] by (auto simp: entries_ok_def list_all_length dest!: spec [of _ "unat op"])

lemma get_length_nth: "get_length op = opcode_length ! unat op"
  using entry_ok [of op] by (simp add: entry_ok_def get_length_def split_def Let_def)

lemma unat_get_length: "unat (get_length op) = 1 + imm_size (fmt_imm (snd (optable ! unat op)))"
  using entry_ok [of op] by (simp add: entry_ok_def get_length_nth split_def Let_def)

lemma entry_defined:
  assumes "\<not> undefined_opcode op" "optable ! unat op = (mnem, fmt)"
  shows "fmt_imm fmt = instr_imm (decode op)" "fmt_head fmt op mnem = asm_head (decode op)"
    "fmt_target fmt op = instr_target (decode op)"
    "unat (get_length op) = instr_size (decode op)"
  using entry_ok [of op] assms
  by (simp_all add: entry_ok_def unat_get_length instr_size_def split_def Let_def)

lemma entry_undefined:
  assumes "undefined_opcode op"
  shows "optable ! unat op = (''DB'', F_DB)" "unat (get_length op) = 1"
  using entry_ok [of op] assms
  by (simp_all add: entry_ok_def unat_get_length split_def Let_def prod_eq_iff)

text \<open>The line printed is the head of the format and the immediate operand.\<close>

lemma operands_text:
  assumes "disasm_operands fmt op b1 word mnem = (m, operands)"
  shows "(if operands = [] then m else m @ '' '' @ operands) = fmt_head fmt op mnem @
    (case fmt_imm fmt of No_imm \<Rightarrow> '''' | Imm_u8 \<Rightarrow> fmt_hex (ucast b1) 2 | Imm_u16 \<Rightarrow> fmt_hex word 4)"
  using assms by (cases fmt) (auto simp: disasm_operands_def fmt_head_def split: if_splits)

lemma get_length_le:
  "2 \<le> get_length op \<longleftrightarrow> fmt_imm (snd (optable ! unat op)) \<noteq> No_imm"
  "3 \<le> get_length op \<longleftrightarrow> fmt_imm (snd (optable ! unat op)) = Imm_u16"
  by (cases "fmt_imm (snd (optable ! unat op))"; simp add: word_le_nat_alt unat_get_length)+

lemma word_mk16: "(ucast (l :: u8) :: u16) OR push_bit 8 (ucast (h :: u8)) = mk16 h l"
  by (simp add: mk16_def or.commute)

lemma disassemble_sel [simp]:
  "di_address (disassemble a rd) = a" "di_opcode (disassemble a rd) = rd a"
  "di_length (disassemble a rd) = get_length (rd a)"
  by (simp_all add: disassemble_def Let_def split_def)

lemma listing_defined:
  assumes "\<not> undefined_opcode (rd a)"
  shows "di_text (disassemble a rd) = asm_line (decode (rd a)) rd a"
proof -
  obtain mnem fmt where e: "optable ! unat (rd a) = (mnem, fmt)" by fastforce
  note ent = entry_defined [OF assms e]
  define b1 where "b1 = (if 2 \<le> get_length (rd a) then rd (a + 1) else 0)"
  define b2 where "b2 = (if 3 \<le> get_length (rd a) then rd (a + 2) else 0)"
  obtain m ops where o: "disasm_operands fmt (rd a) b1 (mk16 b2 b1) mnem = (m, ops)" by fastforce
  have "di_text (disassemble a rd) = (if ops = [] then m else m @ '' '' @ ops)"
    using o by (simp add: disassemble_def e Let_def b1_def b2_def word_mk16 split_def)
  also have "\<dots> = asm_line (decode (rd a)) rd a"
    unfolding operands_text [OF o] asm_line_def ent(1)[symmetric] ent(2)[symmetric]
    by (cases "fmt_imm fmt") (simp_all add: b1_def b2_def get_length_le e)
  finally show ?thesis .
qed

lemma target_defined:
  assumes "\<not> undefined_opcode (rd a)"
  shows "di_hasTarget (disassemble a rd) \<longleftrightarrow> instr_target (decode (rd a)) \<noteq> No_target"
    and "instr_target (decode (rd a)) = Operand_target \<Longrightarrow>
      di_target (disassemble a rd) = mk16 (rd (a + 2)) (rd (a + 1))"
    and "instr_target (decode (rd a)) = Fixed_target t \<Longrightarrow> di_target (disassemble a rd) = t"
proof -
  obtain mnem fmt where e: "optable ! unat (rd a) = (mnem, fmt)" by fastforce
  note ent = entry_defined [OF assms e]
  show "di_hasTarget (disassemble a rd) \<longleftrightarrow> instr_target (decode (rd a)) \<noteq> No_target"
    unfolding ent(3)[symmetric] by (cases fmt) (simp_all add: disassemble_def e Let_def disasm_target_def split_def)
  show "di_target (disassemble a rd) = mk16 (rd (a + 2)) (rd (a + 1))"
    if "instr_target (decode (rd a)) = Operand_target"
    using that unfolding ent(3)[symmetric]
    by (cases fmt) (simp_all add: disassemble_def e Let_def disasm_target_def split_def word_mk16 get_length_le)
  show "di_target (disassemble a rd) = t" if "instr_target (decode (rd a)) = Fixed_target t"
    using that unfolding ent(3)[symmetric]
    by (cases fmt) (simp_all add: disassemble_def e Let_def disasm_target_def split_def)
qed

text \<open>The five opcodes the tables leave undefined are printed as data; the core executes them as
  a jump, a return and three calls.\<close>

lemma undefined_decode:
  assumes "undefined_opcode op"
  shows "decode op \<in> {I_JMP, I_RET, I_CALL}"
proof -
  have "decode 0xCB = I_JMP" "decode 0xD9 = I_RET" "decode 0xDD = I_CALL" "decode 0xED = I_CALL"
    "decode 0xFD = I_CALL"
    by (simp_all add: decode_def decode3_def)
  moreover have "op = 0xCB \<or> op = 0xD9 \<or> op = 0xDD \<or> op = 0xED \<or> op = 0xFD"
    using assms by (simp only: undefined_opcode_def insert_iff empty_iff simp_thms)
  ultimately show ?thesis by (elim disjE) simp_all
qed

lemma listing_undefined:
  assumes "undefined_opcode (rd a)"
  shows "di_text (disassemble a rd) = ''DB '' @ fmt_hex (ucast (rd a)) 2"
proof -
  show ?thesis
    by (simp add: entry_undefined [OF assms] disassemble_def disasm_operands_def Let_def split_def)
qed


end
