(* ===== verification/Analyzer.thy ===== *)
theory Analyzer
  imports Disasm Hal
begin

text \<open>
  The code analyser of the debugger (\<^verbatim>\<open>code_analyzer.h\<close>): it classifies opcodes by their effect
  on the flow of control and explores a program breadth first from its entry points, with a work
  queue, a set of visited addresses and a map of the instructions found.  The theorems compare it
  with the instruction set (every step of the processor is one of the successors the analyser
  follows) and with reachability (it finds what the successors reach, if it is not cut off).
\<close>

subsection \<open>Control flow\<close>

datatype ControlFlowType =
  Sequential | UnconditionalJmp | ConditionalJmp | UnconditionalCall | ConditionalCall
| UnconditionalRet | ConditionalRet | Restart | Halt | IndirectJump

definition classifyControlFlow :: "u8 \<Rightarrow> ControlFlowType" where
  "classifyControlFlow opcode =
     (if opcode = 0xC3 then UnconditionalJmp
      else if opcode = 0xCD then UnconditionalCall
      else if opcode = 0xC9 then UnconditionalRet
      else if opcode = 0xE9 then IndirectJump
      else if opcode = 0x76 then Halt
      else if opcode AND 0xC0 \<noteq> 0xC0 then Sequential
      else let low = opcode AND 7
        in if low = 0 then ConditionalRet
           else if low = 2 then ConditionalJmp
           else if low = 4 then ConditionalCall
           else if low = 7 then Restart
           else Sequential)"

subsection \<open>Results\<close>

record AnalyzedInstruction =
  ai_address :: u16
  ai_opcode :: u8
  ai_size :: u8
  ai_mnemonic :: string
  ai_operands :: string
  ai_text :: string
  ai_hasTarget :: bool
  ai_target :: u16

record ControlFlowRef =
  cf_from :: u16
  cf_to :: u16
  cf_type :: string

record CodeRange =
  cr_start :: u16
  cr_end :: u16

record AnalysisConflict =
  ac_address :: u16
  ac_description :: string

record CodeAnalysisResult =
  entryPoint :: u16
  entryPoints :: "u16 list"
  instructions :: "AnalyzedInstruction list"
  references :: "ControlFlowRef list"
  ranges :: "CodeRange list"
  conflicts :: "AnalysisConflict list"
  instructionCount :: nat
  codeBytes :: nat
  truncated :: bool

definition empty_result :: CodeAnalysisResult where
  "empty_result = \<lparr>entryPoint = 0, entryPoints = [], instructions = [], references = [],
     ranges = [], conflicts = [], instructionCount = 0, codeBytes = 0, truncated = False\<rparr>"

subsection \<open>The search\<close>

text \<open>
  The local variables of the loop beside the result: \<^verbatim>\<open>visited\<close>, \<^verbatim>\<open>instrEndMap\<close> (a list
  of pairs, the latest first) and \<^verbatim>\<open>workQueue\<close>.  The order in which a C++
  \<^verbatim>\<open>unordered_map\<close> is iterated is not specified; \<open>iter\<close> stands for it.
\<close>

record search =
  result :: CodeAnalysisResult
  visited :: "u16 set"
  instrEndMap :: "(u16 \<times> u8) list"
  workQueue :: "u16 list"

definition dedup_step :: "u16 \<Rightarrow> u16 set \<times> u16 list \<Rightarrow> u16 set \<times> u16 list" where
  "dedup_step ep = (\<lambda>(seen, eps). if ep \<in> seen then (seen, eps) else (insert ep seen, eps @ [ep]))"

definition dedup :: "u16 list \<Rightarrow> u16 list" where
  "dedup eps = snd (fold dedup_step eps ({}, []))"

definition search_init :: "u16 list \<Rightarrow> search" where
  "search_init eps =
     (let r = empty_result\<lparr>entryPoints := dedup eps\<rparr>;
          r = (if entryPoints r \<noteq> [] then r\<lparr>entryPoint := hd (entryPoints r)\<rparr> else r)
      in \<lparr>result = r, visited = {}, instrEndMap = [], workQueue = entryPoints r\<rparr>)"

fun decimal :: "nat \<Rightarrow> string" where
  "decimal n = (if n < 10 then [hex_char n] else decimal (n div 10) @ [hex_char (n mod 10)])"

declare decimal.simps [simp del]

definition inside :: "u16 \<Rightarrow> u16 \<times> u8 \<Rightarrow> bool" where
  "inside addr kv = (let instrStart = fst kv; instrLast = instrStart + ucast (snd kv)
     in instrStart < addr \<and> addr \<le> instrLast)"

definition conflict_at :: "u16 \<Rightarrow> u16 \<Rightarrow> AnalysisConflict" where
  "conflict_at addr instrStart = \<lparr>ac_address = addr,
     ac_description = ''instruction boundary conflict: address falls inside existing instruction at ''
       @ decimal (unat instrStart)\<rparr>"

definition analyzed :: "DisassembledInstruction \<Rightarrow> AnalyzedInstruction" where
  "analyzed di = \<lparr>ai_address = di_address di, ai_opcode = di_opcode di, ai_size = di_length di,
     ai_mnemonic = di_mnemonic di, ai_operands = di_operands di, ai_text = di_text di,
     ai_hasTarget = di_hasTarget di, ai_target = di_target di\<rparr>"

definition flow_ref :: "u16 \<Rightarrow> DisassembledInstruction \<Rightarrow> ControlFlowRef list" where
  "flow_ref addr di = (let ref = (\<lambda>t. [\<lparr>cf_from = addr, cf_to = di_target di, cf_type = t\<rparr>])
     in case classifyControlFlow (di_opcode di) of
       UnconditionalJmp \<Rightarrow> ref ''JMP'' | ConditionalJmp \<Rightarrow> ref ''JCC''
     | UnconditionalCall \<Rightarrow> ref ''CALL'' | ConditionalCall \<Rightarrow> ref ''CALLCC''
     | Restart \<Rightarrow> ref ''RST'' | _ \<Rightarrow> [])"

text \<open>The addresses the second \<^verbatim>\<open>switch\<close> considers, in order; those not visited are queued.\<close>

definition successors :: "u16 \<Rightarrow> DisassembledInstruction \<Rightarrow> u16 list" where
  "successors addr di = (let nextAddr = addr + ucast (di_length di)
     in case classifyControlFlow (di_opcode di) of
       UnconditionalJmp \<Rightarrow> [di_target di]
     | ConditionalJmp \<Rightarrow> [di_target di, nextAddr]
     | UnconditionalCall \<Rightarrow> [di_target di, nextAddr]
     | ConditionalCall \<Rightarrow> [di_target di, nextAddr]
     | UnconditionalRet \<Rightarrow> [] | Halt \<Rightarrow> [] | IndirectJump \<Rightarrow> []
     | ConditionalRet \<Rightarrow> [nextAddr]
     | Restart \<Rightarrow> [di_target di, nextAddr]
     | Sequential \<Rightarrow> [nextAddr])"

definition decode_at :: "(u16 \<Rightarrow> u8) \<Rightarrow> u16 \<Rightarrow> search \<Rightarrow> search" where
  "decode_at readByte addr s =
     (let di = disassemble addr readByte; r = result s; seen = insert addr (visited s)
      in s\<lparr>result := r\<lparr>instructions := instructions r @ [analyzed di],
                      references := references r @ flow_ref addr di\<rparr>,
           visited := seen,
           instrEndMap := (addr, di_length di - 1) # instrEndMap s,
           workQueue := workQueue s @ [a \<leftarrow> successors addr di. a \<notin> seen]\<rparr>)"

definition search_step ::
  "((u16 \<times> u8) list \<Rightarrow> (u16 \<times> u8) list) \<Rightarrow> (u16 \<Rightarrow> u8) \<Rightarrow> search \<Rightarrow> search" where
  "search_step iter readByte s =
     (let addr = hd (workQueue s); s = s\<lparr>workQueue := tl (workQueue s)\<rparr>
      in if addr \<in> visited s then s
         else case find (inside addr) (iter (instrEndMap s)) of
             Some kv \<Rightarrow>
               s\<lparr>result := (result s)\<lparr>conflicts := conflicts (result s) @ [conflict_at addr (fst kv)]\<rparr>\<rparr>
           | None \<Rightarrow> decode_at readByte addr s)"

definition searching :: "nat \<Rightarrow> search \<Rightarrow> bool" where
  "searching maxInstructions s \<longleftrightarrow>
     workQueue s \<noteq> [] \<and> length (instructions (result s)) < maxInstructions"

lemma length_successors: "length (successors a di) \<le> 2"
  by (simp add: successors_def Let_def split: ControlFlowType.split)

text \<open>Each step takes an address off the queue; a decoded one is new and adds at most two.\<close>

definition search_measure :: "search \<Rightarrow> nat" where
  "search_measure s = 3 * card (- visited s) + length (workQueue s)"

lemma search_measure_step:
  assumes "workQueue s \<noteq> []"
  shows "search_measure (search_step iter rd s) < search_measure s"
proof -
  obtain a q where q: "workQueue s = a # q" using assms by (cases "workQueue s") auto
  have dec: "search_measure (decode_at rd a (s\<lparr>workQueue := q\<rparr>)) < search_measure s" if "a \<notin> visited s"
  proof -
    have "- insert a (visited s) = - visited s - {a}" by auto
    then have "card (- insert a (visited s)) < card (- visited s)"
      using that by (metis Compl_iff card_Diff1_less finite)
    moreover have "length [x \<leftarrow> successors a (disassemble a rd). x \<notin> insert a (visited s)] \<le> 2"
      using length_successors [of a "disassemble a rd"] by (meson le_trans length_filter_le)
    ultimately show ?thesis by (simp add: search_measure_def decode_at_def Let_def q)
  qed
  show ?thesis
    using dec by (simp add: search_step_def q Let_def search_measure_def split: option.split)
qed

function search_loop ::
  "((u16 \<times> u8) list \<Rightarrow> (u16 \<times> u8) list) \<Rightarrow> (u16 \<Rightarrow> u8) \<Rightarrow> nat \<Rightarrow> search \<Rightarrow> search" where
  "search_loop iter readByte maxInstructions s =
     (if searching maxInstructions s
      then search_loop iter readByte maxInstructions (search_step iter readByte s) else s)"
  by pat_completeness auto
termination
  by (relation "measure (\<lambda>(_, _, _, s). search_measure s)")
    (auto simp: searching_def intro: search_measure_step)

declare search_loop.simps [simp del]

subsection \<open>Sorting and ranges\<close>

text \<open>The end of a range is computed in 16 bits, the comparison in \<^verbatim>\<open>int\<close>.\<close>

definition last_byte :: "AnalyzedInstruction \<Rightarrow> u16" where
  "last_byte i = ai_address i + ucast (ai_size i) - 1"

fun form_ranges :: "u16 \<Rightarrow> u16 \<Rightarrow> AnalyzedInstruction list \<Rightarrow> CodeRange list" where
  "form_ranges rangeStart rangeEnd [] = [\<lparr>cr_start = rangeStart, cr_end = rangeEnd\<rparr>]"
| "form_ranges rangeStart rangeEnd (i # is) =
     (if unat (ai_address i) \<le> unat rangeEnd + 1
      then form_ranges rangeStart (if rangeEnd < last_byte i then last_byte i else rangeEnd) is
      else \<lparr>cr_start = rangeStart, cr_end = rangeEnd\<rparr> # form_ranges (ai_address i) (last_byte i) is)"

definition code_ranges :: "AnalyzedInstruction list \<Rightarrow> CodeRange list" where
  "code_ranges xs = (case xs of [] \<Rightarrow> [] | i # is \<Rightarrow> form_ranges (ai_address i) (last_byte i) is)"

definition analyzeCodeMulti ::
  "((u16 \<times> u8) list \<Rightarrow> (u16 \<times> u8) list) \<Rightarrow> u16 list \<Rightarrow> (u16 \<Rightarrow> u8) \<Rightarrow> nat \<Rightarrow> CodeAnalysisResult" where
  "analyzeCodeMulti iter eps readByte maxInstructions =
     (let s = search_loop iter readByte maxInstructions (search_init eps); r = result s;
          r = r\<lparr>truncated := workQueue s \<noteq> [] \<and> maxInstructions \<le> length (instructions r),
                instructionCount := length (instructions r),
                instructions := sort_key ai_address (instructions r)\<rparr>;
          r = r\<lparr>codeBytes := sum_list (map (\<lambda>i. unat (ai_size i)) (instructions r))\<rparr>
      in r\<lparr>ranges := code_ranges (instructions r)\<rparr>)"

definition analyzeCode ::
  "((u16 \<times> u8) list \<Rightarrow> (u16 \<times> u8) list) \<Rightarrow> u16 \<Rightarrow> (u16 \<Rightarrow> u8) \<Rightarrow> nat \<Rightarrow> CodeAnalysisResult" where
  "analyzeCode iter startAddress readByte maxInstructions =
     analyzeCodeMulti iter [startAddress] readByte maxInstructions"

subsection \<open>Control flow of the processor\<close>

text \<open>Where an instruction sends control, from its decoded form.\<close>

fun flow_kind :: "instr \<Rightarrow> ControlFlowType" where
  "flow_kind I_JMP = UnconditionalJmp" | "flow_kind (I_JCC c) = ConditionalJmp"
| "flow_kind I_CALL = UnconditionalCall" | "flow_kind (I_CCC c) = ConditionalCall"
| "flow_kind I_RET = UnconditionalRet" | "flow_kind (I_RCC c) = ConditionalRet"
| "flow_kind (I_RST a) = Restart" | "flow_kind I_HLT = Halt" | "flow_kind I_PCHL = IndirectJump"
| "flow_kind _ = Sequential"

definition flow_ok :: "u8 \<Rightarrow> bool" where
  "flow_ok op \<longleftrightarrow> undefined_opcode op \<or> classifyControlFlow op = flow_kind (decode op)"

lemma flow_table: "list_all flow_ok all_opcodes"
  by code_simp

lemma classify_decode:
  assumes "\<not> undefined_opcode op"
  shows "classifyControlFlow op = flow_kind (decode op)"
  using flow_table assms unat_u8_lt [of op] by (auto simp: list_all_length flow_ok_def dest!: spec [of _ "unat op"])

lemma PC_put_r [simp]: "PC (put_r B r v s) = PC s"
  by (cases r) (simp_all add: cpu_simps)

lemma PC_put_rp [simp]: "PC (put_rp p w s) = PC s"
  by (cases p) (simp_all add: cpu_simps)

lemma PC_put_sp [simp]: "PC (put_sp q w s) = PC s"
  by (cases q) (simp_all add: cpu_simps)

lemma PC_stack [simp]: "PC (isa_push B w s) = PC s" "PC (skip n s) = PC s + n"
  by (simp_all add: isa_push_def skip_def cpu_simps Let_def)

lemma exec_sequential:
  assumes "flow_kind i = Sequential"
  shows "PC (snd (isa_exec B i s)) = PC s + word_of_nat (imm_size (instr_imm i))"
  using assms
  by (cases i) (simp_all add: isa_upd_def isa_rot_def isa_alu_def upd_a_def inte_def isa_pop_def
      i8080_retrieve_flags_def i8080_store_flags_def split_def Let_def cpu_simps)

text \<open>
  A call reads its target after the return address is pushed, and as a stack access; the analyser
  sees the two bytes after the opcode.  They agree unless the stack overlaps the instruction or is
  mapped to the RAM disk.
\<close>

definition call_operand_ok :: "'m abus \<Rightarrow> 'm mach \<Rightarrow> bool" where
  "call_operand_ok B s =
     (ab_read16 B True (bus (isa_push B (PC s + 3) s)) (PC s + 1) =
      ab_read16 B False (bus s) (PC s + 1))"

text \<open>The addresses an analyser cannot know: where a return or \<^verbatim>\<open>PCHL\<close> goes.  \<^verbatim>\<open>HLT\<close>
  waits at its own address.\<close>

definition dynamic_targets :: "'m abus \<Rightarrow> u8 \<Rightarrow> 'm mach \<Rightarrow> u16 set" where
  "dynamic_targets B op s = (case classifyControlFlow op of
     UnconditionalRet \<Rightarrow> {isa_top B s} | ConditionalRet \<Rightarrow> {isa_top B s}
   | IndirectJump \<Rightarrow> {HL s} | Halt \<Rightarrow> {PC s} | _ \<Rightarrow> {})"

lemma PC_step:
  "PC (snd (snd (isa_instruction B s))) = PC (snd (isa_exec B (decode (imm8 B s)) (skip 1 s)))"
  by (simp add: isa_instruction_def isa_step_def isa_tick_def inte_def Let_def split_def cpu_simps)

lemma next_address:
  assumes "\<not> undefined_opcode op"
  shows "(ucast (get_length op) :: u16) = 1 + word_of_nat (imm_size (instr_imm (decode op)))"
proof -
  obtain mnem fmt where "optable ! unat op = (mnem, fmt)" by fastforce
  from entry_defined(4) [OF assms this] show ?thesis
    by (simp add: word_unat_eq_iff unat_word_ariths unat_of_nat instr_size_def)
      (cases "instr_imm (decode op)"; simp)
qed

lemma isa_follows_successors:
  assumes rd: "rd = ab_read B False (bus s)" and op: "op = rd (PC s)"
    and undef: "\<not> undefined_opcode op"
    and call: "classifyControlFlow op \<in> {UnconditionalCall, ConditionalCall} \<Longrightarrow> call_operand_ok B s"
  shows "PC (snd (snd (isa_instruction B s))) \<in>
    set (successors (PC s) (disassemble (PC s) rd)) \<union> dynamic_targets B op s"
proof -
  let ?i = "decode op" and ?d = "disassemble (PC s) rd"
  have kind: "classifyControlFlow op = flow_kind ?i" by (rule classify_decode [OF undef])
  have opc: "imm8 B s = op" by (simp add: imm8_def rd op)
  note len = next_address [OF undef]
  have word: "imm16 B (skip 1 s) = mk16 (rd (PC s + 2)) (rd (PC s + 1))"
    by (simp add: imm16_def ab_read16_def rd skip_def cpu_simps add.assoc)
  have tgt: "di_target ?d = imm16 B (skip 1 s)" if "instr_target ?i = Operand_target"
    using target_defined(2) [of rd "PC s"] undef that by (simp add: op word)
  have top: "isa_top B (skip 1 s) = isa_top B s" "HL (skip 1 s) = HL s"
    by (simp_all add: isa_top_def skip_def cpu_simps)
  show ?thesis
  proof (cases "flow_kind ?i = Sequential")
    case True
    then show ?thesis
      unfolding PC_step opc by (simp add: exec_sequential successors_def kind op [symmetric] len)
  next
    case False
    have call_pc: "PC (isa_call B (skip 1 s)) = imm16 B (skip 1 s)" if "call_operand_ok B s"
    proof -
      have "PC s + 1 + 2 = PC s + 3" by simp
      then show ?thesis
        using that by (simp add: isa_call_def call_operand_ok_def imm16_def skip_def cpu_simps Let_def
            isa_push_def ab_read16_def add.assoc)
    qed
    have "PC (isa_ret B t) = isa_top B t" for t by (simp add: isa_ret_def cpu_simps)
    then show ?thesis
      using False call tgt target_defined(3) [of rd "PC s"] undef
      unfolding PC_step opc
      by (cases ?i) (auto simp: successors_def kind op [symmetric] len dynamic_targets_def top call_pc cpu_simps)
  qed
qed
subsection \<open>What the search finds\<close>

inductive reach :: "(u16 \<Rightarrow> u8) \<Rightarrow> u16 list \<Rightarrow> u16 \<Rightarrow> bool" for rd eps where
  entry: "a \<in> set eps \<Longrightarrow> reach rd eps a"
| succ: "reach rd eps a \<Longrightarrow> b \<in> set (successors a (disassemble a rd)) \<Longrightarrow> reach rd eps b"

definition addresses :: "CodeAnalysisResult \<Rightarrow> u16 list" where
  "addresses r = map ai_address (instructions r)"

definition conflict_addresses :: "CodeAnalysisResult \<Rightarrow> u16 list" where
  "conflict_addresses r = map ac_address (conflicts r)"

text \<open>The invariant of the loop: the instructions found are those at the visited addresses, each
  once, all reachable, and every successor is found, in conflict or still queued.  An address in
  conflict lies inside an instruction found.\<close>

definition found_ok :: "(u16 \<Rightarrow> u8) \<Rightarrow> search \<Rightarrow> bool" where
  "found_ok rd s \<longleftrightarrow>
     visited s = set (addresses (result s)) \<and> distinct (addresses (result s)) \<and>
     (\<forall>i \<in> set (instructions (result s)). i = analyzed (disassemble (ai_address i) rd)) \<and>
     set (instrEndMap s) = (\<lambda>a. (a, get_length (rd a) - 1)) ` visited s"

definition pending :: "search \<Rightarrow> u16 set" where
  "pending s = visited s \<union> set (conflict_addresses (result s)) \<union> set (workQueue s)"

definition search_ok :: "(u16 \<Rightarrow> u8) \<Rightarrow> u16 list \<Rightarrow> search \<Rightarrow> bool" where
  "search_ok rd eps s \<longleftrightarrow> found_ok rd s \<and>
     (\<forall>a \<in> set eps. a \<in> pending s) \<and>
     (\<forall>a \<in> visited s. \<forall>b \<in> set (successors a (disassemble a rd)). b \<in> pending s) \<and>
     (\<forall>a \<in> pending s. reach rd eps a) \<and>
     (\<forall>c \<in> set (conflict_addresses (result s)). \<exists>a \<in> visited s. inside c (a, get_length (rd a) - 1))"

text \<open>The only law of the map the search needs: iterating it visits each of its entries.\<close>

definition visits_all :: "((u16 \<times> u8) list \<Rightarrow> (u16 \<times> u8) list) \<Rightarrow> bool" where
  "visits_all iter \<longleftrightarrow> (\<forall>m. set (iter m) = set m)"

lemma analyzed_address [simp]: "ai_address (analyzed di) = di_address di"
  by (simp add: analyzed_def)

lemma set_dedup_fold:
  assumes "seen = set es" "distinct es"
  shows "set (snd (fold dedup_step eps (seen, es))) = set es \<union> set eps \<and>
    distinct (snd (fold dedup_step eps (seen, es)))"
  using assms
proof (induction eps arbitrary: seen es)
  case (Cons e eps)
  show ?case
    using Cons.IH [of "insert e seen" "es @ [e]"] Cons.IH [of seen es] Cons.prems
    by (auto simp: dedup_step_def)
qed simp

lemma set_dedup [simp]: "set (dedup eps) = set eps" "distinct (dedup eps)"
  using set_dedup_fold [of "{}" "[]" eps] by (simp_all add: dedup_def)

lemma dedup_Nil [simp]: "dedup eps = [] \<longleftrightarrow> eps = []"
  using set_dedup(1) [of eps] by (metis set_empty)

lemma search_init_ok: "search_ok rd eps (search_init eps)"
  by (auto simp: search_ok_def found_ok_def pending_def search_init_def empty_result_def addresses_def
      conflict_addresses_def Let_def intro: reach.entry)

text \<open>The three things a step does to the search: dropping an address seen before, noting a
  conflict, adding an instruction.\<close>

lemma drop_ok:
  assumes "search_ok rd eps s" "workQueue s = a # q" "a \<in> visited s"
  shows "search_ok rd eps (s\<lparr>workQueue := q\<rparr>)"
proof -
  have "pending (s\<lparr>workQueue := q\<rparr>) = pending s" using assms(2,3) by (auto simp: pending_def)
  moreover have "found_ok rd (s\<lparr>workQueue := q\<rparr>) = found_ok rd s" by (simp add: found_ok_def)
  ultimately show ?thesis using assms(1) by (simp add: search_ok_def)
qed

lemma conflict_ok:
  assumes ok: "search_ok rd eps s" and q: "workQueue s = a # q"
    and kv: "kv \<in> set (instrEndMap s)" "inside a kv"
  shows "search_ok rd eps (s\<lparr>workQueue := q,
    result := (result s)\<lparr>conflicts := conflicts (result s) @ [conflict_at a (fst kv)]\<rparr>\<rparr>)"
    (is "search_ok rd eps ?s")
proof -
  have p: "pending ?s = pending s"
    by (auto simp: pending_def q addresses_def conflict_addresses_def conflict_at_def)
  have c: "set (conflict_addresses (result ?s)) = insert a (set (conflict_addresses (result s)))"
    by (simp add: conflict_addresses_def conflict_at_def)
  have f: "found_ok rd ?s" using ok by (simp add: search_ok_def found_ok_def addresses_def)
  obtain b where "b \<in> visited s" "kv = (b, get_length (rd b) - 1)"
    using ok kv(1) by (auto simp: search_ok_def found_ok_def)
  then have "\<exists>b \<in> visited ?s. inside a (b, get_length (rd b) - 1)" using kv(2) by auto
  then show ?thesis using ok f c by (simp add: search_ok_def p)
qed

lemma decode_at_ok:
  assumes ok: "search_ok rd eps s" and q: "workQueue s = a # q" and new: "a \<notin> visited s"
  shows "search_ok rd eps (decode_at rd a (s\<lparr>workQueue := q\<rparr>))" (is "search_ok rd eps ?s")
proof -
  let ?succ = "\<lambda>a. set (successors a (disassemble a rd))"
  have a: "reach rd eps a" using ok q by (simp add: search_ok_def pending_def)
  have v: "visited ?s = insert a (visited s)" by (simp add: decode_at_def Let_def)
  have c: "conflict_addresses (result ?s) = conflict_addresses (result s)"
    by (simp add: conflict_addresses_def decode_at_def Let_def)
  have p: "pending ?s = pending s \<union> ?succ a"
    by (auto simp: pending_def v c q) (auto simp: decode_at_def Let_def)
  have "found_ok rd ?s"
    using ok new by (auto simp: search_ok_def found_ok_def decode_at_def Let_def addresses_def)
  moreover have "\<forall>b \<in> ?succ a. reach rd eps b" using a by (auto intro: reach.succ)
  ultimately show ?thesis using ok by (auto simp: search_ok_def v c p)
qed

lemma search_step_ok:
  assumes ok: "search_ok rd eps s" and ne: "workQueue s \<noteq> []" and it: "visits_all iter"
  shows "search_ok rd eps (search_step iter rd s)"
proof -
  obtain a q where q: "workQueue s = a # q" using ne by (cases "workQueue s") auto
  consider (seen) "a \<in> visited s" | (new) "a \<notin> visited s" "find (inside a) (iter (instrEndMap s)) = None"
    | (conflict) kv where "a \<notin> visited s" "find (inside a) (iter (instrEndMap s)) = Some kv"
    by fastforce
  then show ?thesis
  proof cases
    case seen
    with drop_ok [OF ok q] show ?thesis by (simp add: search_step_def q)
  next
    case new
    with decode_at_ok [OF ok q] show ?thesis by (simp add: search_step_def q)
  next
    case conflict
    then have "kv \<in> set (instrEndMap s)" "inside a kv"
      using it by (auto simp: visits_all_def find_Some_iff dest: nth_mem)
    with conflict_ok [OF ok q] conflict show ?thesis by (simp add: search_step_def q)
  qed
qed

lemma search_loop_ok:
  assumes "search_ok rd eps s" "visits_all iter"
  shows "search_ok rd eps (search_loop iter rd n s) \<and> \<not> searching n (search_loop iter rd n s)"
  using assms
proof (induction iter rd n s rule: search_loop.induct)
  case (1 iter rd n s)
  then show ?case
    using search_step_ok [of rd eps s iter] by (subst (1 2) search_loop.simps) (auto simp: searching_def)
qed

lemma length_step: "length (instructions (result (search_step iter rd s))) \<le> Suc (length (instructions (result s)))"
  by (simp add: search_step_def decode_at_def Let_def split: option.split)

lemma search_loop_length:
  assumes "length (instructions (result s)) \<le> n"
  shows "length (instructions (result (search_loop iter rd n s))) \<le> n"
  using assms
proof (induction iter rd n s rule: search_loop.induct)
  case (1 iter rd n s)
  then show ?case
    using length_step [of iter rd s] by (subst search_loop.simps) (auto simp: searching_def)
qed

definition searched :: "((u16 \<times> u8) list \<Rightarrow> (u16 \<times> u8) list) \<Rightarrow> u16 list \<Rightarrow> (u16 \<Rightarrow> u8) \<Rightarrow> nat \<Rightarrow> search" where
  "searched iter eps rd n = search_loop iter rd n (search_init eps)"

lemma searched_ok:
  assumes "visits_all iter"
  shows "search_ok rd eps (searched iter eps rd n)" "\<not> searching n (searched iter eps rd n)"
  using search_loop_ok [OF search_init_ok assms, of rd eps n] by (simp_all add: searched_def)

lemma search_found:
  assumes "search_ok rd eps s"
  shows "visited s = ai_address ` set (instructions (result s))"
    and "set (instructions (result s)) = (\<lambda>a. analyzed (disassemble a rd)) ` visited s"
    and "distinct (map ai_address (instructions (result s)))"
proof -
  from assms have v: "visited s = ai_address ` set (instructions (result s))"
    and d: "distinct (map ai_address (instructions (result s)))"
    and i: "\<forall>i \<in> set (instructions (result s)). i = analyzed (disassemble (ai_address i) rd)"
    unfolding search_ok_def found_ok_def addresses_def set_map by blast+
  have "(\<lambda>i. analyzed (disassemble (ai_address i) rd)) ` set (instructions (result s)) =
      (\<lambda>i. i) ` set (instructions (result s))"
    by (rule image_cong [OF refl]) (rule i [rule_format, symmetric])
  then show "set (instructions (result s)) = (\<lambda>a. analyzed (disassemble a rd)) ` visited s"
    by (simp add: v image_image)
  show "visited s = ai_address ` set (instructions (result s))"
    "distinct (map ai_address (instructions (result s)))" by (fact v, fact d)
qed

lemma search_reach:
  assumes "search_ok rd eps s"
  shows "a \<in> visited s \<Longrightarrow> reach rd eps a"
    and "a \<in> set (conflict_addresses (result s)) \<Longrightarrow>
      reach rd eps a \<and> (\<exists>b \<in> visited s. inside a (b, get_length (rd b) - 1))"
  using assms unfolding search_ok_def pending_def by blast+

lemma searched_length: "length (instructions (result (searched iter eps rd n))) \<le> n"
  by (simp add: searched_def search_loop_length search_init_def empty_result_def Let_def)

lemma analyze_sel:
  "instructions (analyzeCodeMulti iter eps rd n) = sort_key ai_address (instructions (result (searched iter eps rd n)))"
  "conflicts (analyzeCodeMulti iter eps rd n) = conflicts (result (searched iter eps rd n))"
  "ranges (analyzeCodeMulti iter eps rd n) = code_ranges (instructions (analyzeCodeMulti iter eps rd n))"
  "truncated (analyzeCodeMulti iter eps rd n) \<longleftrightarrow>
    workQueue (searched iter eps rd n) \<noteq> [] \<and> n \<le> length (instructions (result (searched iter eps rd n)))"
  by (simp_all add: analyzeCodeMulti_def searched_def Let_def)

lemma set_addresses:
  assumes "visits_all iter"
  shows "set (addresses (analyzeCodeMulti iter eps rd n)) = visited (searched iter eps rd n)"
  using search_found(1) [OF searched_ok(1) [OF assms]] by (simp add: addresses_def analyze_sel)

text \<open>Every reachable address is found, unless the search was cut off or met a conflict.\<close>

lemma reach_found:
  assumes ok: "search_ok rd eps s" and "workQueue s = []" "conflicts (result s) = []" and "reach rd eps a"
  shows "a \<in> visited s"
  using assms(4)
proof (induction rule: reach.induct)
  case (entry a) then show ?case using assms(1-3) by (auto simp: search_ok_def pending_def conflict_addresses_def)
next
  case (succ a b) then show ?case using assms(1-3) by (auto simp: search_ok_def pending_def conflict_addresses_def)
qed

lemma length_addresses_le: "distinct (xs :: u16 list) \<Longrightarrow> length xs \<le> 65536"
  using card_mono [of UNIV "set xs"] by (simp add: distinct_card card_word)

subsection \<open>Ranges\<close>

definition instr_bytes :: "AnalyzedInstruction \<Rightarrow> u16 set" where
  "instr_bytes i = {ai_address i .. last_byte i}"

definition range_bytes :: "CodeRange \<Rightarrow> u16 set" where
  "range_bytes r = {cr_start r .. cr_end r}"

text \<open>Two ranges in order, with at least one byte between them.\<close>

definition apart :: "CodeRange \<Rightarrow> CodeRange \<Rightarrow> bool" where
  "apart r q \<longleftrightarrow> unat (cr_end r) + 1 < unat (cr_start q)"

lemma merge_bytes:
  fixes a l rs re :: u16
  assumes "unat a \<le> unat re + 1" "rs \<le> re" "rs \<le> a" "a \<le> l"
  shows "{rs .. (if re < l then l else re)} = {rs..re} \<union> {a..l}"
  using assms by (auto simp: word_le_nat_alt word_less_nat_alt)

lemma form_ranges_start: "r \<in> set (form_ranges rs re xs) \<Longrightarrow> sorted (map ai_address xs) \<Longrightarrow>
    \<forall>i \<in> set xs. rs \<le> ai_address i \<Longrightarrow> rs \<le> cr_start r"
  by (induction rs re xs rule: form_ranges.induct) (auto split: if_splits intro: order_trans)

lemma form_ranges_bytes:
  assumes "rs \<le> re" "sorted (map ai_address xs)"
    "\<forall>i \<in> set xs. rs \<le> ai_address i \<and> ai_address i \<le> last_byte i"
  shows "\<Union> (range_bytes ` set (form_ranges rs re xs)) = {rs..re} \<union> \<Union> (instr_bytes ` set xs)"
  using assms
proof (induction rs re xs rule: form_ranges.induct)
  case (2 rs re i xs)
  show ?case
  proof (cases "unat (ai_address i) \<le> unat re + 1")
    case True
    let ?re = "if re < last_byte i then last_byte i else re"
    have "rs \<le> ?re" using 2 by auto
    with 2 True have "\<Union> (range_bytes ` set (form_ranges rs ?re xs)) = {rs..?re} \<union> \<Union> (instr_bytes ` set xs)"
      by auto
    also have "{rs..?re} = {rs..re} \<union> instr_bytes i"
      unfolding instr_bytes_def using 2 True by (intro merge_bytes) auto
    finally show ?thesis using True by (simp add: Un_assoc)
  next
    case False
    with 2 show ?thesis by (simp add: range_bytes_def instr_bytes_def)
  qed
qed (simp add: range_bytes_def)

lemma form_ranges_apart:
  assumes "rs \<le> re" "sorted (map ai_address xs)"
    "\<forall>i \<in> set xs. rs \<le> ai_address i \<and> ai_address i \<le> last_byte i"
  shows "sorted_wrt apart (form_ranges rs re xs)"
  using assms
proof (induction rs re xs rule: form_ranges.induct)
  case (2 rs re i xs)
  show ?case
  proof (cases "unat (ai_address i) \<le> unat re + 1")
    case True
    with 2 show ?thesis by auto
  next
    case False
    have "ai_address i \<le> cr_start r" if "r \<in> set (form_ranges (ai_address i) (last_byte i) xs)" for r
      using form_ranges_start [OF that] 2 by simp
    with False have "\<forall>r \<in> set (form_ranges (ai_address i) (last_byte i) xs). apart \<lparr>cr_start = rs, cr_end = re\<rparr> r"
      by (fastforce simp: apart_def word_le_nat_alt)
    with 2 False show ?thesis by simp
  qed
qed simp

lemma code_ranges_ok:
  assumes "sorted (map ai_address xs)" "\<forall>i \<in> set xs. ai_address i \<le> last_byte i"
  shows "\<Union> (range_bytes ` set (code_ranges xs)) = \<Union> (instr_bytes ` set xs)"
    and "sorted_wrt apart (code_ranges xs)"
proof -
  show "\<Union> (range_bytes ` set (code_ranges xs)) = \<Union> (instr_bytes ` set xs)"
    using assms form_ranges_bytes [of "ai_address (hd xs)" "last_byte (hd xs)" "tl xs"]
    by (cases xs) (simp_all add: code_ranges_def instr_bytes_def)
  show "sorted_wrt apart (code_ranges xs)"
    using assms form_ranges_apart [of "ai_address (hd xs)" "last_byte (hd xs)" "tl xs"]
    by (cases xs) (simp_all add: code_ranges_def)
qed

text \<open>An instruction that runs over the end of memory gives a range whose end precedes its
  start.\<close>

lemma range_wraps:
  "code_ranges [analyzed (disassemble 0xFFFF (\<lambda>_. 0xC3))] = [\<lparr>cr_start = 0xFFFF, cr_end = 1\<rparr>]"
  by (simp add: code_ranges_def last_byte_def analyzed_def get_length_nth) code_simp

subsection \<open>Properties of the analyser\<close>

text \<open>The bytes the analyser reads are those the debugger sees, without effect on the machine.\<close>

definition debugger_byte :: "unit machine mach \<Rightarrow> u16 \<Rightarrow> u8" where
  "debugger_byte s a = fst (debug_peek a False (kvaz (mio (bus s)), ()))"

lemma debugger_byte_isa: "debugger_byte s = ab_read (vector_abus nofdc) False (bus s)"
  by (rule ext) (simp add: debugger_byte_def debug_peek_eq vector_abus_def)



text \<open>C10: Completeness: an analysis that was not cut off and met no conflict lists exactly the
  instructions reachable from the entry points, in increasing order of address, each as the
  disassembler shows it.\<close>

theorem analysis_finds_reachable_code:
  assumes "visits_all iter" "\<not> truncated (analyzeCodeMulti iter eps rd n)"
    and "conflicts (analyzeCodeMulti iter eps rd n) = []"
  shows "set (instructions (analyzeCodeMulti iter eps rd n)) =
      (\<lambda>a. analyzed (disassemble a rd)) ` {a. reach rd eps a} \<and>
    sorted_wrt (<) (addresses (analyzeCodeMulti iter eps rd n))"
proof -
  let ?s = "searched iter eps rd n" and ?r = "analyzeCodeMulti iter eps rd n"
  have ok: "search_ok rd eps ?s" and ends: "\<not> searching n ?s" using searched_ok [OF assms(1)] by auto
  have q: "workQueue ?s = []" using ends assms(2) by (auto simp: searching_def analyze_sel)
  have vis: "visited ?s = {a. reach rd eps a}"
    using reach_found [OF ok q] search_reach(1) [OF ok] assms(3) by (auto simp: analyze_sel)
  have "sorted_wrt (<) (addresses ?r)"
    using search_found(3) [OF ok] by (simp add: addresses_def analyze_sel strict_sorted_iff distinct_map)
  moreover have "set (instructions ?r) = (\<lambda>a. analyzed (disassemble a rd)) ` visited ?s"
    using search_found(2) [OF ok] by (simp add: analyze_sel)
  ultimately show ?thesis by (simp add: vis)
qed

text \<open>A conditional jump to itself and a halt.\<close>

definition small_program :: "u16 \<Rightarrow> u8" where
  "small_program a = (if a = 0 then 0xC2 else if a = 3 then 0x76 else 0)"

lemma small_analysis:
  "\<not> truncated (analyzeCodeMulti (\<lambda>m. m) [0] small_program 10)"
  "conflicts (analyzeCodeMulti (\<lambda>m. m) [0] small_program 10) = []"
  "addresses (analyzeCodeMulti (\<lambda>m. m) [0] small_program 10) = [0, 3]"
  by code_simp+

lemma small_analysis_in_memory:
  "\<forall>i \<in> set (instructions (analyzeCodeMulti (\<lambda>m. m) [0] small_program 10)). ai_address i \<le> last_byte i"
  by code_simp

theorem analysis_finds_reachable_code_witness:
  "set (instructions (analyzeCodeMulti (\<lambda>m. m) [0] small_program 10)) =
      (\<lambda>a. analyzed (disassemble a small_program)) ` {a. reach small_program [0] a} \<and>
    sorted_wrt (<) (addresses (analyzeCodeMulti (\<lambda>m. m) [0] small_program 10))"
  by (rule analysis_finds_reachable_code [OF _ small_analysis(1,2)]) (simp add: visits_all_def)

text \<open>C34: Limits: whatever the limit, the analyser returns no more instructions than allowed, all
  of them reachable from the entry points, a limit above 65536 never cuts it off, and every
  conflict it reports is a reachable address inside an instruction it lists.\<close>

theorem analysis_within_limit:
  assumes "visits_all iter"
  shows "instructionCount (analyzeCodeMulti iter eps rd n) \<le> min n 65536 \<and>
    (truncated (analyzeCodeMulti iter eps rd n) \<longrightarrow> n \<le> 65536) \<and>
    (\<forall>a \<in> set (addresses (analyzeCodeMulti iter eps rd n)). reach rd eps a) \<and>
    (\<forall>c \<in> set (conflict_addresses (analyzeCodeMulti iter eps rd n)). reach rd eps c \<and>
       (\<exists>i \<in> set (instructions (analyzeCodeMulti iter eps rd n)). inside c (ai_address i, ai_size i - 1)))"
proof -
  let ?s = "searched iter eps rd n" and ?r = "analyzeCodeMulti iter eps rd n"
  have ok: "search_ok rd eps ?s" using searched_ok [OF assms] by auto
  have len: "length (instructions (result ?s)) \<le> 65536"
    using length_addresses_le [OF search_found(3) [OF ok]] by simp
  have cnt: "instructionCount ?r = length (instructions (result ?s))"
    by (simp add: analyzeCodeMulti_def searched_def Let_def)
  have listed: "\<exists>i \<in> set (instructions ?r). inside c (ai_address i, ai_size i - 1)"
    if "b \<in> visited ?s" "inside c (b, get_length (rd b) - 1)" for b c
  proof (rule bexI)
    show "analyzed (disassemble b rd) \<in> set (instructions ?r)"
      using that(1) search_found(2) [OF ok] by (simp add: analyze_sel)
    show "inside c (ai_address (analyzed (disassemble b rd)), ai_size (analyzed (disassemble b rd)) - 1)"
      using that(2) by (simp add: analyzed_def)
  qed
  have conf: "conflict_addresses ?r = conflict_addresses (result ?s)"
    by (simp add: conflict_addresses_def analyze_sel)
  have "\<forall>c \<in> set (conflict_addresses ?r). reach rd eps c \<and>
      (\<exists>i \<in> set (instructions ?r). inside c (ai_address i, ai_size i - 1))"
    unfolding conf using search_reach(2) [OF ok] listed by blast
  then show ?thesis
    using len searched_length [of iter eps rd n] search_reach(1) [OF ok]
    by (auto simp: cnt set_addresses [OF assms] analyze_sel)
qed

lemma overlapping_analysis:
  "set (addresses (analyzeCodeMulti (\<lambda>m. m) [0, 1] small_program 10)) = {0, 3}"
  "set (conflict_addresses (analyzeCodeMulti (\<lambda>m. m) [0, 1] small_program 10)) = {1}"
  by code_simp+

theorem analysis_within_limit_witness:
  "instructionCount (analyzeCodeMulti (\<lambda>m. m) [0, 1] small_program 10) \<le> 10 \<and>
    \<not> truncated (analyzeCodeMulti (\<lambda>m. m) [0, 1] small_program 70000) \<and>
    reach small_program [0, 1] 3 \<and> reach small_program [0, 1] 1"
  using analysis_within_limit [of "\<lambda>m. m" "[0, 1]" small_program 10]
    analysis_within_limit [of "\<lambda>m. m" "[0, 1]" small_program 70000]
  by (simp add: visits_all_def overlapping_analysis)

lemma search_loop_iterates:
  "\<exists>k \<le> search_measure s. search_loop iter rd n s = (search_step iter rd ^^ k) s \<and>
     \<not> searching n ((search_step iter rd ^^ k) s)"
proof (induction "search_measure s" arbitrary: s rule: less_induct)
  case less
  show ?case
  proof (cases "searching n s")
    case True
    then have m: "search_measure (search_step iter rd s) < search_measure s"
      by (simp add: searching_def search_measure_step)
    from less [OF this] obtain k where "k \<le> search_measure (search_step iter rd s)"
      "search_loop iter rd n (search_step iter rd s) = (search_step iter rd ^^ Suc k) s"
      "\<not> searching n ((search_step iter rd ^^ Suc k) s)" by (auto simp: funpow_swap1)
    with True m show ?thesis
      by (intro exI [of _ "Suc k"]) (simp add: search_loop.simps [of iter rd n s])
  next
    case False
    then show ?thesis by (intro exI [of _ 0]) (simp add: search_loop.simps [of iter rd n s])
  qed
qed

lemma length_dedup: "length (dedup eps) \<le> length eps"
  using card_length [of eps] distinct_card [OF set_dedup(2), of eps] by simp

text \<open>C33: Termination: the search ends after at most three steps per address of the memory and one
  per entry point, for every program, limit and order of the map.\<close>

theorem analysis_ends:
  "\<exists>k \<le> 196608 + length eps.
     search_loop iter rd n (search_init eps) = (search_step iter rd ^^ k) (search_init eps) \<and>
     \<not> searching n ((search_step iter rd ^^ k) (search_init eps))"
proof -
  have "search_measure (search_init eps) \<le> 196608 + length eps"
    using length_dedup [of eps]
    by (simp add: search_measure_def search_init_def empty_result_def Let_def card_word)
  then show ?thesis using search_loop_iterates [of "search_init eps" iter rd n] by (meson le_trans)
qed

text \<open>C35: The ranges: when no instruction runs over the end of memory, the ranges cover exactly the
  bytes of the instructions, in increasing order, with a gap between any two.\<close>

theorem ranges_cover_instructions:
  assumes "\<forall>i \<in> set (instructions (analyzeCodeMulti iter eps rd n)). ai_address i \<le> last_byte i"
  shows "\<Union> (range_bytes ` set (ranges (analyzeCodeMulti iter eps rd n))) =
      \<Union> (instr_bytes ` set (instructions (analyzeCodeMulti iter eps rd n))) \<and>
    sorted_wrt apart (ranges (analyzeCodeMulti iter eps rd n))"
  using code_ranges_ok [of "instructions (analyzeCodeMulti iter eps rd n)"] assms
  by (simp add: analyze_sel)

theorem ranges_cover_instructions_witness:
  "\<Union> (range_bytes ` set (ranges (analyzeCodeMulti (\<lambda>m. m) [0] small_program 10))) =
      \<Union> (instr_bytes ` set (instructions (analyzeCodeMulti (\<lambda>m. m) [0] small_program 10))) \<and>
    sorted_wrt apart (ranges (analyzeCodeMulti (\<lambda>m. m) [0] small_program 10))"
  by (rule ranges_cover_instructions [OF small_analysis_in_memory])


end
