(* ===== verification/Rdb_Text.thy ===== *)
theory Rdb_Text
  imports Prelude
begin

text \<open>
  The sanitizer of free text in the ROM database (\<^verbatim>\<open>normalizeRdbText\<close> of
  \<^verbatim>\<open>rdb_types.h\<close>): line breaks with the blanks around them become one space, runs of spaces
  become one space, spaces at both ends go away.  A character is a byte of the string.  The
  theorems are the three promises of its comment.
\<close>

subsection \<open>The function\<close>

abbreviation LF :: char where "LF \<equiv> CHR 0x0A"
abbreviation CR :: char where "CR \<equiv> CHR 0x0D"
abbreviation SPACE :: char where "SPACE \<equiv> CHR 0x20"
abbreviation TAB :: char where "TAB \<equiv> CHR 0x09"

text \<open>The argument is what is left of the string at the position.\<close>

definition breakLen :: "string \<Rightarrow> nat" where
  "breakLen s = (case s of [] \<Rightarrow> 0 | c # t \<Rightarrow>
     if c = CR then (if t \<noteq> [] \<and> hd t = LF then 2 else 1)
     else if c = LF then 1
     else if c = CHR 0xC2 \<and> t \<noteq> [] \<and> hd t = CHR 0x85 then 2
     else if c = CHR 0xE2 \<and> 2 \<le> length t \<and> t ! 0 = CHR 0x80 \<and>
             (t ! 1 = CHR 0xA8 \<or> t ! 1 = CHR 0xA9) then 3
     else 0)"

definition isHSpace :: "char \<Rightarrow> bool" where
  "isHSpace c \<longleftrightarrow> c = SPACE \<or> c = TAB"

lemma breakLen_le: "breakLen s \<le> length s"
  by (cases s) (auto simp: breakLen_def Suc_le_eq)

text \<open>Further breaks, each with the blanks after it.\<close>

function absorb :: "string \<Rightarrow> string" where
  "absorb s = (if breakLen s = 0 then s else absorb (dropWhile isHSpace (drop (breakLen s) s)))"
  by pat_completeness auto
termination
proof (relation "measure length")
  fix s assume "breakLen s \<noteq> 0"
  then have "length (drop (breakLen s) s) < length s" using breakLen_le [of s] by auto
  then show "(dropWhile isHSpace (drop (breakLen s) s), s) \<in> measure length"
    using length_dropWhile_le le_less_trans by (fastforce simp only: in_measure)
qed simp

declare absorb.simps [simp del]

lemma length_absorb: "length (absorb s) \<le> length s"
proof (induction s rule: absorb.induct)
  case (1 s)
  show ?case
  proof (cases "breakLen s = 0")
    case False
    have "length (dropWhile isHSpace (drop (breakLen s) s)) \<le> length s"
      using length_dropWhile_le [of isHSpace "drop (breakLen s) s"] by simp
    with 1 [OF False] False show ?thesis by (subst absorb.simps) simp
  qed (simp add: absorb.simps)
qed

text \<open>First pass; \<open>mark\<close> is the marked string so far, last character first.\<close>

function mark_breaks :: "string \<Rightarrow> string \<Rightarrow> string" where
  "mark_breaks s mark = (case s of [] \<Rightarrow> rev mark | c # t \<Rightarrow>
     if 0 < breakLen s
     then mark_breaks (absorb (dropWhile isHSpace (drop (breakLen s) s))) (LF # dropWhile isHSpace mark)
     else mark_breaks t (c # mark))"
  by pat_completeness auto
termination
proof (relation "measure (\<lambda>(s, _). length s)")
  fix s mark c t assume s: "s = c # t" "0 < breakLen s"
  have "length (absorb (dropWhile isHSpace (drop (breakLen s) s))) \<le> length (drop (breakLen s) s)"
    using length_absorb length_dropWhile_le le_trans by blast
  also have "\<dots> < length s" using s by simp
  finally show "((absorb (dropWhile isHSpace (drop (breakLen s) s)), LF # dropWhile isHSpace mark), s, mark) \<in>
      measure (\<lambda>(s, _). length s)" by simp
qed simp_all

declare mark_breaks.simps [simp del]

text \<open>Second pass.\<close>

function squeeze :: "string \<Rightarrow> string" where
  "squeeze [] = []"
| "squeeze (c # t) =
     (if c = LF then SPACE # squeeze t
      else if c = SPACE then SPACE # squeeze (dropWhile (\<lambda>d. d = SPACE) t)
      else c # squeeze t)"
  by pat_completeness auto
termination by (relation "measure length") (auto simp: le_imp_less_Suc length_dropWhile_le)

definition trim_spaces :: "string \<Rightarrow> string" where
  "trim_spaces out = rev (dropWhile (\<lambda>c. c = SPACE) (rev (dropWhile (\<lambda>c. c = SPACE) out)))"

definition normalizeRdbText :: "string \<Rightarrow> string" where
  "normalizeRdbText s = (if s = [] then s else trim_spaces (squeeze (mark_breaks s [])))"

subsection \<open>No line break is left\<close>

text \<open>No line break begins anywhere in the string.\<close>

fun unbroken :: "string \<Rightarrow> bool" where
  "unbroken [] = True"
| "unbroken (c # t) = (breakLen (c # t) = 0 \<and> unbroken t)"

text \<open>The same for a marked string, whose line feeds are marks.\<close>

fun marked :: "string \<Rightarrow> bool" where
  "marked [] = True"
| "marked (c # t) = ((c = LF \<or> breakLen (c # t) = 0) \<and> marked t)"

lemma breakLen_Cons:
  "breakLen (c # t) = 0 \<longleftrightarrow> c \<noteq> CR \<and> c \<noteq> LF \<and>
     \<not> (c = CHR 0xC2 \<and> (\<exists>r. t = CHR 0x85 # r)) \<and>
     \<not> (c = CHR 0xE2 \<and> (\<exists>d r. t = CHR 0x80 # d # r \<and> (d = CHR 0xA8 \<or> d = CHR 0xA9)))"
  by (cases t; cases "tl t") (auto simp: breakLen_def)

text \<open>The marked string so far, seen before what is left of the input.\<close>

fun marked_before :: "string \<Rightarrow> string \<Rightarrow> bool" where
  "marked_before [] s = True"
| "marked_before (c # m) s = ((c = LF \<or> breakLen (c # s) = 0) \<and> marked_before m (c # s))"

lemma marked_before_rev: "marked_before m [] \<Longrightarrow> marked (rev m)"
proof -
  have "marked_before m s \<Longrightarrow> marked s \<Longrightarrow> marked (rev m @ s)" for s
    by (induction m arbitrary: s) auto
  then show "marked_before m [] \<Longrightarrow> marked (rev m)" by fastforce
qed

text \<open>What follows may be cut at a line feed.\<close>

lemma breakLen_cut: "breakLen (c # q @ s) = 0 \<Longrightarrow> breakLen (c # q @ LF # s') = 0"
  by (cases q; cases "tl q") (auto simp: breakLen_Cons)

lemma marked_before_cut: "marked_before m (q @ s) \<Longrightarrow> marked_before m (q @ LF # s')"
proof (induction m arbitrary: q)
  case (Cons c m)
  then show ?case using Cons.IH [of "c # q"] breakLen_cut [of c q s s'] by auto
qed simp

lemma marked_before_dropWhile: "marked_before m s \<Longrightarrow> \<exists>s'. marked_before (dropWhile P m) s'"
proof (induction m arbitrary: s)
  case (Cons c m)
  then have "marked_before m (c # s)" by simp
  from Cons.IH [OF this] Cons.prems show ?case by (cases "P c") (simp, fastforce)
qed (auto intro: exI [of _ "[]"])

lemma mark_breaks_marked: "marked_before m s \<Longrightarrow> marked (mark_breaks s m)"
proof (induction s m rule: mark_breaks.induct)
  case (1 s m)
  show ?case
  proof (cases s)
    case Nil
    with 1 show ?thesis by (simp add: mark_breaks.simps [of "[]"] marked_before_rev)
  next
    case (Cons c t)
    show ?thesis
    proof (cases "0 < breakLen s")
      case True
      obtain s' where "marked_before (dropWhile isHSpace m) s'"
        using marked_before_dropWhile [OF "1.prems"] by blast
      from marked_before_cut [of _ "[]", simplified, OF this]
      have "marked_before (LF # dropWhile isHSpace m) s''" for s'' by simp
      with 1 True Cons show ?thesis by (subst mark_breaks.simps) simp
    next
      case False
      with 1 Cons show ?thesis by (subst mark_breaks.simps) simp
    qed
  qed
qed

lemma squeeze_Cons: "squeeze t = d # r \<Longrightarrow> d \<noteq> SPACE \<Longrightarrow> \<exists>r'. t = d # r' \<and> squeeze r' = r"
  by (cases t) (auto split: if_splits)

lemma marked_dropWhile: "marked s \<Longrightarrow> marked (dropWhile P s)"
  by (induction s) auto

lemma squeeze_unbroken: "marked s \<Longrightarrow> unbroken (squeeze s)"
proof (induction s rule: squeeze.induct)
  case (2 c t)
  have "breakLen (c # squeeze t) = 0" if "c \<noteq> LF" "c \<noteq> SPACE"
  proof -
    have "breakLen (c # t) = 0" using 2 that by simp
    then show ?thesis unfolding breakLen_Cons by (auto dest!: squeeze_Cons)
  qed
  moreover have "breakLen (SPACE # x) = 0" for x by (simp add: breakLen_Cons)
  ultimately show ?case using 2 by (auto simp: marked_dropWhile)
qed simp

lemma unbroken_dropWhile: "unbroken s \<Longrightarrow> unbroken (dropWhile P s)"
  by (induction s) auto

lemma unbroken_append: "unbroken (s @ r) \<Longrightarrow> unbroken s"
proof (induction s)
  case (Cons c s)
  have "breakLen (c # s @ r) = 0 \<Longrightarrow> breakLen (c # s) = 0"
    by (auto simp: breakLen_Cons)
  with Cons show ?case by simp
qed simp

lemma unbroken_trim: "unbroken s \<Longrightarrow> unbroken (trim_spaces s)"
proof -
  assume "unbroken s"
  then have "unbroken (dropWhile (\<lambda>c. c = SPACE) s)" by (rule unbroken_dropWhile)
  then show ?thesis
    unfolding trim_spaces_def
    by (metis unbroken_append append_assoc rev_append rev_rev_ident takeWhile_dropWhile_id)
qed

lemma normalize_unbroken: "unbroken (normalizeRdbText s)"
proof -
  have "marked (mark_breaks s [])" by (rule mark_breaks_marked) simp
  then show ?thesis by (auto simp: normalizeRdbText_def intro: unbroken_trim squeeze_unbroken)
qed

subsection \<open>Normalized text stays as it is\<close>

text \<open>Marks stand alone: no blank and no other mark next to them.\<close>

definition join_ok :: "char \<Rightarrow> char \<Rightarrow> bool" where
  "join_ok a b \<longleftrightarrow> (a = LF \<longrightarrow> b \<noteq> LF \<and> \<not> isHSpace b) \<and> (b = LF \<longrightarrow> \<not> isHSpace a)"

definition fresh :: "string \<Rightarrow> bool" where
  "fresh s \<longleftrightarrow> breakLen s = 0 \<and> (s \<noteq> [] \<longrightarrow> \<not> isHSpace (hd s))"

definition marks_alone :: "string \<Rightarrow> string \<Rightarrow> bool" where
  "marks_alone m s \<longleftrightarrow> successively (\<lambda>b a. join_ok a b) m \<and> (m \<noteq> [] \<and> hd m = LF \<longrightarrow> fresh s)"

lemma hd_dropWhile_blank: "dropWhile isHSpace s \<noteq> [] \<Longrightarrow> \<not> isHSpace (hd (dropWhile isHSpace s))"
  by (rule hd_dropWhile)

lemma absorb_fresh: "(s \<noteq> [] \<longrightarrow> \<not> isHSpace (hd s)) \<Longrightarrow> fresh (absorb s)"
proof (induction s rule: absorb.induct)
  case (1 s)
  then show ?case
    using hd_dropWhile_blank [of "drop (breakLen s) s"]
    by (subst absorb.simps) (auto simp: fresh_def)
qed

lemma successively_dropWhile: "successively P s \<Longrightarrow> successively P (dropWhile Q s)"
  by (metis successively_append_iff takeWhile_dropWhile_id)

lemma hd_dropWhile_mark:
  assumes "successively (\<lambda>b a. join_ok a b) m" "hd m \<noteq> LF" "dropWhile isHSpace m \<noteq> []"
  shows "hd (dropWhile isHSpace m) \<noteq> LF"
  using assms
proof (induction m)
  case (Cons b m)
  show ?case
  proof (cases "isHSpace b")
    case True
    with Cons.prems have "m \<noteq> []" by auto
    then obtain a m' where "m = a # m'" by (cases m) auto
    with Cons True show ?thesis by (auto simp: join_ok_def)
  next
    case False
    with Cons.prems show ?thesis by simp
  qed
qed simp

lemma marks_alone_break:
  assumes "marks_alone m s" "0 < breakLen s"
  shows "marks_alone (LF # dropWhile isHSpace m) (absorb (dropWhile isHSpace (drop (breakLen s) s)))"
proof -
  have "m = [] \<or> hd m \<noteq> LF" using assms by (auto simp: marks_alone_def fresh_def)
  then have "dropWhile isHSpace m \<noteq> [] \<Longrightarrow>
      hd (dropWhile isHSpace m) \<noteq> LF \<and> \<not> isHSpace (hd (dropWhile isHSpace m))"
    using assms(1) hd_dropWhile_mark [of m] hd_dropWhile_blank [of m] by (auto simp: marks_alone_def)
  moreover have "fresh (absorb (dropWhile isHSpace (drop (breakLen s) s)))"
    by (rule absorb_fresh) (use hd_dropWhile_blank in blast)
  ultimately show ?thesis
    using assms(1) by (auto simp: marks_alone_def successively_Cons successively_dropWhile join_ok_def)
qed

lemma mark_breaks_alone: "marks_alone m s \<Longrightarrow> successively join_ok (mark_breaks s m)"
proof (induction s m rule: mark_breaks.induct)
  case (1 s m)
  show ?case
  proof (cases s)
    case Nil
    with 1 show ?thesis by (simp add: mark_breaks.simps [of "[]"] marks_alone_def successively_rev)
  next
    case (Cons c t)
    show ?thesis
    proof (cases "0 < breakLen s")
      case True
      with 1 Cons show ?thesis by (subst mark_breaks.simps) (simp add: marks_alone_break)
    next
      case False
      then have "c \<noteq> LF" using Cons by (auto simp: breakLen_Cons)
      with "1.prems" Cons False have "marks_alone (c # m) t"
        by (auto simp: marks_alone_def successively_Cons fresh_def join_ok_def)
      with 1 Cons False show ?thesis by (subst mark_breaks.simps) simp
    qed
  qed
qed

definition single :: "char \<Rightarrow> char \<Rightarrow> bool" where
  "single a b \<longleftrightarrow> \<not> (a = SPACE \<and> b = SPACE)"

lemma squeeze_hd: "t \<noteq> [] \<Longrightarrow> squeeze t \<noteq> [] \<and> hd (squeeze t) = (if hd t = LF then SPACE else hd t)"
  by (cases t) auto

lemma squeeze_Nil [simp]: "squeeze t = [] \<longleftrightarrow> t = []"
  by (cases t) auto

lemma after_spaces:
  assumes "successively join_ok (SPACE # t)" "dropWhile (\<lambda>d. d = SPACE) t \<noteq> []"
  shows "hd (dropWhile (\<lambda>d. d = SPACE) t) \<noteq> LF"
  using assms by (induction t) (auto simp: join_ok_def isHSpace_def successively_Cons split: if_splits)

lemma squeeze_single: "successively join_ok s \<Longrightarrow> successively single (squeeze s)"
proof (induction s rule: squeeze.induct)
  case (2 c t)
  let ?u = "dropWhile (\<lambda>d. d = SPACE) t"
  have t: "successively join_ok t" using 2 by (auto simp: successively_Cons)
  have u: "?u \<noteq> [] \<Longrightarrow> hd ?u \<noteq> SPACE" using hd_dropWhile by blast
  consider (mark) "c = LF" | (space) "c = SPACE" | (other) "c \<noteq> LF" "c \<noteq> SPACE" by blast
  then show ?case
  proof cases
    case mark
    with 2 t show ?thesis
      using squeeze_hd [of t] by (auto simp: successively_Cons single_def join_ok_def isHSpace_def)
  next
    case space
    have "?u \<noteq> [] \<Longrightarrow> hd (squeeze ?u) \<noteq> SPACE"
    proof -
      assume ne: "?u \<noteq> []"
      have "successively join_ok (SPACE # t)" using "2.prems" space by simp
      from after_spaces [OF this ne] squeeze_hd [OF ne] u [OF ne] show ?thesis by simp
    qed
    moreover have "successively single (squeeze ?u)" using 2 space t by (simp add: successively_dropWhile)
    moreover have "squeeze (c # t) = SPACE # squeeze ?u" using space by simp
    ultimately show ?thesis by (auto simp: successively_Cons single_def simp del: squeeze.simps)
  next
    case other
    with 2 t show ?thesis by (auto simp: successively_Cons single_def)
  qed
qed simp

lemma squeeze_same: "unbroken s \<Longrightarrow> successively single s \<Longrightarrow> squeeze s = s"
proof (induction s rule: squeeze.induct)
  case (2 c t)
  have "c \<noteq> LF" using 2 by (auto simp: breakLen_Cons)
  moreover have "c = SPACE \<Longrightarrow> dropWhile (\<lambda>d. d = SPACE) t = t"
    using "2.prems" by (cases t) (auto simp: single_def)
  ultimately show ?case using 2 by (auto simp: successively_Cons)
qed simp

lemma mark_breaks_same: "unbroken s \<Longrightarrow> mark_breaks s m = rev m @ s"
  by (induction s arbitrary: m) (simp_all add: mark_breaks.simps)

definition trimmed :: "string \<Rightarrow> bool" where
  "trimmed s \<longleftrightarrow> s \<noteq> [] \<longrightarrow> hd s \<noteq> SPACE \<and> last s \<noteq> SPACE"

lemma trim_same:
  assumes "trimmed s"
  shows "trim_spaces s = s"
proof (cases "s = []")
  case False
  then have "hd s \<noteq> SPACE" "hd (rev s) \<noteq> SPACE" using assms by (simp_all add: trimmed_def hd_rev)
  then have "dropWhile (\<lambda>c. c = SPACE) s = s" "dropWhile (\<lambda>c. c = SPACE) (rev s) = rev s"
    unfolding dropWhile_eq_self_iff by blast+
  then show ?thesis by (simp add: trim_spaces_def)
qed (simp add: trim_spaces_def)

lemma prefix_hd: "x = t @ r \<Longrightarrow> t \<noteq> [] \<Longrightarrow> x \<noteq> [] \<and> hd x = hd t"
  by auto

lemma trim_trimmed: "trimmed (trim_spaces s)"
proof -
  let ?P = "\<lambda>c. c = SPACE"
  define u where "u = dropWhile ?P s"
  define t where "t = rev (dropWhile ?P (rev u))"
  have trim: "trim_spaces s = t" by (simp add: trim_spaces_def u_def t_def)
  show ?thesis
  proof (cases "t = []")
    case True
    then show ?thesis by (simp add: trim trimmed_def)
  next
    case False
    then have last: "last t \<noteq> SPACE" using hd_dropWhile [of ?P "rev u"] by (simp add: t_def last_rev)
    have "rev u = takeWhile ?P (rev u) @ dropWhile ?P (rev u)" by simp
    then have "u = t @ rev (takeWhile ?P (rev u))" unfolding t_def by (metis rev_append rev_rev_ident)
    from prefix_hd [OF this False] have "u \<noteq> []" "hd u = hd t" by auto
    moreover have "u \<noteq> [] \<Longrightarrow> hd u \<noteq> SPACE" using hd_dropWhile [of ?P s] by (simp add: u_def)
    ultimately show ?thesis using last by (simp add: trim trimmed_def)
  qed
qed

lemma trim_successively: "successively P s \<Longrightarrow> successively P (trim_spaces s)"
  unfolding trim_spaces_def by (simp add: successively_rev successively_dropWhile)

lemma normalize_shape:
  assumes "s \<noteq> []"
  shows "successively single (normalizeRdbText s)" "trimmed (normalizeRdbText s)"
proof -
  have "successively join_ok (mark_breaks s [])" by (rule mark_breaks_alone) (simp add: marks_alone_def)
  then show "successively single (normalizeRdbText s)" "trimmed (normalizeRdbText s)"
    using assms by (simp_all add: normalizeRdbText_def trim_successively squeeze_single trim_trimmed)
qed

lemma normalize_same:
  assumes "unbroken s" "successively single s" "trimmed s"
  shows "normalizeRdbText s = s"
  using assms by (simp add: normalizeRdbText_def mark_breaks_same squeeze_same trim_same)

lemma normalize_Nil [simp]: "normalizeRdbText [] = []"
  by (simp add: normalizeRdbText_def)

lemma normalize_idem [simp]: "normalizeRdbText (normalizeRdbText s) = normalizeRdbText s"
  by (cases "s = []") (simp_all add: normalize_same normalize_unbroken normalize_shape)

text \<open>C23: Free text of the database: the sanitized text contains no line break of any of its five
  forms, no two spaces in a row and no space at either end, and sanitizing it again changes
  nothing.  Text that already has this form is kept as it is.\<close>

theorem normalized_text:
  "unbroken (normalizeRdbText s) \<and> successively single (normalizeRdbText s) \<and>
   trimmed (normalizeRdbText s) \<and> normalizeRdbText (normalizeRdbText s) = normalizeRdbText s \<and>
   (normalizeRdbText s = s \<longleftrightarrow> unbroken s \<and> successively single s \<and> trimmed s)"
proof -
  have "successively single (normalizeRdbText s) \<and> trimmed (normalizeRdbText s)"
    by (cases "s = []") (simp add: trimmed_def, simp add: normalize_shape)
  then show ?thesis using normalize_unbroken [of s] normalize_same [of s] by auto
qed

end
