(* ===== verification/Std_Map.thy ===== *)
theory Std_Map
  imports Prelude "HOL-Library.List_Lexorder" "HOL-Library.Char_ord"
begin

text \<open>
  \<^verbatim>\<open>std::map\<close> as the debugger uses it: a list of keys and values in increasing order of the
  keys, which is the order of iteration.  The locale \<open>ordered_map\<close> is what its clients rely on.
\<close>

type_synonym ('k, 'v) std_map = "('k \<times> 'v) list"

fun map_put :: "'k::linorder \<Rightarrow> 'v \<Rightarrow> ('k, 'v) std_map \<Rightarrow> ('k, 'v) std_map" where
  "map_put k v [] = [(k, v)]"
| "map_put k v ((a, b) # m) =
     (if k < a then (k, v) # (a, b) # m else if k = a then (k, v) # m else (a, b) # map_put k v m)"

definition map_erase :: "'k \<Rightarrow> ('k, 'v) std_map \<Rightarrow> ('k, 'v) std_map" where
  "map_erase k m = [e \<leftarrow> m. fst e \<noteq> k]"

definition map_ok :: "('k::linorder, 'v) std_map \<Rightarrow> bool" where
  "map_ok m \<longleftrightarrow> sorted_wrt (<) (map fst m)"

locale ordered_map =
  fixes find :: "'k::linorder \<Rightarrow> 'm \<Rightarrow> 'v option" and put :: "'k \<Rightarrow> 'v \<Rightarrow> 'm \<Rightarrow> 'm"
    and erase :: "'k \<Rightarrow> 'm \<Rightarrow> 'm" and entries :: "'m \<Rightarrow> ('k \<times> 'v) list" and ok :: "'m \<Rightarrow> bool"
  assumes find_put: "ok m \<Longrightarrow> find j (put k v m) = (if j = k then Some v else find j m)"
    and find_erase: "ok m \<Longrightarrow> find j (erase k m) = (if j = k then None else find j m)"
    and ok_put: "ok m \<Longrightarrow> ok (put k v m)"
    and ok_erase: "ok m \<Longrightarrow> ok (erase k m)"
    and entries_find: "ok m \<Longrightarrow> (k, v) \<in> set (entries m) \<longleftrightarrow> find k m = Some v"
    and entries_sorted: "ok m \<Longrightarrow> sorted_wrt (<) (map fst (entries m))"
begin

text \<open>Loading entries without replacing those present: the first value of a key wins.\<close>

lemma first_wins:
  assumes "ok m"
  shows "find j (fold (\<lambda>(k, v) m. if find k m = None then put k v m else m) es m) =
      (case find j m of Some v \<Rightarrow> Some v | None \<Rightarrow> map_of es j)"
    and "ok (fold (\<lambda>(k, v) m. if find k m = None then put k v m else m) es m)"
  using assms
proof (induction es arbitrary: m)
  case Nil
  { case 1 then show ?case by (simp split: option.split) }
  { case 2 then show ?case by simp }
next
  case (Cons e es)
  { case (1 m)
    let ?m = "if find (fst e) m = None then put (fst e) (snd e) m else m"
    from 1 have "ok ?m" by (auto simp: ok_put)
    from Cons.IH(1) [OF this] 1 show ?case
      by (auto simp: split_def find_put split: option.split) }
  { case (2 m)
    let ?m = "if find (fst e) m = None then put (fst e) (snd e) m else m"
    from 2 have "ok ?m" by (auto simp: ok_put)
    from Cons.IH(2) [OF this] 2 show ?case by (auto simp: split_def) }
qed

lemma entries_distinct: "ok m \<Longrightarrow> distinct (map fst (entries m))"
  using entries_sorted strict_sorted_iff by blast

text \<open>The map is determined by what is found in it.\<close>

lemma entries_eqI:
  assumes "ok m" "ok m'" "\<And>k. find k m = find k m'"
  shows "entries m = entries m'"
proof -
  have eq: "set (entries m) = set (entries m')"
    using entries_find [OF assms(1)] entries_find [OF assms(2)] assms(3) by auto
  have "inj_on fst (set (entries m) \<union> set (entries m'))"
    using entries_distinct [OF assms(1)] eq by (simp add: distinct_map)
  then show ?thesis
    using entries_sorted [OF assms(1)] entries_sorted [OF assms(2)] eq
    by (intro map_sorted_distinct_set_unique [of fst]) (auto simp: strict_sorted_iff)
qed

text \<open>Entering all entries of a map into an empty one gives the map back.\<close>

lemma find_fold_put:
  assumes "ok m"
  shows "find j (fold (\<lambda>(k, v) m. put k v m) es m) =
      (case map_of (rev es) j of Some v \<Rightarrow> Some v | None \<Rightarrow> find j m)"
    and "ok (fold (\<lambda>(k, v) m. put k v m) es m)"
  using assms
proof (induction es arbitrary: m)
  case Nil
  { case 1 then show ?case by simp }
  { case 2 then show ?case by simp }
next
  case (Cons e es)
  { case 1
    from Cons.IH(1) [OF ok_put [OF this], of "fst e" "snd e"] 1 show ?case
      by (auto simp: split_def find_put map_add_def split: option.split) }
  { case 2
    from Cons.IH(2) [OF ok_put [OF this], of "fst e" "snd e"] show ?case by (simp add: split_def) }
qed

end

lemma map_put_find: "map_of (map_put k v m) j = (if j = k then Some v else map_of m j)" if "map_ok m"
  using that by (induction k v m rule: map_put.induct) (auto simp: map_ok_def)

lemma map_put_keys: "fst ` set (map_put k v m) = insert k (fst ` set m)"
  by (induction k v m rule: map_put.induct) auto

lemma map_put_ok: "map_ok m \<Longrightarrow> map_ok (map_put k v m)"
proof (induction k v m rule: map_put.induct)
  case (2 k v a b m)
  then show ?case using map_put_keys [of k v m] by (auto simp: map_ok_def)
qed (simp add: map_ok_def)

lemma map_erase_find: "map_of (map_erase k m) j = (if j = k then None else map_of m j)"
  by (induction m) (auto simp: map_erase_def)

lemma map_erase_ok: "map_ok m \<Longrightarrow> map_ok (map_erase k m)"
  by (simp add: map_ok_def map_erase_def sorted_wrt_map sorted_wrt_filter)

interpretation std_map: ordered_map "\<lambda>k m. map_of m k" map_put map_erase "\<lambda>m. m" map_ok
proof
  fix m :: "('a::linorder, 'b) std_map" and k v
  assume ok: "map_ok m"
  show "(k, v) \<in> set m \<longleftrightarrow> map_of m k = Some v"
    using ok by (simp add: map_ok_def strict_sorted_iff)
  show "sorted_wrt (<) (map fst m)" using ok by (simp add: map_ok_def)
qed (simp_all add: map_put_find map_put_ok map_erase_find map_erase_ok)

lemma map_ok_Nil [simp]: "map_ok []"
  by (simp add: map_ok_def)

end
