(* ===== verification/Rdb.thy ===== *)
theory Rdb
  imports Rdb_Text Std_Map Disasm
begin

text \<open>
  The ROM database of the debugger (\<^verbatim>\<open>rdb_types.h\<close>, \<^verbatim>\<open>rdb_types.cpp\<close>,
  \<^verbatim>\<open>rdb_controller.cpp\<close>): annotated objects by address, their edits with the \<^verbatim>\<open>dirty\<close>
  flag, and their form as JSON.  The JSON library is a parameter: a record of operations on an
  unknown type \<open>'j\<close> of values.  So are the comparison of two doubles (\<open>'d\<close>) and their conversion
  to integers.  The file system is a partial function from paths to contents.
\<close>

subsection \<open>Types\<close>

datatype RdbObjectType =
  RFunction | RVariable | RData | RTable | RString | RCode | RLabel | RUnknown

definition rdbObjectTypeToString :: "RdbObjectType \<Rightarrow> string" where
  "rdbObjectTypeToString t = (case t of
     RFunction \<Rightarrow> ''function'' | RVariable \<Rightarrow> ''variable'' | RData \<Rightarrow> ''data'' | RTable \<Rightarrow> ''table''
   | RString \<Rightarrow> ''string'' | RCode \<Rightarrow> ''code'' | RLabel \<Rightarrow> ''label'' | RUnknown \<Rightarrow> ''unknown'')"

definition lower_char :: "char \<Rightarrow> char" where
  "lower_char c = (if CHR ''A'' \<le> c \<and> c \<le> CHR ''Z'' then char_of (of_char c + 32 :: nat) else c)"

definition rdbObjectTypeFromString :: "string \<Rightarrow> RdbObjectType" where
  "rdbObjectTypeFromString str = (let lower = map lower_char str
     in if lower = ''function'' then RFunction
        else if lower = ''variable'' then RVariable
        else if lower = ''data'' then RData
        else if lower = ''table'' then RTable
        else if lower = ''string'' then RString
        else if lower = ''code'' then RCode
        else if lower = ''label'' then RLabel
        else RUnknown)"

datatype pv_kind = PV_String | PV_Integer | PV_Boolean | PV_Double

record 'd RdbPropertyValue =
  pv_type :: pv_kind
  stringValue :: string
  intValue :: "64 word"
  boolValue :: bool
  doubleValue :: 'd

definition RdbPropertyValue_new :: "'d::zero RdbPropertyValue" where
  "RdbPropertyValue_new = \<lparr>pv_type = PV_String, stringValue = '''', intValue = 0, boolValue = False,
     doubleValue = 0\<rparr>"

definition fromString :: "string \<Rightarrow> 'd::zero RdbPropertyValue" where
  "fromString v = RdbPropertyValue_new\<lparr>pv_type := PV_String, stringValue := v\<rparr>"

definition fromInt :: "64 word \<Rightarrow> 'd::zero RdbPropertyValue" where
  "fromInt v = RdbPropertyValue_new\<lparr>pv_type := PV_Integer, intValue := v\<rparr>"

definition fromBool :: "bool \<Rightarrow> 'd::zero RdbPropertyValue" where
  "fromBool v = RdbPropertyValue_new\<lparr>pv_type := PV_Boolean, boolValue := v\<rparr>"

definition fromDouble :: "'d \<Rightarrow> 'd::zero RdbPropertyValue" where
  "fromDouble v = RdbPropertyValue_new\<lparr>pv_type := PV_Double, doubleValue := v\<rparr>"

definition pv_eq :: "('d \<Rightarrow> 'd \<Rightarrow> bool) \<Rightarrow> 'd RdbPropertyValue \<Rightarrow> 'd RdbPropertyValue \<Rightarrow> bool" where
  "pv_eq deq v w = (pv_type v = pv_type w \<and> (case pv_type v of
     PV_String \<Rightarrow> stringValue v = stringValue w | PV_Integer \<Rightarrow> intValue v = intValue w
   | PV_Boolean \<Rightarrow> boolValue v = boolValue w | PV_Double \<Rightarrow> deq (doubleValue v) (doubleValue w)))"

record RdbRomIdentity =
  ri_file :: string
  ri_size :: "64 word"
  ri_sha256 :: string

definition RdbRomIdentity_new :: RdbRomIdentity where
  "RdbRomIdentity_new = \<lparr>ri_file = '''', ri_size = 0, ri_sha256 = ''''\<rparr>"

definition rom_eq :: "RdbRomIdentity \<Rightarrow> RdbRomIdentity \<Rightarrow> bool" where
  "rom_eq a b \<longleftrightarrow> ri_size a = ri_size b \<and> ri_sha256 a = ri_sha256 b"

definition isComplete :: "RdbRomIdentity \<Rightarrow> bool" where
  "isComplete r \<longleftrightarrow> ri_file r \<noteq> '''' \<and> 0 < ri_size r \<and> ri_sha256 r \<noteq> ''''"

record 'd RdbObject =
  ro_address :: u16
  ro_type :: RdbObjectType
  ro_name :: string
  ro_size :: u32
  ro_hasSize :: bool
  ro_comment :: string
  ro_properties :: "(string, 'd RdbPropertyValue) std_map"
  ro_links :: "u16 list"

definition RdbObject_new :: "'d RdbObject" where
  "RdbObject_new = \<lparr>ro_address = 0, ro_type = RUnknown, ro_name = '''', ro_size = 0, ro_hasSize = False,
     ro_comment = '''', ro_properties = [], ro_links = []\<rparr>"

definition obj_eq :: "('d \<Rightarrow> 'd \<Rightarrow> bool) \<Rightarrow> 'd RdbObject \<Rightarrow> 'd RdbObject \<Rightarrow> bool" where
  "obj_eq deq o1 o2 =
     (ro_address o1 = ro_address o2 \<and> ro_type o1 = ro_type o2 \<and> ro_name o1 = ro_name o2 \<and>
      ro_size o1 = ro_size o2 \<and> ro_hasSize o1 = ro_hasSize o2 \<and> ro_comment o1 = ro_comment o2 \<and>
      list_all2 (\<lambda>(k, v) (k', v'). k = k' \<and> pv_eq deq v v') (ro_properties o1) (ro_properties o2) \<and>
      length (ro_links o1) = length (ro_links o2) \<and> sort (ro_links o1) = sort (ro_links o2))"

subsection \<open>JSON\<close>

text \<open>
  What the library says of a value (the tests \<^verbatim>\<open>is_string\<close> and so on with the content), and how
  it makes one; an object keeps its members in a \<^verbatim>\<open>std::map\<close>.  Printing may throw, parsing
  may fail.
\<close>

datatype ('j, 'd) jview =
  J_null | J_string string | J_int int | J_bool bool | J_double 'd
| J_array "'j list" | J_object "(string, 'j) std_map"

record ('j, 'd) json_lib =
  jview :: "'j \<Rightarrow> ('j, 'd) jview"
  jmake :: "('j, 'd) jview \<Rightarrow> 'j"
  jdump :: "'j \<Rightarrow> string option"
  jparse :: "string \<Rightarrow> 'j option"

definition jget :: "('j, 'd) json_lib \<Rightarrow> string \<Rightarrow> 'j \<Rightarrow> ('j, 'd) jview option" where
  "jget J k j = (case jview J j of J_object m \<Rightarrow> map_option (jview J) (map_of m k) | _ \<Rightarrow> None)"

text \<open>Assignment to a member; a null value becomes an object first.\<close>

definition jset :: "('j, 'd) json_lib \<Rightarrow> string \<Rightarrow> 'j \<Rightarrow> 'j \<Rightarrow> 'j" where
  "jset J k v j = (case jview J j of
     J_object m \<Rightarrow> jmake J (J_object (map_put k v m)) | _ \<Rightarrow> jmake J (J_object [(k, v)]))"

definition addrToHex :: "u16 \<Rightarrow> string" where
  "addrToHex addr = ''0x'' @ fmt_hex addr 4"

definition hex_value :: "char \<Rightarrow> nat option" where
  "hex_value c =
     (let n = of_char c :: nat
      in if 48 \<le> n \<and> n \<le> 57 then Some (n - 48)
         else if 65 \<le> n \<and> n \<le> 70 then Some (n - 55)
         else if 97 \<le> n \<and> n \<le> 102 then Some (n - 87) else None)"

definition isxdigit :: "char \<Rightarrow> bool" where
  "isxdigit c \<longleftrightarrow> hex_value c \<noteq> None"

definition isspace :: "char \<Rightarrow> bool" where
  "isspace c \<longleftrightarrow> c = CHR 0x20 \<or> (CHR 0x09 \<le> c \<and> c \<le> CHR 0x0D)"

definition hex_number :: "string \<Rightarrow> nat" where
  "hex_number ds = fold (\<lambda>c n. 16 * n + the (hex_value c)) ds 0"

text \<open>
  \<^verbatim>\<open>sscanf\<close> with \<^verbatim>\<open>%x\<close>: blanks, a sign, \<^verbatim>\<open>0x\<close>, at least one digit.  A value that
  does not fit an \<^verbatim>\<open>unsigned int\<close> is not specified by the language; \<open>wide\<close> stands for what
  the library stores.
\<close>

definition sscanf_x :: "(int \<Rightarrow> u32) \<Rightarrow> string \<Rightarrow> u32 option" where
  "sscanf_x wide str =
     (let s = dropWhile isspace str;
          neg = (s \<noteq> [] \<and> hd s = CHR ''-'');
          s = (if s \<noteq> [] \<and> hd s \<in> {CHR ''-'', CHR ''+''} then tl s else s);
          s = (if 2 < length s \<and> s ! 0 = CHR ''0'' \<and> s ! 1 \<in> {CHR ''x'', CHR ''X''} \<and> isxdigit (s ! 2)
               then drop 2 s else s);
          ds = takeWhile isxdigit s; n = hex_number ds
      in if ds = [] then None
         else if n < 2 ^ 32 then Some (if neg then - word_of_nat n else word_of_nat n)
         else Some (wide (if neg then - int n else int n)))"

definition hexToAddr :: "(int \<Rightarrow> u32) \<Rightarrow> string \<Rightarrow> u16 option" where
  "hexToAddr wide s =
     (let str = (if 2 \<le> length s \<and> s ! 0 = CHR ''0'' \<and> s ! 1 \<in> {CHR ''x'', CHR ''X''} then drop 2 s else s)
      in case sscanf_x wide str of None \<Rightarrow> None
         | Some a \<Rightarrow> if 0xFFFF < a then None else Some (ucast a))"

definition normalizeObjectText :: "'d RdbObject \<Rightarrow> 'd RdbObject" where
  "normalizeObjectText obj =
     obj\<lparr>ro_comment := normalizeRdbText (ro_comment obj),
         ro_properties := map (\<lambda>(k, v). (k, if pv_type v = PV_String
            then v\<lparr>stringValue := normalizeRdbText (stringValue v)\<rparr> else v)) (ro_properties obj)\<rparr>"

definition propertyToJson :: "('j, 'd) json_lib \<Rightarrow> 'd RdbPropertyValue \<Rightarrow> 'j" where
  "propertyToJson J v = jmake J (case pv_type v of
     PV_String \<Rightarrow> J_string (normalizeRdbText (stringValue v))
   | PV_Integer \<Rightarrow> J_int (sint (intValue v))
   | PV_Boolean \<Rightarrow> J_bool (boolValue v)
   | PV_Double \<Rightarrow> J_double (doubleValue v))"

definition objectToJson :: "('j, 'd) json_lib \<Rightarrow> 'd RdbObject \<Rightarrow> 'j" where
  "objectToJson J obj =
     (let j = jmake J J_null;
          j = jset J ''address'' (jmake J (J_string (addrToHex (ro_address obj)))) j;
          j = jset J ''type'' (jmake J (J_string (rdbObjectTypeToString (ro_type obj)))) j;
          j = (if ro_name obj \<noteq> '''' then jset J ''name'' (jmake J (J_string (ro_name obj))) j else j);
          j = (if ro_hasSize obj then jset J ''size'' (jmake J (J_int (uint (ro_size obj)))) j else j);
          comment = normalizeRdbText (ro_comment obj);
          j = (if comment \<noteq> '''' then jset J ''comment'' (jmake J (J_string comment)) j else j);
          j = (if ro_properties obj \<noteq> []
               then jset J ''properties''
                 (fold (\<lambda>(k, v) props. jset J k (propertyToJson J v) props) (ro_properties obj) (jmake J (J_object []))) j
               else j);
          j = (if ro_links obj \<noteq> []
               then jset J ''links'' (jmake J (J_array (map (\<lambda>t. jmake J (J_string (addrToHex t))) (ro_links obj)))) j else j)
      in j)"

definition propertyFromJson :: "('j, 'd::zero) jview \<Rightarrow> 'd RdbPropertyValue" where
  "propertyFromJson val = (case val of
     J_string s \<Rightarrow> fromString (normalizeRdbText s) | J_bool b \<Rightarrow> fromBool b
   | J_int i \<Rightarrow> fromInt (word_of_int i) | J_double d \<Rightarrow> fromDouble d | _ \<Rightarrow> RdbPropertyValue_new)"

text \<open>A number read as an integer type; \<open>trunc\<close> converts a double.\<close>

definition json_int :: "('d \<Rightarrow> int) \<Rightarrow> ('j, 'd) jview \<Rightarrow> int option" where
  "json_int trunc j = (case j of J_int i \<Rightarrow> Some i | J_double d \<Rightarrow> Some (trunc d) | _ \<Rightarrow> None)"

definition read_links :: "('j, 'd) json_lib \<Rightarrow> (int \<Rightarrow> u32) \<Rightarrow> 'j list \<Rightarrow> u16 list" where
  "read_links J wide js = concat (map (\<lambda>j. case jview J j of J_string s \<Rightarrow>
     (case hexToAddr wide s of Some t \<Rightarrow> [t] | None \<Rightarrow> []) | _ \<Rightarrow> []) js)"

definition objectFromJson :: "('j, 'd::zero) json_lib \<Rightarrow> (int \<Rightarrow> u32) \<Rightarrow> ('d \<Rightarrow> int) \<Rightarrow> 'j \<Rightarrow> 'd RdbObject" where
  "objectFromJson J wide trunc j =
     (let obj = RdbObject_new;
          obj = (case jget J ''address'' j of Some (J_string s) \<Rightarrow>
                   (case hexToAddr wide s of Some a \<Rightarrow> obj\<lparr>ro_address := a\<rparr> | None \<Rightarrow> obj)
                 | _ \<Rightarrow> obj);
          obj = (case jget J ''type'' j of Some (J_string s) \<Rightarrow> obj\<lparr>ro_type := rdbObjectTypeFromString s\<rparr>
                 | _ \<Rightarrow> obj);
          obj = (case jget J ''name'' j of Some (J_string s) \<Rightarrow> obj\<lparr>ro_name := s\<rparr> | _ \<Rightarrow> obj);
          obj = (case jget J ''size'' j of Some v \<Rightarrow>
                   (case json_int trunc v of
                      Some i \<Rightarrow> obj\<lparr>ro_size := word_of_int i, ro_hasSize := True\<rparr> | None \<Rightarrow> obj)
                 | None \<Rightarrow> obj);
          obj = (case jget J ''comment'' j of Some (J_string s) \<Rightarrow> obj\<lparr>ro_comment := normalizeRdbText s\<rparr>
                 | _ \<Rightarrow> obj);
          obj = (case jget J ''properties'' j of Some (J_object m) \<Rightarrow>
                   obj\<lparr>ro_properties :=
                     fold (\<lambda>(k, v) ps. map_put k (propertyFromJson (jview J v)) ps) m (ro_properties obj)\<rparr>
                 | _ \<Rightarrow> obj);
          obj = (case jget J ''links'' j of Some (J_array js) \<Rightarrow>
                   obj\<lparr>ro_links := ro_links obj @ read_links J wide js\<rparr>
                 | _ \<Rightarrow> obj)
      in obj)"

subsection \<open>The database\<close>

record 'd rdb =
  db_path :: string
  platform :: string
  version :: u32
  romIdentity :: RdbRomIdentity
  loaded :: bool
  dirty :: bool
  fileExistsOnDisk :: bool
  objects :: "(u16, 'd RdbObject) std_map"

definition RdbController_new :: "'d rdb" where
  "RdbController_new = \<lparr>db_path = '''', platform = ''vector06c'', version = 1,
     romIdentity = RdbRomIdentity_new, loaded = False, dirty = False, fileExistsOnDisk = False,
     objects = []\<rparr>"

definition rdbToJson :: "('j, 'd) json_lib \<Rightarrow> 'd rdb \<Rightarrow> 'j" where
  "rdbToJson J impl =
     (let root = jmake J J_null;
          root = jset J ''format'' (jmake J (J_string ''rdb'')) root;
          root = jset J ''platform'' (jmake J (J_string (platform impl))) root;
          root = jset J ''version'' (jmake J (J_int (sint (version impl)))) root;
          root = (if isComplete (romIdentity impl)
                  then let rom = jmake J J_null;
                           rom = jset J ''file'' (jmake J (J_string (ri_file (romIdentity impl)))) rom;
                           rom = jset J ''size'' (jmake J (J_int (uint (ri_size (romIdentity impl))))) rom;
                           rom = jset J ''sha256'' (jmake J (J_string (ri_sha256 (romIdentity impl)))) rom
                       in jset J ''rom'' rom root
                  else root)
      in jset J ''objects'' (jmake J (J_array (map (\<lambda>(_, obj). objectToJson J obj) (objects impl)))) root)"

definition romFromJson :: "('j, 'd) json_lib \<Rightarrow> ('d \<Rightarrow> int) \<Rightarrow> 'j \<Rightarrow> RdbRomIdentity \<Rightarrow> RdbRomIdentity" where
  "romFromJson J trunc rom ri =
     (let ri = (case jget J ''file'' rom of Some (J_string s) \<Rightarrow> ri\<lparr>ri_file := s\<rparr> | _ \<Rightarrow> ri);
          ri = (case jget J ''size'' rom of Some v \<Rightarrow>
                  (case json_int trunc v of Some i \<Rightarrow> ri\<lparr>ri_size := word_of_int i\<rparr> | None \<Rightarrow> ri)
                | None \<Rightarrow> ri)
      in (case jget J ''sha256'' rom of Some (J_string s) \<Rightarrow> ri\<lparr>ri_sha256 := s\<rparr> | _ \<Rightarrow> ri))"

definition jmember :: "('j, 'd) json_lib \<Rightarrow> string \<Rightarrow> 'j \<Rightarrow> 'j option" where
  "jmember J k j = (case jview J j of J_object m \<Rightarrow> map_of m k | _ \<Rightarrow> None)"

definition rdbFromJson ::
  "('j, 'd::zero) json_lib \<Rightarrow> (int \<Rightarrow> u32) \<Rightarrow> ('d \<Rightarrow> int) \<Rightarrow> 'j \<Rightarrow> 'd rdb \<Rightarrow> bool \<times> 'd rdb" where
  "rdbFromJson J wide trunc root impl =
     (if jget J ''format'' root \<noteq> Some (J_string ''rdb'') then (False, impl)
      else let impl = (case jget J ''platform'' root of Some (J_string s) \<Rightarrow> impl\<lparr>platform := s\<rparr> | _ \<Rightarrow> impl);
               impl = (case jget J ''version'' root of Some v \<Rightarrow>
                         (case json_int trunc v of Some i \<Rightarrow> impl\<lparr>version := word_of_int i\<rparr> | None \<Rightarrow> impl)
                       | None \<Rightarrow> impl);
               impl = (case jmember J ''rom'' root of Some rom \<Rightarrow>
                         (case jview J rom of J_object _ \<Rightarrow>
                            impl\<lparr>romIdentity := romFromJson J trunc rom (romIdentity impl)\<rparr>
                          | _ \<Rightarrow> impl)
                       | None \<Rightarrow> impl);
               impl = impl\<lparr>objects := []\<rparr>;
               impl = (case jget J ''objects'' root of Some (J_array js) \<Rightarrow>
                         impl\<lparr>objects := fold (\<lambda>j os. let obj = objectFromJson J wide trunc j
                                                    in map_put (ro_address obj) obj os) js (objects impl)\<rparr>
                       | _ \<Rightarrow> impl)
           in (True, impl))"

subsection \<open>Loading and saving\<close>

type_synonym files = "string \<Rightarrow> string option"

definition load ::
  "('j, 'd::zero) json_lib \<Rightarrow> (int \<Rightarrow> u32) \<Rightarrow> ('d \<Rightarrow> int) \<Rightarrow> files \<Rightarrow> string \<Rightarrow> 'd rdb \<Rightarrow> bool \<times> 'd rdb" where
  "load J wide trunc fs path impl = (case fs path of
     None \<Rightarrow> (False, impl)
   | Some content \<Rightarrow>
       (case jparse J content of
          None \<Rightarrow> (False, impl\<lparr>objects := []\<rparr>)
        | Some root \<Rightarrow>
            (let impl = impl\<lparr>objects := []\<rparr>; (ok, impl) = rdbFromJson J wide trunc root impl
             in if ok
                then (True, impl\<lparr>db_path := path, loaded := True, dirty := False, fileExistsOnDisk := True\<rparr>)
                else (False, impl\<lparr>objects := []\<rparr>))))"

definition reload_db ::
  "('j, 'd::zero) json_lib \<Rightarrow> (int \<Rightarrow> u32) \<Rightarrow> ('d \<Rightarrow> int) \<Rightarrow> files \<Rightarrow> 'd rdb \<Rightarrow> bool \<times> 'd rdb" where
  "reload_db J wide trunc fs impl =
     (if db_path impl = '''' then (False, impl) else load J wide trunc fs (db_path impl) impl)"

text \<open>What the file system answers to the steps of an atomic save.\<close>

datatype save_io = Save_ok | Open_fails | Write_fails | Rename_fails

definition saveAs ::
  "('j, 'd) json_lib \<Rightarrow> save_io \<Rightarrow> string \<Rightarrow> 'd rdb \<times> files \<Rightarrow> bool \<times> 'd rdb \<times> files" where
  "saveAs J sio path st =
     (let (impl, fs) = st
      in if \<not> dirty impl \<and> fileExistsOnDisk impl \<and> path = db_path impl then (True, impl, fs)
         else let tmpPath = path @ ''.tmp''
           in (case sio of
                 Open_fails \<Rightarrow> (False, impl, fs)
               | _ \<Rightarrow>
                  (case jdump J (rdbToJson J impl) of
                     None \<Rightarrow> (False, impl, fs(tmpPath := None))
                   | Some t \<Rightarrow>
                      (if sio = Save_ok
                       then (True, impl\<lparr>db_path := path, dirty := False, fileExistsOnDisk := True\<rparr>,
                             fs(tmpPath := None, path := Some (t @ [LF])))
                       else (False, impl, fs(tmpPath := None))))))"

definition save ::
  "('j, 'd) json_lib \<Rightarrow> save_io \<Rightarrow> 'd rdb \<times> files \<Rightarrow> bool \<times> 'd rdb \<times> files" where
  "save J sio st =
     (if \<not> dirty (fst st) then (True, st)
      else if db_path (fst st) = '''' then (True, st)
      else saveAs J sio (db_path (fst st)) st)"

definition close_db :: "'d rdb \<Rightarrow> 'd rdb" where
  "close_db impl = impl\<lparr>db_path := '''', platform := ''vector06c'', version := 1,
     romIdentity := RdbRomIdentity_new, loaded := False, dirty := False, fileExistsOnDisk := False,
     objects := []\<rparr>"

definition matchesRom :: "RdbRomIdentity \<Rightarrow> 'd rdb \<Rightarrow> bool" where
  "matchesRom rom impl =
     (if \<not> loaded impl then False else if \<not> isComplete (romIdentity impl) then False
      else if \<not> isComplete rom then False else rom_eq (romIdentity impl) rom)"

definition setRomIdentity :: "RdbRomIdentity \<Rightarrow> 'd rdb \<Rightarrow> 'd rdb" where
  "setRomIdentity identity impl = impl\<lparr>romIdentity := identity\<rparr>"

definition initialize :: "string \<Rightarrow> RdbRomIdentity \<Rightarrow> string \<Rightarrow> 'd rdb \<Rightarrow> 'd rdb" where
  "initialize plat rom path impl =
     (close_db impl)\<lparr>platform := plat, romIdentity := rom, db_path := path, loaded := True\<rparr>"

subsection \<open>Objects\<close>

definition getObject :: "u16 \<Rightarrow> 'd rdb \<Rightarrow> 'd RdbObject option" where
  "getObject address impl = map_of (objects impl) address"

definition findObject :: "string \<Rightarrow> 'd rdb \<Rightarrow> 'd RdbObject option" where
  "findObject name impl = find (\<lambda>obj. ro_name obj = name) (map snd (objects impl))"

definition listObjects :: "'d rdb \<Rightarrow> 'd RdbObject list" where
  "listObjects impl = map snd (objects impl)"

definition objectCount :: "'d rdb \<Rightarrow> nat" where
  "objectCount impl = length (objects impl)"

definition put_object :: "u16 \<Rightarrow> 'd RdbObject \<Rightarrow> 'd rdb \<Rightarrow> 'd rdb" where
  "put_object a obj impl = impl\<lparr>objects := map_put a obj (objects impl), dirty := True\<rparr>"

definition addObject :: "'d RdbObject \<Rightarrow> 'd rdb \<Rightarrow> bool \<times> 'd rdb" where
  "addObject object impl = (case map_of (objects impl) (ro_address object) of
     Some _ \<Rightarrow> (False, impl)
   | None \<Rightarrow> (True, put_object (ro_address object) (normalizeObjectText object) impl))"

definition updateObject :: "('d \<Rightarrow> 'd \<Rightarrow> bool) \<Rightarrow> 'd RdbObject \<Rightarrow> 'd rdb \<Rightarrow> bool \<times> 'd rdb" where
  "updateObject deq object impl = (case map_of (objects impl) (ro_address object) of
     None \<Rightarrow> (False, impl)
   | Some old \<Rightarrow>
       (let stored = normalizeObjectText object
        in (True, if \<not> obj_eq deq old stored then put_object (ro_address object) stored impl else impl)))"

definition removeObject :: "u16 \<Rightarrow> 'd rdb \<Rightarrow> bool \<times> 'd rdb" where
  "removeObject address impl = (case map_of (objects impl) address of
     None \<Rightarrow> (False, impl)
   | Some _ \<Rightarrow> (True, impl\<lparr>objects := map_erase address (objects impl), dirty := True\<rparr>))"

definition setComment :: "u16 \<Rightarrow> string \<Rightarrow> 'd rdb \<Rightarrow> bool \<times> 'd rdb" where
  "setComment address comment impl = (case map_of (objects impl) address of
     None \<Rightarrow> (False, impl)
   | Some obj \<Rightarrow>
       (let normalized = normalizeRdbText comment
        in (True, if ro_comment obj \<noteq> normalized
                  then put_object address (obj\<lparr>ro_comment := normalized\<rparr>) impl else impl)))"

definition getComment :: "u16 \<Rightarrow> 'd rdb \<Rightarrow> string" where
  "getComment address impl = (case map_of (objects impl) address of
     None \<Rightarrow> '''' | Some obj \<Rightarrow> normalizeRdbText (ro_comment obj))"

definition setProperty ::
  "('d \<Rightarrow> 'd \<Rightarrow> bool) \<Rightarrow> u16 \<Rightarrow> string \<Rightarrow> 'd RdbPropertyValue \<Rightarrow> 'd rdb \<Rightarrow> bool \<times> 'd rdb" where
  "setProperty deq address name val impl = (case map_of (objects impl) address of
     None \<Rightarrow> (False, impl)
   | Some obj \<Rightarrow>
       (let storedValue = (if pv_type val = PV_String
              then val\<lparr>stringValue := normalizeRdbText (stringValue val)\<rparr> else val)
        in case map_of (ro_properties obj) name of
             Some old \<Rightarrow>
               if pv_eq deq old storedValue then (True, impl)
               else (True, put_object address
                      (obj\<lparr>ro_properties := map_put name storedValue (ro_properties obj)\<rparr>) impl)
           | None \<Rightarrow> (True, put_object address
                      (obj\<lparr>ro_properties := map_put name storedValue (ro_properties obj)\<rparr>) impl)))"

definition getProperty :: "u16 \<Rightarrow> string \<Rightarrow> 'd rdb \<Rightarrow> 'd RdbPropertyValue option" where
  "getProperty address name impl = (case map_of (objects impl) address of
     None \<Rightarrow> None | Some obj \<Rightarrow> map_of (ro_properties obj) name)"

definition removeProperty :: "u16 \<Rightarrow> string \<Rightarrow> 'd rdb \<Rightarrow> bool \<times> 'd rdb" where
  "removeProperty address name impl = (case map_of (objects impl) address of
     None \<Rightarrow> (False, impl)
   | Some obj \<Rightarrow>
       (case map_of (ro_properties obj) name of
          None \<Rightarrow> (False, impl)
        | Some _ \<Rightarrow> (True, put_object address
                      (obj\<lparr>ro_properties := map_erase name (ro_properties obj)\<rparr>) impl)))"

definition getLinks :: "u16 \<Rightarrow> 'd rdb \<Rightarrow> u16 list" where
  "getLinks address impl = (case map_of (objects impl) address of None \<Rightarrow> [] | Some obj \<Rightarrow> ro_links obj)"

definition addLink :: "u16 \<Rightarrow> u16 \<Rightarrow> 'd rdb \<Rightarrow> bool \<times> 'd rdb" where
  "addLink address targetAddress impl = (case map_of (objects impl) address of
     None \<Rightarrow> (False, impl)
   | Some obj \<Rightarrow>
       if targetAddress \<in> set (ro_links obj) then (True, impl)
       else (True, put_object address (obj\<lparr>ro_links := ro_links obj @ [targetAddress]\<rparr>) impl))"

definition removeLink :: "u16 \<Rightarrow> u16 \<Rightarrow> 'd rdb \<Rightarrow> bool \<times> 'd rdb" where
  "removeLink address targetAddress impl = (case map_of (objects impl) address of
     None \<Rightarrow> (False, impl)
   | Some obj \<Rightarrow>
       if targetAddress \<notin> set (ro_links obj) then (False, impl)
       else (True, put_object address (obj\<lparr>ro_links := remove1 targetAddress (ro_links obj)\<rparr>) impl))"

definition setLinks :: "u16 \<Rightarrow> u16 list \<Rightarrow> 'd rdb \<Rightarrow> bool \<times> 'd rdb" where
  "setLinks address links impl = (case map_of (objects impl) address of
     None \<Rightarrow> (False, impl)
   | Some obj \<Rightarrow>
       (let deduped = remdups_adj (sort links); current = sort (ro_links obj)
        in if current = deduped then (True, impl)
           else (True, put_object address (obj\<lparr>ro_links := deduped\<rparr>) impl)))"

definition hasLink :: "u16 \<Rightarrow> u16 \<Rightarrow> 'd rdb \<Rightarrow> bool" where
  "hasLink address targetAddress impl = (case map_of (objects impl) address of
     None \<Rightarrow> False | Some obj \<Rightarrow> targetAddress \<in> set (ro_links obj))"

subsection \<open>Addresses as text\<close>

lemma hex_value_hex_char: "d < 16 \<Longrightarrow> hex_value (hex_char d) = Some d"
proof -
  have "list_all (\<lambda>d. hex_value (hex_char d) = Some d) [0..<16]" by code_simp
  then show "d < 16 \<Longrightarrow> ?thesis" by (simp add: list_all_iff)
qed

lemma isxdigit_hex_char: "d < 16 \<Longrightarrow> isxdigit (hex_char d)"
  by (simp add: isxdigit_def hex_value_hex_char)

lemma hex_number_append: "hex_number (ds @ [c]) = 16 * hex_number ds + the (hex_value c)"
  by (simp add: hex_number_def)

lemma hex_digits_ok:
  "hex_number (hex_digits n) = n" "list_all isxdigit (hex_digits n)"
proof (induction n rule: hex_digits.induct)
  case (1 n)
  { case 1 show ?case
      using "1.IH"(1) by (subst hex_digits.simps) (auto simp: hex_number_append hex_value_hex_char hex_number_def) }
  { case 2 show ?case
      using "1.IH"(2) by (subst hex_digits.simps) (auto simp: isxdigit_hex_char) }
qed

lemma hex_number_pad: "hex_number (replicate k (CHR ''0'') @ ds) = hex_number ds"
proof -
  have "hex_value (CHR ''0'') = Some 0" by code_simp
  then have "fold (\<lambda>c n. 16 * n + the (hex_value c)) (replicate k (CHR ''0'')) 0 = 0" by (induction k) auto
  then show ?thesis by (simp add: hex_number_def)
qed

lemma fmt_hex_ok: "hex_number (fmt_hex v d) = unat v" "list_all isxdigit (fmt_hex v d)"
proof -
  have "isxdigit (CHR ''0'')" by code_simp
  then have "list_all isxdigit (replicate k (CHR ''0''))" for k by (induction k) auto
  then show "hex_number (fmt_hex v d) = unat v" "list_all isxdigit (fmt_hex v d)"
    by (simp_all add: fmt_hex_def zero_pad_def hex_number_pad hex_digits_ok)
qed

lemma isxdigit_not:
  "isxdigit c \<Longrightarrow> \<not> isspace c" "isxdigit c \<Longrightarrow> c \<noteq> CHR ''-''" "isxdigit c \<Longrightarrow> c \<noteq> CHR ''+''"
  "isxdigit c \<Longrightarrow> c \<noteq> CHR ''x''" "isxdigit c \<Longrightarrow> c \<noteq> CHR ''X''"
  by (auto simp: isxdigit_def hex_value_def isspace_def less_eq_char_def Let_def split: if_splits)

lemma sscanf_x_digits:
  assumes "list_all isxdigit ds" "ds \<noteq> []" "hex_number ds < 2 ^ 32"
  shows "sscanf_x wide ds = Some (word_of_nat (hex_number ds))"
proof -
  have hd: "isxdigit (hd ds)" using assms(1,2) by (cases ds) auto
  have "dropWhile isspace ds = ds"
    using hd isxdigit_not(1) by (simp add: dropWhile_eq_self_iff)
  moreover have "2 < length ds \<longrightarrow> ds ! Suc 0 \<noteq> CHR ''x'' \<and> ds ! Suc 0 \<noteq> CHR ''X''"
    using assms(1) isxdigit_not(4,5) [of "ds ! Suc 0"] by (auto simp: list_all_length)
  moreover have tw: "takeWhile isxdigit ds = ds" using assms(1) by (simp add: list_all_iff)
  ultimately show ?thesis
    using assms(2,3) isxdigit_not(2,3) [OF hd]
    by (auto simp: sscanf_x_def Let_def tw)
qed

lemma hexToAddr_addrToHex [simp]: "hexToAddr wide (addrToHex a) = Some a"
proof -
  have "sscanf_x wide (fmt_hex a 4) = Some (word_of_nat (unat a))"
    using sscanf_x_digits [OF fmt_hex_ok(2) fmt_hex_nonempty, of a 4 wide]
      less_trans [OF unat_u16_lt [of a], of "2 ^ 32"] by (simp add: fmt_hex_ok(1))
  moreover have "(word_of_nat (unat a) :: u32) = ucast a" by simp
  moreover have "\<not> 0xFFFF < (ucast a :: u32)"
  proof -
    have "unat a \<le> 65535" using unat_u16_lt [of a] by linarith
    then show ?thesis by (simp add: word_less_nat_alt)
  qed
  ultimately show ?thesis by (simp add: hexToAddr_def addrToHex_def Let_def)
qed

lemma type_round_trip [simp]: "rdbObjectTypeFromString (rdbObjectTypeToString t) = t"
proof -
  have "list_all (\<lambda>t. rdbObjectTypeFromString (rdbObjectTypeToString t) = t)
      [RFunction, RVariable, RData, RTable, RString, RCode, RLabel, RUnknown]" by code_simp
  then show ?thesis by (cases t) (simp_all only: list.pred_inject)
qed

subsection \<open>Objects as JSON\<close>

text \<open>The laws of the library: a value made from a view has that view, and text printed is parsed
  back, also with a line feed after it.\<close>

definition json_ok :: "('j, 'd) json_lib \<Rightarrow> bool" where
  "json_ok J \<longleftrightarrow> (\<forall>v. jview J (jmake J v) = v) \<and>
     (\<forall>j t. jdump J j = Some t \<longrightarrow> jparse J (t @ [LF]) = Some j)"

definition members :: "('j, 'd) json_lib \<Rightarrow> 'j \<Rightarrow> (string, 'j) std_map" where
  "members J j = (case jview J j of J_object m \<Rightarrow> m | _ \<Rightarrow> [])"

definition jvalid :: "('j, 'd) json_lib \<Rightarrow> 'j \<Rightarrow> bool" where
  "jvalid J j \<longleftrightarrow> map_ok (members J j)"

lemma json_view: "json_ok J \<Longrightarrow> jview J (jmake J v) = v"
  by (simp add: json_ok_def)

lemma jview_jset:
  assumes "json_ok J"
  shows "jview J (jset J k v j) = J_object (map_put k v (members J j))"
  by (simp add: jset_def members_def json_view [OF assms] split: jview.split)

lemma jget_members: "jget J k j = map_option (jview J) (map_of (members J j) k)"
  by (simp add: jget_def members_def split: jview.split)

lemma jset_simps:
  assumes "json_ok J"
  shows "jvalid J (jmake J J_null)" "jvalid J j \<Longrightarrow> jvalid J (jset J k v j)"
    "jvalid J j \<Longrightarrow> jget J k (jset J k' v j) = (if k = k' then Some (jview J v) else jget J k j)"
    "jvalid J j \<Longrightarrow> jmember J k (jset J k' v j) = (if k = k' then Some v else jmember J k j)"
    "jget J k (jmake J J_null) = None" "jmember J k (jmake J J_null) = None"
  by (simp_all add: jvalid_def jget_members jmember_def members_def jview_jset [OF assms]
      json_view [OF assms] map_put_ok map_put_find split: jview.split)

text \<open>Assignments under a condition.\<close>

lemma jset_if:
  assumes "json_ok J" "jvalid J j"
  shows "jvalid J (if b then jset J k' v j else j)"
    "jget J k (if b then jset J k' v j else j) = (if b \<and> k = k' then Some (jview J v) else jget J k j)"
    "jmember J k (if b then jset J k' v j else j) = (if b \<and> k = k' then Some v else jmember J k j)"
  using assms by (simp_all add: jset_simps)

lemma fold_put_same:
  assumes "map_ok es"
  shows "fold (\<lambda>(k, v) m. map_put k v m) es [] = es"
proof (rule std_map.entries_eqI)
  show "map_ok (fold (\<lambda>(k, v) m. map_put k v m) es [])" by (rule std_map.find_fold_put(2)) simp
  show "map_ok es" by (rule assms)
  have "distinct (map fst es)" by (rule std_map.entries_distinct [OF assms])
  moreover from this have "distinct (map fst (rev es))" by (simp add: rev_map [symmetric])
  ultimately have "map_of (rev es) = map_of es" by (metis map_of_inject_set set_rev)
  then show "map_of (fold (\<lambda>(k, v) m. map_put k v m) es []) k = map_of es k" for k
    using std_map.find_fold_put(1) [of "[]" es k] by (simp split: option.split)
qed

lemma map_ok_map: "map_ok (map (\<lambda>(k, v). (k, f v)) m) \<longleftrightarrow> map_ok m"
  by (simp add: map_ok_def split_def comp_def)

lemma fold_put_map:
  assumes "map_ok m"
  shows "fold (\<lambda>(k, v) ps. map_put k (f v) ps) m [] = map (\<lambda>(k, v). (k, f v)) m"
  using fold_put_same [of "map (\<lambda>(k, v). (k, f v)) m"] assms map_ok_map [of f m]
  by (simp add: fold_map comp_def split_def)

text \<open>What a saved object keeps: sanitized text, the active field of each property value, the size
  if it is known.\<close>

definition canon_pv :: "'d::zero RdbPropertyValue \<Rightarrow> 'd RdbPropertyValue" where
  "canon_pv v = (case pv_type v of
     PV_String \<Rightarrow> fromString (normalizeRdbText (stringValue v)) | PV_Integer \<Rightarrow> fromInt (intValue v)
   | PV_Boolean \<Rightarrow> fromBool (boolValue v) | PV_Double \<Rightarrow> fromDouble (doubleValue v))"

definition canon_obj :: "'d::zero RdbObject \<Rightarrow> 'd RdbObject" where
  "canon_obj obj = obj\<lparr>ro_size := if ro_hasSize obj then ro_size obj else 0,
     ro_comment := normalizeRdbText (ro_comment obj),
     ro_properties := map (\<lambda>(k, v). (k, canon_pv v)) (ro_properties obj)\<rparr>"

lemma property_round_trip: "json_ok J \<Longrightarrow> propertyFromJson (jview J (propertyToJson J v)) = canon_pv v"
  by (simp add: propertyToJson_def propertyFromJson_def canon_pv_def json_view split: pv_kind.split)

lemma read_links_map:
  "json_ok J \<Longrightarrow> read_links J wide (map (\<lambda>t. jmake J (J_string (addrToHex t))) ts) = ts"
  by (induction ts) (simp_all add: read_links_def json_view)

lemma properties_members:
  assumes "json_ok J" "map_ok ps"
  shows "jview J (fold (\<lambda>(k, v) props. jset J k (propertyToJson J v) props) ps (jmake J (J_object []))) =
    J_object (map (\<lambda>(k, v). (k, propertyToJson J v)) ps)"
proof -
  have "jview J (fold (\<lambda>(k, v) props. jset J k (propertyToJson J v) props) ps (jmake J (J_object m))) =
      J_object (fold (\<lambda>(k, v) m. map_put k (propertyToJson J v) m) ps m)" for m
  proof (induction ps arbitrary: m)
    case (Cons p ps)
    have "jset J k v (jmake J (J_object m)) = jmake J (J_object (map_put k v m))" for k v
      by (simp add: jset_def json_view [OF assms(1)])
    with Cons show ?case by (simp add: split_def)
  qed (simp add: json_view [OF assms(1)])
  then show ?thesis by (simp add: fold_put_map [OF assms(2)])
qed

text \<open>A member written only when it is not empty reads back all the same.\<close>

lemma optional_members:
  "ro_name obj = [] \<Longrightarrow> (case (if n \<noteq> [] then Some (J_string n) else None) of
     Some (J_string s) \<Rightarrow> obj\<lparr>ro_name := s\<rparr> | _ \<Rightarrow> obj) = obj\<lparr>ro_name := n\<rparr>"
  "ro_comment obj = [] \<Longrightarrow> (case (if n \<noteq> [] then Some (J_string n) else None) of
     Some (J_string s) \<Rightarrow> obj\<lparr>ro_comment := normalizeRdbText s\<rparr> | _ \<Rightarrow> obj) =
     obj\<lparr>ro_comment := normalizeRdbText n\<rparr>"
  "ro_properties obj = [] \<Longrightarrow> (case (if ps \<noteq> [] then Some (J_object (map g ps)) else None) of
     Some (J_object m) \<Rightarrow> obj\<lparr>ro_properties := fold f m (ro_properties obj)\<rparr> | _ \<Rightarrow> obj) =
     obj\<lparr>ro_properties := fold f (map g ps) []\<rparr>"
  "ro_links obj = [] \<Longrightarrow> (case (if ts \<noteq> [] then Some (J_array (map g' ts)) else None) of
     Some (J_array js) \<Rightarrow> obj\<lparr>ro_links := ro_links obj @ read_links J wide js\<rparr> | _ \<Rightarrow> obj) =
     obj\<lparr>ro_links := read_links J wide (map g' ts)\<rparr>"
  by (cases obj; simp add: read_links_def)+

text \<open>The members of the object are read back one by one.\<close>

lemma object_round_trip:
  assumes J: "json_ok J" and ps: "map_ok (ro_properties obj)"
  shows "objectFromJson J wide trunc (objectToJson J obj) = canon_obj obj"
proof -
  note sel = jset_simps [OF J] jset_if [OF J] json_view [OF J]
  let ?j = "objectToJson J obj"
  have get: "jget J ''address'' ?j = Some (J_string (addrToHex (ro_address obj)))"
    "jget J ''type'' ?j = Some (J_string (rdbObjectTypeToString (ro_type obj)))"
    "jget J ''name'' ?j = (if ro_name obj \<noteq> '''' then Some (J_string (ro_name obj)) else None)"
    "jget J ''size'' ?j = (if ro_hasSize obj then Some (J_int (uint (ro_size obj))) else None)"
    "jget J ''comment'' ?j = (if normalizeRdbText (ro_comment obj) \<noteq> ''''
       then Some (J_string (normalizeRdbText (ro_comment obj))) else None)"
    "jget J ''properties'' ?j = (if ro_properties obj \<noteq> []
       then Some (J_object (map (\<lambda>(k, v). (k, propertyToJson J v)) (ro_properties obj))) else None)"
    "jget J ''links'' ?j = (if ro_links obj \<noteq> []
       then Some (J_array (map (\<lambda>t. jmake J (J_string (addrToHex t))) (ro_links obj))) else None)"
    by (simp_all add: objectToJson_def Let_def sel properties_members [OF J ps])
  have props: "fold (\<lambda>(k, v) ps. map_put k (propertyFromJson (jview J v)) ps)
      (map (\<lambda>(k, v). (k, propertyToJson J v)) (ro_properties obj)) [] =
      map (\<lambda>(k, v). (k, canon_pv v)) (ro_properties obj)"
  proof -
    have m: "map_ok (map (\<lambda>(k, v). (k, propertyToJson J v)) (ro_properties obj))"
      by (simp only: map_ok_map ps)
    show ?thesis
      unfolding fold_put_map [OF m] by (simp add: property_round_trip [OF J] split_def comp_def)
  qed
  show ?thesis
    unfolding objectFromJson_def get Let_def
    by (simp add: optional_members [simplified] RdbObject_new_def json_int_def props
        read_links_map [OF J] canon_obj_def)
qed

subsection \<open>The database as JSON\<close>

text \<open>The invariant of a database: its maps are maps, each object is filed under its address and
  every comment is sanitized.\<close>

definition obj_ok :: "'d RdbObject \<Rightarrow> bool" where
  "obj_ok obj \<longleftrightarrow> map_ok (ro_properties obj) \<and> unbroken (ro_comment obj) \<and>
     (\<forall>(k, v) \<in> set (ro_properties obj). pv_type v = PV_String \<longrightarrow> unbroken (stringValue v))"

definition rdb_ok :: "'d rdb \<Rightarrow> bool" where
  "rdb_ok r \<longleftrightarrow> map_ok (objects r) \<and> (\<forall>(a, obj) \<in> set (objects r). ro_address obj = a \<and> obj_ok obj)"

lemma canon_address [simp]: "ro_address (canon_obj obj) = ro_address obj"
  by (simp add: canon_obj_def)

lemma objects_round_trip:
  assumes J: "json_ok J" and ok: "rdb_ok r"
  shows "fold (\<lambda>j os. let obj = objectFromJson J wide trunc j in map_put (ro_address obj) obj os)
      (map (\<lambda>(_, obj). objectToJson J obj) (objects r)) [] = map (\<lambda>(a, obj). (a, canon_obj obj)) (objects r)"
proof -
  have "fold (\<lambda>j os. let obj = objectFromJson J wide trunc j in map_put (ro_address obj) obj os)
      (map (\<lambda>(_, obj). objectToJson J obj) xs) m = fold (\<lambda>(a, obj) os. map_put a (canon_obj obj) os) xs m"
    if "\<forall>(a, obj) \<in> set xs. ro_address obj = a \<and> obj_ok obj" for xs m
    using that
    by (induction xs arbitrary: m) (auto simp: object_round_trip [OF J] obj_ok_def Let_def split_def)
  then show ?thesis using ok fold_put_map [of "objects r" canon_obj] by (simp add: rdb_ok_def)
qed

lemma rom_round_trip:
  assumes J: "json_ok J"
  shows "romFromJson J trunc (jset J ''sha256'' (jmake J (J_string (ri_sha256 ri)))
      (jset J ''size'' (jmake J (J_int (uint (ri_size ri))))
        (jset J ''file'' (jmake J (J_string (ri_file ri))) (jmake J J_null)))) ri' = ri"
  by (simp add: romFromJson_def Let_def jset_simps [OF J] json_view [OF J] json_int_def)

definition saved_form :: "'d::zero rdb \<Rightarrow> 'd rdb \<Rightarrow> 'd rdb" where
  "saved_form r r0 = r0\<lparr>platform := platform r, version := version r,
     romIdentity := (if isComplete (romIdentity r) then romIdentity r else romIdentity r0),
     objects := map (\<lambda>(a, obj). (a, canon_obj obj)) (objects r)\<rparr>"

lemma rdb_round_trip:
  assumes J: "json_ok J" and ok: "rdb_ok r"
  shows "rdbFromJson J wide trunc (rdbToJson J r) r0 = (True, saved_form r r0)"
proof -
  note sel = jset_simps [OF J] jset_if [OF J] json_view [OF J]
  let ?j = "rdbToJson J r"
  let ?rom = "jset J ''sha256'' (jmake J (J_string (ri_sha256 (romIdentity r))))
      (jset J ''size'' (jmake J (J_int (uint (ri_size (romIdentity r)))))
        (jset J ''file'' (jmake J (J_string (ri_file (romIdentity r)))) (jmake J J_null)))"
  have get: "jget J ''format'' ?j = Some (J_string ''rdb'')"
    "jget J ''platform'' ?j = Some (J_string (platform r))"
    "jget J ''version'' ?j = Some (J_int (sint (version r)))"
    "jmember J ''rom'' ?j = (if isComplete (romIdentity r) then Some ?rom else None)"
    "jget J ''objects'' ?j = Some (J_array (map (\<lambda>(_, obj). objectToJson J obj) (objects r)))"
    by (simp_all add: rdbToJson_def Let_def sel)
  have "\<exists>m. jview J ?rom = J_object m" by (simp add: jview_jset [OF J])
  then show ?thesis
    unfolding rdbFromJson_def get
    by (auto simp: Let_def json_int_def saved_form_def objects_round_trip [OF J ok, unfolded Let_def]
      rom_round_trip [OF J])
qed

subsection \<open>Edits\<close>

inductive rdb_edit :: "('d \<Rightarrow> 'd \<Rightarrow> bool) \<Rightarrow> 'd rdb \<Rightarrow> 'd rdb \<Rightarrow> bool" for deq where
  "map_ok (ro_properties obj) \<Longrightarrow> rdb_edit deq r (snd (addObject obj r))"
| "map_ok (ro_properties obj) \<Longrightarrow> rdb_edit deq r (snd (updateObject deq obj r))"
| "rdb_edit deq r (snd (removeObject a r))"
| "rdb_edit deq r (snd (setComment a t r))"
| "rdb_edit deq r (snd (setProperty deq a k v r))"
| "rdb_edit deq r (snd (removeProperty a k r))"
| "rdb_edit deq r (snd (addLink a b r))"
| "rdb_edit deq r (snd (removeLink a b r))"
| "rdb_edit deq r (snd (setLinks a ls r))"

lemma rdb_okD:
  assumes "rdb_ok r" "map_of (objects r) a = Some obj"
  shows "ro_address obj = a" "obj_ok obj"
  using assms by (auto simp: rdb_ok_def dest!: map_of_SomeD)

lemma put_object_ok:
  assumes ok: "rdb_ok r" and obj: "ro_address obj = a" "obj_ok obj"
  shows "rdb_ok (put_object a obj r)"
proof -
  have m: "map_ok (objects r)" using ok by (simp add: rdb_ok_def)
  have "ro_address o' = b \<and> obj_ok o'" if "(b, o') \<in> set (map_put a obj (objects r))" for b o'
    using std_map.entries_find [OF map_put_ok [OF m]] that map_put_find [OF m] obj rdb_okD [OF ok]
    by (metis option.inject)
  then show ?thesis using m by (auto simp: rdb_ok_def put_object_def map_put_ok)
qed

lemma erase_object_ok: "rdb_ok r \<Longrightarrow> rdb_ok (r\<lparr>objects := map_erase a (objects r), dirty := d\<rparr>)"
  by (auto simp: rdb_ok_def map_erase_ok) (auto simp: map_erase_def)

lemma normalized_ok:
  assumes "map_ok (ro_properties obj)"
  shows "obj_ok (normalizeObjectText obj)" "ro_address (normalizeObjectText obj) = ro_address obj"
proof -
  have "map_ok (map (\<lambda>(k, v). (k, if pv_type v = PV_String
      then v\<lparr>stringValue := normalizeRdbText (stringValue v)\<rparr> else v)) (ro_properties obj))"
    using assms by (simp only: map_ok_map)
  then show "obj_ok (normalizeObjectText obj)" "ro_address (normalizeObjectText obj) = ro_address obj"
    by (auto simp: obj_ok_def normalizeObjectText_def normalize_unbroken split: if_splits)
qed

lemma put_property_ok:
  assumes ok: "obj_ok obj" and v: "pv_type v = PV_String \<Longrightarrow> unbroken (stringValue v)"
  shows "obj_ok (obj\<lparr>ro_properties := map_put k v (ro_properties obj)\<rparr>)"
proof -
  have m: "map_ok (ro_properties obj)" using ok by (simp add: obj_ok_def)
  have "pv_type w = PV_String \<longrightarrow> unbroken (stringValue w)"
    if "(j, w) \<in> set (map_put k v (ro_properties obj))" for j w
    using std_map.entries_find [OF map_put_ok [OF m]] that map_put_find [OF m] v ok
    by (auto simp: obj_ok_def split: if_splits dest!: map_of_SomeD)
  then show ?thesis using ok by (auto simp: obj_ok_def map_put_ok)
qed

lemma erase_property_ok: "obj_ok obj \<Longrightarrow> obj_ok (obj\<lparr>ro_properties := map_erase k (ro_properties obj)\<rparr>)"
  by (auto simp: obj_ok_def map_erase_ok) (auto simp: map_erase_def)

lemma obj_ok_upd [simp]:
  "obj_ok (obj\<lparr>ro_links := ls\<rparr>) = obj_ok obj"
  "obj_ok obj \<Longrightarrow> obj_ok (obj\<lparr>ro_comment := normalizeRdbText t\<rparr>)"
  by (simp_all add: obj_ok_def normalize_unbroken)

lemma rdb_edit_ok:
  assumes "rdb_edit deq r r'" "rdb_ok r"
  shows "rdb_ok r' \<and> (r' = r \<or> dirty r')"
proof -
  note D = rdb_okD [OF assms(2)]
  note intros = assms(2) put_object_ok erase_object_ok put_property_ok erase_property_ok normalized_ok
  have d: "dirty (put_object a obj r)" for a obj by (simp add: put_object_def)
  show ?thesis
    using assms(1)
  proof cases
    case (1 obj) then show ?thesis by (auto simp: addObject_def d intros split: option.split)
  next
    case (2 obj) then show ?thesis by (auto simp: updateObject_def Let_def d intros split: option.split)
  next
    case (3 a) then show ?thesis by (auto simp: removeObject_def intros split: option.split)
  next
    case (4 a t) then show ?thesis
      by (auto simp: setComment_def Let_def d intro!: intros split: option.split dest: D)
  next
    case (5 a k v) then show ?thesis
      by (auto simp: setProperty_def Let_def d normalize_unbroken intro!: intros split: option.split dest: D)
  next
    case (6 a k) then show ?thesis
      by (auto simp: removeProperty_def d intro!: intros split: option.split dest: D)
  next
    case (7 a b) then show ?thesis by (auto simp: addLink_def d intro!: intros split: option.split dest: D)
  next
    case (8 a b) then show ?thesis by (auto simp: removeLink_def d intro!: intros split: option.split dest: D)
  next
    case (9 a ls) then show ?thesis
      by (auto simp: setLinks_def Let_def d intro!: intros split: option.split dest: D)
  qed
qed

subsection \<open>Properties of the database\<close>

text \<open>A JSON library in which values are trees and one of them, \<open>j0\<close>, can be printed.\<close>

datatype 'd jtree = JT (jt_view: "('d jtree, 'd) jview")

definition tree_lib :: "('d jtree, 'd) json_lib" where
  "tree_lib = \<lparr>jview = jt_view, jmake = JT, jdump = (\<lambda>_. None), jparse = (\<lambda>_. None)\<rparr>"

definition tree_printing :: "'d jtree \<Rightarrow> ('d jtree, 'd) json_lib" where
  "tree_printing j0 = tree_lib\<lparr>jdump := (\<lambda>j. if j = j0 then Some ''tree'' else None),
     jparse := (\<lambda>t. if t = ''tree'' @ [LF] then Some j0 else None)\<rparr>"

lemma tree_printing_ok: "json_ok (tree_printing j0)"
  by (simp add: json_ok_def tree_printing_def tree_lib_def)

text \<open>Building a value does not print it.\<close>

lemma rdbToJson_tree: "rdbToJson (tree_printing j0) r = rdbToJson tree_lib r"
proof -
  have mk: "jmake (tree_printing j0) = jmake tree_lib" by (simp add: tree_printing_def)
  have set: "jset (tree_printing j0) = jset tree_lib"
    by (intro ext) (simp add: jset_def tree_printing_def split: jview.split)
  have "propertyToJson (tree_printing j0) = propertyToJson tree_lib"
    by (intro ext) (simp add: propertyToJson_def mk)
  then have "objectToJson (tree_printing j0) = objectToJson tree_lib"
    by (intro ext) (simp only: objectToJson_def mk set)
  then show ?thesis by (simp only: rdbToJson_def mk set)
qed

definition sample_db :: "int rdb" where
  "sample_db = RdbController_new\<lparr>db_path := ''game.rdb'', loaded := True, dirty := True,
     objects := [(0x100, RdbObject_new\<lparr>ro_address := 0x100, ro_type := RFunction, ro_name := ''start'',
       ro_comment := ''entry''\<rparr>)]\<rparr>"

lemma sample_db_ok: "rdb_ok sample_db"
proof -
  have "unbroken ''entry''" by code_simp
  then show ?thesis by (simp add: rdb_ok_def obj_ok_def sample_db_def RdbObject_new_def map_ok_def)
qed



text \<open>C24: Edits: after any sequence of edits every map is in order, every object is filed under its
  address with sanitized text, and the database is marked dirty unless nothing changed.\<close>

theorem edits_mark_dirty:
  assumes "(rdb_edit deq)\<^sup>*\<^sup>* r r'" "rdb_ok r"
  shows "rdb_ok r' \<and> (r' = r \<or> dirty r')"
  using assms(1)
proof (induction rule: rtranclp_induct)
  case base then show ?case using assms(2) by simp
next
  case (step r1 r2)
  then show ?case using rdb_edit_ok [of deq r1 r2] by auto
qed

theorem edits_mark_dirty_witness:
  "rdb_ok (snd (addLink 0x100 0x200 sample_db)) \<and>
    (snd (addLink 0x100 0x200 sample_db) = sample_db \<or> dirty (snd (addLink 0x100 0x200 sample_db)))"
  by (rule edits_mark_dirty [OF r_into_rtranclp sample_db_ok]) (rule rdb_edit.intros)



text \<open>Setting the ROM identity does not mark the database dirty, so a save may skip it.\<close>

lemma rom_identity_not_saved:
  "\<not> dirty r \<Longrightarrow> save J sio (setRomIdentity i r, fs) = (True, setRomIdentity i r, fs)"
  by (simp add: save_def setRomIdentity_def)


end
