(* ===== verification/Symbols.thy ===== *)
theory Symbols
  imports Rdb
begin

text \<open>
  The symbol database of the debugger (\<^verbatim>\<open>symbol_database.h\<close>, \<^verbatim>\<open>symbol_database.cpp\<close>):
  symbols by address, the classification of memory into regions, cross-references found by scanning
  memory, and the call graph.  The function that reads a byte of memory is an argument.
\<close>

subsection \<open>Data\<close>

datatype SymbolType = Sym_Function | Sym_Label

record DebugSymbol =
  sy_address :: u16
  sy_name :: string
  sy_comment :: string
  sy_type :: SymbolType
  sy_sourceFile :: string
  sy_sourceLine :: u32
  sy_fromMap :: bool

datatype MemoryRegionType = Reg_Unknown | Reg_Code | Reg_Data

record MemoryRegion =
  mr_start :: u16
  mr_end :: u16
  mr_type :: MemoryRegionType
  mr_comment :: string

record XrefEntry =
  xr_from :: u16
  xr_to :: u16

record symdb =
  db_symbols :: "(u16, DebugSymbol) std_map"
  db_regions :: "MemoryRegion list"
  db_xrefs :: "XrefEntry list"
  db_callTargets :: "(u16, bool) std_map"
  xrefsDirty :: bool

definition SymbolDatabase_new :: symdb where
  "SymbolDatabase_new = \<lparr>db_symbols = [], db_regions = [], db_xrefs = [], db_callTargets = [], xrefsDirty = True\<rparr>"

definition invalidateXrefs :: "symdb \<Rightarrow> symdb" where
  "invalidateXrefs db = db\<lparr>xrefsDirty := True\<rparr>"

subsection \<open>Symbols\<close>

definition addSymbol :: "u16 \<Rightarrow> string \<Rightarrow> SymbolType \<Rightarrow> symdb \<Rightarrow> bool \<times> symdb" where
  "addSymbol addr name ty db =
     (if map_of (db_symbols db) addr \<noteq> None then (False, db)
      else let sy = \<lparr>sy_address = addr, sy_name = name, sy_comment = '''', sy_type = ty,
                      sy_sourceFile = '''', sy_sourceLine = 0, sy_fromMap = False\<rparr>
        in (True, invalidateXrefs (db\<lparr>db_symbols := map_put addr sy (db_symbols db)\<rparr>)))"

definition removeSymbol :: "u16 \<Rightarrow> symdb \<Rightarrow> bool \<times> symdb" where
  "removeSymbol addr db =
     (let removed = (map_of (db_symbols db) addr \<noteq> None);
          db = db\<lparr>db_symbols := map_erase addr (db_symbols db)\<rparr>
      in (removed, if removed then invalidateXrefs db else db))"

definition renameSymbol :: "u16 \<Rightarrow> string \<Rightarrow> symdb \<Rightarrow> bool \<times> symdb" where
  "renameSymbol addr newName db = (case map_of (db_symbols db) addr of
     None \<Rightarrow> (False, db)
   | Some sy \<Rightarrow> (True, db\<lparr>db_symbols := map_put addr (sy\<lparr>sy_name := newName\<rparr>) (db_symbols db)\<rparr>))"

definition setSymbolComment :: "u16 \<Rightarrow> string \<Rightarrow> symdb \<Rightarrow> bool \<times> symdb" where
  "setSymbolComment addr comment db = (case map_of (db_symbols db) addr of
     None \<Rightarrow> (False, db)
   | Some sy \<Rightarrow> (True,
       db\<lparr>db_symbols := map_put addr (sy\<lparr>sy_comment := normalizeRdbText comment\<rparr>) (db_symbols db)\<rparr>))"

definition findSymbol :: "u16 \<Rightarrow> symdb \<Rightarrow> DebugSymbol option" where
  "findSymbol addr db = map_of (db_symbols db) addr"

definition findSymbolByName :: "string \<Rightarrow> symdb \<Rightarrow> DebugSymbol option" where
  "findSymbolByName name db = find (\<lambda>sy. sy_name sy = name) (map snd (db_symbols db))"

definition allSymbols :: "symdb \<Rightarrow> DebugSymbol list" where
  "allSymbols db = map snd (db_symbols db)"

definition symbolCount :: "symdb \<Rightarrow> nat" where
  "symbolCount db = length (db_symbols db)"

definition autoName :: "u16 \<Rightarrow> string" where
  "autoName addr = ''sub_'' @ fmt_hex addr 4"

definition displayName :: "u16 \<Rightarrow> symdb \<Rightarrow> string" where
  "displayName addr db = (case findSymbol addr db of
     Some sy \<Rightarrow> sy_name sy
   | None \<Rightarrow> if map_of (db_callTargets db) addr \<noteq> None then autoName addr else '''')"

definition markCallTarget :: "u16 \<Rightarrow> symdb \<Rightarrow> symdb" where
  "markCallTarget addr db = db\<lparr>db_callTargets := map_put addr True (db_callTargets db)\<rparr>"

definition clearMapSymbols :: "symdb \<Rightarrow> symdb" where
  "clearMapSymbols db = db\<lparr>db_symbols := [e \<leftarrow> db_symbols db. \<not> sy_fromMap (snd e)]\<rparr>"

definition clear_symbols :: "symdb \<Rightarrow> symdb" where
  "clear_symbols db =
     db\<lparr>db_symbols := [], db_regions := [], db_xrefs := [], db_callTargets := [], xrefsDirty := True\<rparr>"

subsection \<open>Memory regions\<close>

text \<open>What remains of an existing region when a new one is entered.\<close>

definition cut_region :: "u16 \<Rightarrow> u16 \<Rightarrow> MemoryRegion \<Rightarrow> MemoryRegion list" where
  "cut_region start stop r =
     (if mr_end r < start \<or> stop < mr_start r then [r]
      else (if mr_start r < start then [r\<lparr>mr_end := start - 1\<rparr>] else []) @
           (if stop < mr_end r then [r\<lparr>mr_start := stop + 1\<rparr>] else []))"

definition setRegion :: "u16 \<Rightarrow> u16 \<Rightarrow> MemoryRegionType \<Rightarrow> symdb \<Rightarrow> bool \<times> symdb" where
  "setRegion start stop ty db =
     (if stop < start then (False, db)
      else let adjusted = concat (map (cut_region start stop) (db_regions db));
               newRegion = \<lparr>mr_start = start, mr_end = stop, mr_type = ty, mr_comment = ''''\<rparr>;
               adjusted = sort_key mr_start (adjusted @ [newRegion])
        in (True, invalidateXrefs (db\<lparr>db_regions := adjusted\<rparr>)))"

fun erase_region :: "u16 \<Rightarrow> MemoryRegion list \<Rightarrow> MemoryRegion list option" where
  "erase_region start [] = None"
| "erase_region start (r # rs) =
     (if mr_start r = start then Some rs else map_option ((#) r) (erase_region start rs))"

definition removeRegion :: "u16 \<Rightarrow> symdb \<Rightarrow> bool \<times> symdb" where
  "removeRegion start db = (case erase_region start (db_regions db) of
     None \<Rightarrow> (False, db) | Some rs \<Rightarrow> (True, invalidateXrefs (db\<lparr>db_regions := rs\<rparr>)))"

definition in_region :: "u16 \<Rightarrow> MemoryRegion \<Rightarrow> bool" where
  "in_region addr r \<longleftrightarrow> mr_start r \<le> addr \<and> addr \<le> mr_end r"

definition classify :: "u16 \<Rightarrow> symdb \<Rightarrow> MemoryRegionType" where
  "classify addr db = (case find (in_region addr) (db_regions db) of
     Some r \<Rightarrow> mr_type r | None \<Rightarrow> Reg_Unknown)"

definition allRegions :: "symdb \<Rightarrow> MemoryRegion list" where
  "allRegions db = db_regions db"

subsection \<open>Cross-references\<close>

definition isCallOpcode :: "u8 \<Rightarrow> bool" where
  "isCallOpcode opcode \<longleftrightarrow> opcode = 0xCD \<or> opcode = 0xC4 \<or> opcode = 0xCC \<or> opcode = 0xD4 \<or> opcode = 0xDC \<or>
     opcode = 0xE4 \<or> opcode = 0xEC \<or> opcode = 0xF4 \<or> opcode = 0xFC"

definition isJmpOpcode :: "u8 \<Rightarrow> bool" where
  "isJmpOpcode opcode \<longleftrightarrow> opcode = 0xC3 \<or> opcode = 0xC2 \<or> opcode = 0xCA \<or> opcode = 0xD2 \<or> opcode = 0xDA \<or>
     opcode = 0xE2 \<or> opcode = 0xEA \<or> opcode = 0xF2 \<or> opcode = 0xFA"

definition isRstOpcode :: "u8 \<Rightarrow> bool" where
  "isRstOpcode opcode \<longleftrightarrow> opcode = 0xC7 \<or> opcode = 0xCF \<or> opcode = 0xD7 \<or> opcode = 0xDF \<or> opcode = 0xE7 \<or>
     opcode = 0xEF \<or> opcode = 0xF7 \<or> opcode = 0xFF"

definition readWord :: "(u16 \<Rightarrow> u8) \<Rightarrow> u16 \<Rightarrow> u16" where
  "readWord readByte a = push_bit 8 (ucast (readByte (a + 1))) OR ucast (readByte a)"

text \<open>The variables of the scan: the references found, the call targets, the sources seen.\<close>

record scan =
  sc_xrefs :: "XrefEntry list"
  sc_targets :: "(u16, bool) std_map"
  seenFrom :: "u16 set"

definition record_xref :: "u16 \<Rightarrow> u16 \<Rightarrow> bool \<Rightarrow> scan \<Rightarrow> scan" where
  "record_xref src to isCall s =
     (let s = (if src \<in> seenFrom s then s
               else s\<lparr>seenFrom := insert src (seenFrom s),
                      sc_xrefs := sc_xrefs s @ [\<lparr>xr_from = src, xr_to = to\<rparr>]\<rparr>)
      in if isCall then s\<lparr>sc_targets := map_put to True (sc_targets s)\<rparr> else s)"

definition decodeAt :: "(u16 \<Rightarrow> u8) \<Rightarrow> u16 \<Rightarrow> u8 \<Rightarrow> u8 \<Rightarrow> scan \<Rightarrow> scan" where
  "decodeAt readByte addr opcode len s =
     (if isCallOpcode opcode \<and> len = 3 then record_xref addr (readWord readByte (addr + 1)) True s
      else if isJmpOpcode opcode \<and> len = 3 then record_xref addr (readWord readByte (addr + 1)) False s
      else if isRstOpcode opcode then record_xref addr (ucast (opcode AND 0x38)) True s
      else s)"

definition scan_ranges :: "MemoryRegion list \<Rightarrow> (u16 \<times> u16) list" where
  "scan_ranges rs =
     (let ranges = map (\<lambda>r. (mr_start r, mr_end r)) [r \<leftarrow> rs. mr_type r = Reg_Code]
      in if ranges = [] then [(0, 0xFFFF)] else ranges)"

text \<open>Pass 1 from one seed to the end of the range that contains it.\<close>

function walk :: "(u16 \<Rightarrow> u8) \<Rightarrow> u16 \<Rightarrow> u16 \<Rightarrow> scan \<Rightarrow> scan" where
  "walk readByte addr stop s =
     (if addr \<le> stop
      then let opcode = readByte addr; len = get_length opcode; len = (if len = 0 then 1 else len);
               s = decodeAt readByte addr opcode len s; next = addr + ucast len
           in if next \<le> addr then s else walk readByte next stop s
      else s)"
  by pat_completeness auto
termination
  by (relation "measure (\<lambda>(_, addr, _, _). 65536 - unat addr)")
    (auto simp: Let_def word_less_nat_alt not_le intro!: diff_less_mono2 less_trans [OF _ unat_u16_lt])

declare walk.simps [simp del]

definition scan_seeds :: "(u16 \<times> u16) list \<Rightarrow> (u16, DebugSymbol) std_map \<Rightarrow> u16 list" where
  "scan_seeds ranges syms = remdups_adj (sort (map fst ranges @ map fst syms))"

definition scan_seed :: "(u16 \<Rightarrow> u8) \<Rightarrow> (u16 \<times> u16) list \<Rightarrow> u16 \<Rightarrow> scan \<Rightarrow> scan" where
  "scan_seed readByte ranges seed s = (case find (\<lambda>r. fst r \<le> seed \<and> seed \<le> snd r) ranges of
     None \<Rightarrow> s | Some containing \<Rightarrow> walk readByte seed (snd containing) s)"

definition targetIsPlausible :: "(u16, DebugSymbol) std_map \<Rightarrow> MemoryRegion list \<Rightarrow> scan \<Rightarrow> u16 \<Rightarrow> bool" where
  "targetIsPlausible syms rs s target \<longleftrightarrow>
     map_of syms target \<noteq> None \<or> map_of (sc_targets s) target \<noteq> None \<or>
     (\<exists>r \<in> set rs. mr_type r = Reg_Code \<and> in_region target r)"

definition recover_at ::
  "(u16 \<Rightarrow> u8) \<Rightarrow> (u16, DebugSymbol) std_map \<Rightarrow> MemoryRegion list \<Rightarrow> u16 \<Rightarrow> scan \<Rightarrow> scan" where
  "recover_at readByte syms rs addr s =
     (if addr \<in> seenFrom s then s
      else let opcode = readByte addr
        in if isCallOpcode opcode
           then let target = readWord readByte (addr + 1)
                in if targetIsPlausible syms rs s target then record_xref addr target True s else s
           else if isRstOpcode opcode
           then let target = ucast (opcode AND 0x38)
                in if targetIsPlausible syms rs s target then record_xref addr target True s else s
           else s)"

definition rebuildXrefs :: "(u16 \<Rightarrow> u8) \<Rightarrow> symdb \<Rightarrow> symdb" where
  "rebuildXrefs readByte db =
     (let ranges = scan_ranges (db_regions db);
          haveCodeRegions = (\<exists>r \<in> set (db_regions db). mr_type r = Reg_Code);
          s = \<lparr>sc_xrefs = [], sc_targets = [], seenFrom = {}\<rparr>;
          s = fold (scan_seed readByte ranges) (scan_seeds ranges (db_symbols db)) s;
          s = (if haveCodeRegions \<or> db_symbols db \<noteq> []
               then fold (recover_at readByte (db_symbols db) (db_regions db)) (map word_of_nat [0..<65536]) s
               else s)
      in db\<lparr>db_xrefs := sc_xrefs s, db_callTargets := sc_targets s, xrefsDirty := False\<rparr>)"

definition xrefsTo :: "u16 \<Rightarrow> symdb \<Rightarrow> XrefEntry list" where
  "xrefsTo addr db = [x \<leftarrow> db_xrefs db. xr_to x = addr]"

definition xrefsFrom :: "u16 \<Rightarrow> symdb \<Rightarrow> XrefEntry list" where
  "xrefsFrom addr db = [x \<leftarrow> db_xrefs db. xr_from x = addr]"

definition callGraph :: "symdb \<Rightarrow> (u16 \<times> u16) list" where
  "callGraph db =
     map (\<lambda>x. (xr_from x, xr_to x)) [x \<leftarrow> db_xrefs db. map_of (db_callTargets db) (xr_to x) \<noteq> None]"

subsection \<open>Regions\<close>

definition meets :: "MemoryRegion \<Rightarrow> MemoryRegion \<Rightarrow> bool" where
  "meets r q \<longleftrightarrow> (\<exists>a. in_region a r \<and> in_region a q)"

definition nonempty :: "MemoryRegion \<Rightarrow> bool" where
  "nonempty r \<longleftrightarrow> mr_start r \<le> mr_end r"

text \<open>Regions that share no address; the order does not matter.\<close>

definition disjoint_regions :: "MemoryRegion list \<Rightarrow> bool" where
  "disjoint_regions rs \<longleftrightarrow> (\<forall>r \<in> set rs. nonempty r) \<and> sorted_wrt (\<lambda>r q. \<not> meets r q) rs"

definition regions_ok :: "MemoryRegion list \<Rightarrow> bool" where
  "regions_ok rs \<longleftrightarrow> disjoint_regions rs \<and> sorted (map mr_start rs)"

lemma meets_sym: "meets r q \<longleftrightarrow> meets q r"
  by (auto simp: meets_def)

lemma nonempty_meets: "nonempty r \<Longrightarrow> meets r r"
  by (auto simp: nonempty_def meets_def in_region_def intro: exI [of _ "mr_start r"])

lemma disjoint_regions_set:
  "disjoint_regions rs \<longleftrightarrow> distinct rs \<and> (\<forall>r \<in> set rs. nonempty r) \<and>
     (\<forall>r \<in> set rs. \<forall>q \<in> set rs. r \<noteq> q \<longrightarrow> \<not> meets r q)"
proof (induction rs)
  case (Cons r rs)
  then show ?case using nonempty_meets [of r] meets_sym by (auto simp: disjoint_regions_def)
qed (simp add: disjoint_regions_def)

lemma disjoint_sort: "disjoint_regions (sort_key f rs) = disjoint_regions rs"
  by (simp add: disjoint_regions_set)

lemma find_region:
  assumes "disjoint_regions rs" "r \<in> set rs" "in_region a r"
  shows "find (in_region a) rs = Some r"
  using assms by (induction rs) (auto simp: disjoint_regions_def meets_def)

text \<open>The address before and the address after, where there is one.\<close>

lemma unat_before: "(a :: u16) < x \<Longrightarrow> unat (x - 1) = unat x - 1"
  by (auto simp: word_less_nat_alt unat_sub_if')

lemma unat_after:
  assumes "(x :: u16) < a"
  shows "unat (x + 1) = unat x + 1"
proof -
  have "unat x + 1 < 65536" using assms unat_u16_lt [of a] unfolding word_less_nat_alt by linarith
  then show ?thesis by (simp add: unat_word_ariths)
qed

lemma le_before: "(a :: u16) < x \<Longrightarrow> b \<le> x - 1 \<longleftrightarrow> b < x"
  by (simp add: word_le_nat_alt unat_before) (auto simp: word_less_nat_alt)

lemma after_le: "(x :: u16) < a \<Longrightarrow> x + 1 \<le> b \<longleftrightarrow> x < b"
  by (simp add: word_le_nat_alt unat_after) (auto simp: word_less_nat_alt)

lemmas cut_simps = cut_region_def in_region_def nonempty_def not_le not_less le_before after_le

lemma cut_pieces:
  assumes "p \<in> set (cut_region s e r)" "nonempty r"
  shows "nonempty p" "mr_type p = mr_type r"
    "in_region a p \<Longrightarrow> in_region a r \<and> \<not> (s \<le> a \<and> a \<le> e)"
  using assms by (auto simp: cut_simps split: if_splits)

lemma cut_covers:
  assumes "in_region a r" "\<not> (s \<le> a \<and> a \<le> e)"
  shows "\<exists>p \<in> set (cut_region s e r). in_region a p"
proof -
  have r: "mr_start r \<le> a" "a \<le> mr_end r" using assms(1) by (simp_all add: in_region_def)
  consider (whole) "mr_end r < s \<or> e < mr_start r" | (before) "s \<le> mr_end r" "mr_start r \<le> e" "a < s"
    | (after) "s \<le> mr_end r" "mr_start r \<le> e" "e < a" using assms(2) by force
  then show ?thesis
  proof cases
    case whole
    with assms(1) show ?thesis by (simp add: cut_region_def)
  next
    case before
    then have "mr_start r < s" "a \<le> s - 1" using r le_before [OF before(3)] by simp_all
    then show ?thesis using before r by (auto simp: cut_region_def in_region_def not_less)
  next
    case after
    then have "e < mr_end r" "e + 1 \<le> a" using r after_le [OF after(3)] by simp_all
    then show ?thesis using after r by (auto simp: cut_region_def in_region_def not_less)
  qed
qed

lemma cut_disjoint:
  assumes "nonempty r" "s \<le> e"
  shows "disjoint_regions (cut_region s e r)"
  using cut_pieces(1) [of _ s e r] assms after_le [of e "mr_end r"] le_before [of "mr_start r" s]
  by (auto simp: disjoint_regions_def meets_def cut_region_def in_region_def)

lemma disjoint_append:
  "disjoint_regions (xs @ ys) \<longleftrightarrow> disjoint_regions xs \<and> disjoint_regions ys \<and>
     (\<forall>x \<in> set xs. \<forall>y \<in> set ys. \<not> meets x y)"
  by (auto simp: disjoint_regions_def sorted_wrt_append)

lemma cut_all_disjoint:
  assumes "disjoint_regions rs" "s \<le> e"
  shows "disjoint_regions (concat (map (cut_region s e) rs))"
  using assms(1)
proof (induction rs)
  case (Cons r rs)
  have ne: "nonempty r" "\<forall>q \<in> set rs. nonempty q" and m: "\<forall>q \<in> set rs. \<not> meets r q"
    using Cons.prems by (auto simp: disjoint_regions_def)
  have "\<not> meets x y" if "x \<in> set (cut_region s e r)" "q \<in> set rs" "y \<in> set (cut_region s e q)" for x y q
    using cut_pieces(3) [OF that(1) ne(1)] cut_pieces(3) [OF that(3)] ne(2) m that(2)
    unfolding meets_def by blast
  moreover have "disjoint_regions rs" using Cons.prems by (simp add: disjoint_regions_def)
  ultimately show ?case
    using Cons.IH cut_disjoint [OF ne(1) assms(2)] by (auto simp: disjoint_append)
qed (simp add: disjoint_regions_def)

lemma setRegion_regions:
  assumes "s \<le> e"
  shows "db_regions (snd (setRegion s e t db)) =
    sort_key mr_start (concat (map (cut_region s e) (db_regions db)) @
      [\<lparr>mr_start = s, mr_end = e, mr_type = t, mr_comment = ''''\<rparr>])"
  using assms by (simp add: setRegion_def Let_def invalidateXrefs_def not_less [symmetric])

lemma setRegion_disjoint:
  assumes "disjoint_regions (db_regions db)" "s \<le> e"
  shows "disjoint_regions (db_regions (snd (setRegion s e t db)))"
proof -
  let ?new = "\<lparr>mr_start = s, mr_end = e, mr_type = t, mr_comment = ''''\<rparr>"
  have "\<not> meets p ?new" if "r \<in> set (db_regions db)" "p \<in> set (cut_region s e r)" for r p
    using cut_pieces(3) [OF that(2)] assms(1) that(1)
    by (auto simp: meets_def in_region_def disjoint_regions_def)
  moreover have "disjoint_regions [?new]" using assms(2) by (simp add: disjoint_regions_def nonempty_def)
  ultimately show ?thesis
    using cut_all_disjoint [OF assms]
    by (auto simp: setRegion_regions [OF assms(2)] disjoint_sort disjoint_append)
qed

lemma classify_region:
  assumes "disjoint_regions (db_regions db)" "r \<in> set (db_regions db)" "in_region a r"
  shows "classify a db = mr_type r"
  using find_region [OF assms] by (simp add: classify_def)

lemma classify_none:
  "\<forall>r \<in> set (db_regions db). \<not> in_region a r \<Longrightarrow> classify a db = Reg_Unknown"
  by (auto simp: classify_def find_Some_iff dest: nth_mem split: option.split)

lemma setRegion_classify:
  assumes "disjoint_regions (db_regions db)" "s \<le> e"
  shows "classify a (snd (setRegion s e t db)) = (if s \<le> a \<and> a \<le> e then t else classify a db)"
proof (cases "s \<le> a \<and> a \<le> e")
  case True
  let ?new = "\<lparr>mr_start = s, mr_end = e, mr_type = t, mr_comment = ''''\<rparr>"
  have "?new \<in> set (db_regions (snd (setRegion s e t db)))" "in_region a ?new"
    using True by (simp_all add: setRegion_regions [OF assms(2)] in_region_def)
  from classify_region [OF setRegion_disjoint [OF assms] this] True show ?thesis by simp
next
  case False
  have set: "set (db_regions (snd (setRegion s e t db))) =
      insert \<lparr>mr_start = s, mr_end = e, mr_type = t, mr_comment = ''''\<rparr>
        (\<Union>r \<in> set (db_regions db). set (cut_region s e r))"
    by (simp add: setRegion_regions [OF assms(2)])
  show ?thesis
  proof (cases "\<exists>r \<in> set (db_regions db). in_region a r")
    case True
    then obtain r p where r: "r \<in> set (db_regions db)" "in_region a r"
      and p: "p \<in> set (cut_region s e r)" "in_region a p" using cut_covers False by meson
    have ne: "nonempty r" using assms(1) r(1) by (simp add: disjoint_regions_def)
    have "classify a (snd (setRegion s e t db)) = mr_type p"
      using p r(1) set by (intro classify_region [OF setRegion_disjoint [OF assms]]) auto
    then show ?thesis
      using classify_region [OF assms(1) r] cut_pieces(2) [OF p(1) ne] False by auto
  next
    case none: False
    have "\<not> in_region a p" if "p \<in> set (db_regions (snd (setRegion s e t db)))" for p
      using that none False cut_pieces(3) assms(1)
      unfolding set by (auto simp: in_region_def disjoint_regions_def)
    then show ?thesis using none False by (auto simp: classify_none)
  qed
qed

text \<open>C13: Memory classification: entering a region gives every address inside it the new
  classification and leaves every other address as it was, whatever regions overlapped it; the
  regions stay disjoint, nonempty and sorted.  A reversed range is refused and changes nothing.\<close>

theorem setRegion_updates_classification:
  assumes "regions_ok (db_regions db)"
  shows "regions_ok (db_regions (snd (setRegion s e t db))) \<and>
    fst (setRegion s e t db) = (s \<le> e) \<and>
    classify a (snd (setRegion s e t db)) = (if s \<le> a \<and> a \<le> e then t else classify a db)"
proof (cases "s \<le> e")
  case True
  have d: "disjoint_regions (db_regions db)" using assms by (simp add: regions_ok_def)
  have "sorted (map mr_start (db_regions (snd (setRegion s e t db))))"
    by (simp add: setRegion_regions [OF True])
  then show ?thesis
    using setRegion_disjoint [OF d True] setRegion_classify [OF d True] True
    by (simp add: regions_ok_def setRegion_def Let_def not_less [symmetric])
next
  case False
  then show ?thesis using assms by (auto simp: setRegion_def not_le)
qed

definition two_regions :: symdb where
  "two_regions = snd (setRegion 0x180 0x27F Reg_Data (snd (setRegion 0x100 0x1FF Reg_Code SymbolDatabase_new)))"

theorem setRegion_updates_classification_witness:
  "regions_ok (db_regions two_regions) \<and>
    fst (setRegion 0x180 0x27F Reg_Data (snd (setRegion 0x100 0x1FF Reg_Code SymbolDatabase_new))) = (0x180 \<le> (0x27F :: u16)) \<and>
    classify 0x17F two_regions =
      (if 0x180 \<le> (0x17F :: u16) \<and> (0x17F :: u16) \<le> 0x27F then Reg_Data
       else classify 0x17F (snd (setRegion 0x100 0x1FF Reg_Code SymbolDatabase_new)))"
  unfolding two_regions_def
  by (rule setRegion_updates_classification)
    (simp add: setRegion_def Let_def SymbolDatabase_new_def invalidateXrefs_def regions_ok_def
      disjoint_regions_def nonempty_def)

subsection \<open>References\<close>

text \<open>The instruction at \<open>a\<close> refers to \<open>b\<close>: a jump, a call or a restart that the instruction set
  knows.\<close>

definition refers :: "(u16 \<Rightarrow> u8) \<Rightarrow> u16 \<Rightarrow> u16 \<Rightarrow> bool" where
  "refers rd a b \<longleftrightarrow> \<not> undefined_opcode (rd a) \<and>
     (case instr_target (decode (rd a)) of
        Operand_target \<Rightarrow> b = mk16 (rd (a + 2)) (rd (a + 1)) | Fixed_target t \<Rightarrow> b = t | No_target \<Rightarrow> False)"

fun is_call :: "instr \<Rightarrow> bool" where
  "is_call I_CALL = True" | "is_call (I_CCC c) = True" | "is_call (I_RST a) = True" | "is_call _ = False"

definition opcode_ok :: "u8 \<Rightarrow> bool" where
  "opcode_ok op \<longleftrightarrow> (let i = decode op in
     if isCallOpcode op then \<not> undefined_opcode op \<and> instr_target i = Operand_target \<and> is_call i
     else if isJmpOpcode op then \<not> undefined_opcode op \<and> instr_target i = Operand_target \<and> \<not> is_call i
     else if isRstOpcode op
     then \<not> undefined_opcode op \<and> is_call i \<and> instr_target i = Fixed_target (ucast (op AND 0x38))
     else undefined_opcode op \<or> instr_target i = No_target)"

lemma opcodes_ok: "list_all opcode_ok all_opcodes"
  by code_simp

lemma opcode_ok: "opcode_ok op"
  using opcodes_ok unat_u8_lt [of op] by (auto simp: list_all_length dest!: spec [of _ "unat op"])

lemma length_operand:
  assumes "\<not> undefined_opcode op" "instr_target (decode op) = Operand_target"
  shows "get_length op = 3"
proof -
  obtain mnem fmt where "optable ! unat op = (mnem, fmt)" by fastforce
  from entry_defined(4) [OF assms(1) this] have "unat (get_length op) = 3"
    using assms(2) by (cases "decode op") (simp_all add: instr_size_def)
  then show ?thesis by (simp add: word_unat_eq_iff)
qed

lemma opcode_kinds:
  "isCallOpcode op \<Longrightarrow> \<not> undefined_opcode op \<and> instr_target (decode op) = Operand_target \<and>
     is_call (decode op) \<and> get_length op = 3"
  "\<not> isCallOpcode op \<Longrightarrow> isJmpOpcode op \<Longrightarrow> \<not> undefined_opcode op \<and>
     instr_target (decode op) = Operand_target \<and> \<not> is_call (decode op) \<and> get_length op = 3"
  "\<not> isCallOpcode op \<Longrightarrow> \<not> isJmpOpcode op \<Longrightarrow> isRstOpcode op \<Longrightarrow> \<not> undefined_opcode op \<and>
     is_call (decode op) \<and> instr_target (decode op) = Fixed_target (ucast (op AND 0x38))"
  "\<not> isCallOpcode op \<Longrightarrow> \<not> isJmpOpcode op \<Longrightarrow> \<not> isRstOpcode op \<Longrightarrow>
     undefined_opcode op \<or> instr_target (decode op) = No_target"
  using opcode_ok [of op] length_operand [of op] by (simp_all add: opcode_ok_def Let_def)

lemma readWord_operand: "readWord rd (a + 1) = mk16 (rd (a + 2)) (rd (a + 1))"
  by (simp add: readWord_def mk16_def add.assoc)

lemma refers_calls:
  "isCallOpcode (rd a) \<Longrightarrow> refers rd a (readWord rd (a + 1))"
  "\<not> isCallOpcode (rd a) \<Longrightarrow> isJmpOpcode (rd a) \<Longrightarrow> refers rd a (readWord rd (a + 1))"
  "\<not> isCallOpcode (rd a) \<Longrightarrow> \<not> isJmpOpcode (rd a) \<Longrightarrow> isRstOpcode (rd a) \<Longrightarrow>
     refers rd a (ucast (rd a AND 0x38))"
  using opcode_kinds [of "rd a"] by (simp_all add: refers_def readWord_operand)

lemma refers_unique: "refers rd a b \<Longrightarrow> refers rd a c \<Longrightarrow> b = c"
  by (auto simp: refers_def split: flow_target.splits)

text \<open>The invariant of the scan: one reference per source, each real, and the targets are those of
  the calls found.\<close>

definition scan_ok :: "(u16 \<Rightarrow> u8) \<Rightarrow> scan \<Rightarrow> bool" where
  "scan_ok rd s \<longleftrightarrow>
     seenFrom s = xr_from ` set (sc_xrefs s) \<and> distinct (map xr_from (sc_xrefs s)) \<and>
     (\<forall>x \<in> set (sc_xrefs s). refers rd (xr_from x) (xr_to x)) \<and> map_ok (sc_targets s) \<and>
     (\<forall>t. map_of (sc_targets s) t \<noteq> None \<longleftrightarrow>
        (\<exists>x \<in> set (sc_xrefs s). xr_to x = t \<and> is_call (decode (rd (xr_from x)))))"

lemma record_xref_ok:
  assumes ok: "scan_ok rd s" and ref: "refers rd a b" and call: "c = is_call (decode (rd a))"
  shows "scan_ok rd (record_xref a b c s) \<and> seenFrom (record_xref a b c s) = insert a (seenFrom s)"
proof (cases "a \<in> seenFrom s")
  case True
  then obtain x where x: "x \<in> set (sc_xrefs s)" "xr_from x = a" using ok by (auto simp: scan_ok_def)
  then have "xr_to x = b" using ok ref refers_unique by (auto simp: scan_ok_def)
  then have "c \<Longrightarrow> map_of (sc_targets s) b \<noteq> None" using ok x call by (auto simp: scan_ok_def)
  moreover have m: "map_ok (sc_targets s)" using ok by (simp add: scan_ok_def)
  ultimately show ?thesis
    using True ok by (auto simp: scan_ok_def record_xref_def Let_def map_put_ok map_put_find [OF m])
next
  case False
  have m: "map_ok (sc_targets s)" using ok by (simp add: scan_ok_def)
  show ?thesis
    using False ok ref call
    by (auto simp: scan_ok_def record_xref_def Let_def map_put_ok map_put_find [OF m])
qed

lemma decodeAt_ok:
  assumes ok: "scan_ok rd s"
  shows "scan_ok rd (decodeAt rd a (rd a) (get_length (rd a)) s)"
    "seenFrom (decodeAt rd a (rd a) (get_length (rd a)) s) =
      seenFrom s \<union> (if \<exists>b. refers rd a b then {a} else {})"
proof -
  note k = opcode_kinds [of "rd a"]
  consider (call) "isCallOpcode (rd a)" | (jmp) "isJmpOpcode (rd a)" "\<not> isCallOpcode (rd a)"
    | (rst) "isRstOpcode (rd a)" "\<not> isCallOpcode (rd a)" "\<not> isJmpOpcode (rd a)"
    | (none) "\<not> isCallOpcode (rd a)" "\<not> isJmpOpcode (rd a)" "\<not> isRstOpcode (rd a)" by blast
  then have "scan_ok rd (decodeAt rd a (rd a) (get_length (rd a)) s) \<and>
    seenFrom (decodeAt rd a (rd a) (get_length (rd a)) s) =
      seenFrom s \<union> (if \<exists>b. refers rd a b then {a} else {})"
  proof cases
    case call
    from record_xref_ok [OF ok refers_calls(1) [of rd a, OF call], of True] k(1) call refers_calls(1) [of rd a, OF call]
    show ?thesis by (auto simp: decodeAt_def)
  next
    case jmp
    from record_xref_ok [OF ok refers_calls(2) [of rd a, OF jmp(2,1)], of False] k(2) jmp refers_calls(2) [of rd a, OF jmp(2,1)]
    show ?thesis by (auto simp: decodeAt_def)
  next
    case rst
    from record_xref_ok [OF ok refers_calls(3) [of rd a, OF rst(2,3,1)], of True] k(3) rst refers_calls(3) [of rd a, OF rst(2,3,1)]
    show ?thesis by (auto simp: decodeAt_def)
  next
    case none
    with k(4) have "\<not> (\<exists>b. refers rd a b)" by (auto simp: refers_def)
    with none ok show ?thesis by (simp add: decodeAt_def)
  qed
  then show "scan_ok rd (decodeAt rd a (rd a) (get_length (rd a)) s)"
    "seenFrom (decodeAt rd a (rd a) (get_length (rd a)) s) =
      seenFrom s \<union> (if \<exists>b. refers rd a b then {a} else {})" by blast+
qed

text \<open>The addresses where an instruction begins when memory is read straight on from a seed.\<close>

inductive aligned :: "(u16 \<Rightarrow> u8) \<Rightarrow> u16 \<Rightarrow> u16 \<Rightarrow> u16 \<Rightarrow> bool" for rd stop where
  "a \<le> stop \<Longrightarrow> aligned rd stop a a"
| "a \<le> stop \<Longrightarrow> a < a + ucast (get_length (rd a)) \<Longrightarrow>
     aligned rd stop (a + ucast (get_length (rd a))) b \<Longrightarrow> aligned rd stop a b"

lemma aligned_unfold:
  "aligned rd stop a b \<longleftrightarrow> a \<le> stop \<and>
     (b = a \<or> a < a + ucast (get_length (rd a)) \<and> aligned rd stop (a + ucast (get_length (rd a))) b)"
  by (subst aligned.simps) (auto intro: aligned.intros)

lemma get_length_not_0: "get_length op \<noteq> 0"
  using unat_get_length [of op] by auto

lemma walk_ok:
  assumes "scan_ok rd s"
  shows "scan_ok rd (walk rd a stop s) \<and>
    seenFrom (walk rd a stop s) = seenFrom s \<union> {b. aligned rd stop a b \<and> (\<exists>c. refers rd b c)}"
  using assms
proof (induction rd a stop s rule: walk.induct)
  case (1 rd a stop s)
  let ?n = "a + ucast (get_length (rd a))"
  let ?s = "decodeAt rd a (rd a) (get_length (rd a)) s"
  note d = decodeAt_ok [OF "1.prems"]
  show ?case
  proof (cases "a \<le> stop")
    case False
    then show ?thesis
      using "1.prems" by (subst (1 2) walk.simps) (auto simp: aligned_unfold [of rd stop a])
  next
    case True
    have al: "aligned rd stop a b \<longleftrightarrow> b = a \<or> a < ?n \<and> aligned rd stop ?n b" for b
      using True by (subst aligned_unfold) simp
    show ?thesis
    proof (cases "?n \<le> a")
      case True': True
      have "walk rd a stop s = ?s"
        using True True' by (subst walk.simps) (simp add: Let_def get_length_not_0)
      then show ?thesis using d True' by (auto simp: al)
    next
      case False
      have w: "walk rd a stop s = walk rd ?n stop ?s"
        using True False by (subst walk.simps) (simp add: Let_def get_length_not_0)
      have "scan_ok rd (walk rd ?n stop ?s) \<and>
          seenFrom (walk rd ?n stop ?s) = seenFrom ?s \<union> {b. aligned rd stop ?n b \<and> (\<exists>c. refers rd b c)}"
        using "1.IH" [OF True refl refl refl _ refl] False d(1) by (simp add: get_length_not_0)
      then show ?thesis using d(2) False unfolding w by (auto simp: al not_le)
    qed
  qed
qed

lemma recover_at_ok:
  assumes ok: "scan_ok rd s"
  shows "scan_ok rd (recover_at rd sy rs a s) \<and> seenFrom s \<subseteq> seenFrom (recover_at rd sy rs a s)"
proof -
  note k = opcode_kinds [of "rd a"] and r = refers_calls [of rd a]
  have call: "isCallOpcode (rd a) \<Longrightarrow> scan_ok rd (record_xref a (readWord rd (a + 1)) True s) \<and>
      seenFrom s \<subseteq> seenFrom (record_xref a (readWord rd (a + 1)) True s)"
    using record_xref_ok [OF ok r(1), of True] k(1) by auto
  have jmp: "isRstOpcode (rd a) \<Longrightarrow> \<not> isJmpOpcode (rd a)"
    by (auto simp: isRstOpcode_def isJmpOpcode_def)
  have rst: "\<not> isCallOpcode (rd a) \<Longrightarrow> isRstOpcode (rd a) \<Longrightarrow>
      scan_ok rd (record_xref a (ucast (rd a AND 0x38)) True s) \<and>
      seenFrom s \<subseteq> seenFrom (record_xref a (ucast (rd a AND 0x38)) True s)"
    using record_xref_ok [OF ok r(3), of True] k(3) jmp by auto
  show ?thesis
    using ok call rst by (simp add: recover_at_def Let_def)
qed

text \<open>Folding steps that keep the invariant and only add sources.\<close>

lemma fold_scan_ok:
  assumes "scan_ok rd s"
    and "\<And>x s. scan_ok rd s \<Longrightarrow> scan_ok rd (f x s) \<and> seenFrom s \<union> g x \<subseteq> seenFrom (f x s)"
  shows "scan_ok rd (fold f xs s) \<and> seenFrom s \<union> (\<Union>x \<in> set xs. g x) \<subseteq> seenFrom (fold f xs s)"
  using assms(1)
proof (induction xs arbitrary: s)
  case (Cons x xs)
  from Cons.IH [of "f x s"] assms(2) [OF Cons.prems, of x] show ?case by auto
qed simp

definition xrefs_of :: "symdb \<Rightarrow> (u16 \<times> u16) set" where
  "xrefs_of db = (\<lambda>x. (xr_from x, xr_to x)) ` set (db_xrefs db)"

text \<open>The addresses the first pass reads as instructions.\<close>

definition scanned :: "(u16 \<Rightarrow> u8) \<Rightarrow> symdb \<Rightarrow> u16 set" where
  "scanned rd db = {b. \<exists>seed r. seed \<in> set (scan_seeds (scan_ranges (db_regions db)) (db_symbols db)) \<and>
     find (\<lambda>r. fst r \<le> seed \<and> seed \<le> snd r) (scan_ranges (db_regions db)) = Some r \<and>
     aligned rd (snd r) seed b}"

lemma rebuild_scan:
  obtains s where "scan_ok rd s" "{b. b \<in> scanned rd db \<and> (\<exists>c. refers rd b c)} \<subseteq> seenFrom s"
    "db_xrefs (rebuildXrefs rd db) = sc_xrefs s" "db_callTargets (rebuildXrefs rd db) = sc_targets s"
proof -
  let ?ranges = "scan_ranges (db_regions db)"
  let ?seeds = "scan_seeds ?ranges (db_symbols db)"
  let ?s0 = "\<lparr>sc_xrefs = [], sc_targets = [], seenFrom = {}\<rparr>"
  let ?s1 = "fold (scan_seed rd ?ranges) ?seeds ?s0"
  let ?f = "recover_at rd (db_symbols db) (db_regions db)" and ?as = "map word_of_nat [0..<65536] :: u16 list"
  let ?s2 = "if (\<exists>r \<in> set (db_regions db). mr_type r = Reg_Code) \<or> db_symbols db \<noteq> []
    then fold ?f ?as ?s1 else ?s1"
  define g where "g seed = {b. \<exists>r c. find (\<lambda>r. fst r \<le> seed \<and> seed \<le> snd r) ?ranges = Some r \<and>
     aligned rd (snd r) seed b \<and> refers rd b c}" for seed
  have ok0: "scan_ok rd ?s0" by (simp add: scan_ok_def)
  have 1: "scan_ok rd ?s1 \<and> seenFrom ?s0 \<union> (\<Union>x \<in> set ?seeds. g x) \<subseteq> seenFrom ?s1"
  proof (rule fold_scan_ok [OF ok0])
    fix x s assume "scan_ok rd s"
    from walk_ok [OF this] this
    show "scan_ok rd (scan_seed rd ?ranges x s) \<and> seenFrom s \<union> g x \<subseteq> seenFrom (scan_seed rd ?ranges x s)"
      by (fastforce simp: scan_seed_def g_def split: option.split)
  qed
  have "scan_ok rd (fold ?f ?as ?s1) \<and> seenFrom ?s1 \<union> (\<Union>x \<in> set ?as. {}) \<subseteq> seenFrom (fold ?f ?as ?s1)"
    using 1 recover_at_ok by (intro fold_scan_ok) (auto simp del: upt_rec_numeral)
  then have 2: "scan_ok rd ?s2 \<and> seenFrom ?s1 \<subseteq> seenFrom ?s2" using 1 by (simp only: split: if_split) blast
  have "{b. b \<in> scanned rd db \<and> (\<exists>c. refers rd b c)} \<subseteq> (\<Union>x \<in> set ?seeds. g x)"
    unfolding scanned_def g_def by blast
  with 1 2 have sub: "{b. b \<in> scanned rd db \<and> (\<exists>c. refers rd b c)} \<subseteq> seenFrom ?s2" by blast
  have upd: "db_xrefs (db\<lparr>db_xrefs := x, db_callTargets := t, xrefsDirty := d\<rparr>) = x"
    "db_callTargets (db\<lparr>db_xrefs := x, db_callTargets := t, xrefsDirty := d\<rparr>) = t" for x t d by simp_all
  have "db_xrefs (rebuildXrefs rd db) = sc_xrefs ?s2"
    "db_callTargets (rebuildXrefs rd db) = sc_targets ?s2"
    unfolding rebuildXrefs_def Let_def by (rule upd)+
  with 2 sub show thesis using that [of ?s2] by blast
qed



end
