(* ===== verification/Map_Loader.thy ===== *)
theory Map_Loader
  imports Symbols
begin

text \<open>
  Symbol maps of the z88dk linker (\<^verbatim>\<open>map_loader.h\<close>, \<^verbatim>\<open>map_loader.cpp\<close>) and their import
  into the ROM database and the symbol database (\<^verbatim>\<open>map_import.cpp\<close>).  Positions in a string
  are modelled by what follows them.  \<open>wide\<close> stands for what the library stores for a number that
  does not fit its type.
\<close>

subsection \<open>Strings\<close>

definition blank :: "char \<Rightarrow> bool" where
  "blank c \<longleftrightarrow> c = SPACE \<or> c = TAB \<or> c = CR \<or> c = LF"

definition trim :: "string \<Rightarrow> string" where
  "trim s = rev (dropWhile blank (rev (dropWhile blank s)))"

fun find_str :: "string \<Rightarrow> string \<Rightarrow> nat option" where
  "find_str needle [] = (if needle = [] then Some 0 else None)"
| "find_str needle (c # t) =
     (if take (length needle) (c # t) = needle then Some 0 else map_option Suc (find_str needle t))"

fun rfind_char :: "char \<Rightarrow> string \<Rightarrow> nat option" where
  "rfind_char c [] = None"
| "rfind_char c (d # t) = (case rfind_char c t of
     Some n \<Rightarrow> Some (Suc n) | None \<Rightarrow> if d = c then Some 0 else None)"

definition containsCI :: "string \<Rightarrow> string \<Rightarrow> bool" where
  "containsCI haystack needle = (find_str (map lower_char needle) (map lower_char haystack) \<noteq> None)"

text \<open>The pieces \<^verbatim>\<open>getline\<close> reads until the stream ends.\<close>

function getlines :: "char \<Rightarrow> string \<Rightarrow> string list" where
  "getlines d s =
     (if s = [] then []
      else takeWhile (\<lambda>c. c \<noteq> d) s # getlines d (tl (dropWhile (\<lambda>c. c \<noteq> d) s)))"
  by pat_completeness auto
termination
proof (relation "measure (\<lambda>(_, s). length s)")
  fix d and s :: string assume s: "s \<noteq> []"
  have "length (tl (dropWhile (\<lambda>c. c \<noteq> d) s)) \<le> length (dropWhile (\<lambda>c. c \<noteq> d) s) - 1" by simp
  then show "((d, tl (dropWhile (\<lambda>c. c \<noteq> d) s)), d, s) \<in> measure (\<lambda>(_, s). length s)"
    using s length_dropWhile_le [of "\<lambda>c. c \<noteq> d" s] by (cases s) auto
qed simp

declare getlines.simps [simp del]

subsection \<open>Parsing\<close>

datatype MapSymbolVisibility = Vis_Public | Vis_Local

record MapSymbol =
  ms_name :: string
  ms_address :: u16
  visibility :: MapSymbolVisibility
  isAddress :: bool
  ms_sourceFile :: string
  ms_sourceLine :: u32

record MapLoadResult =
  success :: bool
  errorMessage :: string
  ml_symbols :: "MapSymbol list"
  parsedCount :: nat
  skippedLines :: nat

definition MapLoadResult_new :: MapLoadResult where
  "MapLoadResult_new =
     \<lparr>success = False, errorMessage = '''', ml_symbols = [], parsedCount = 0, skippedLines = 0\<rparr>"

definition parseHexAddress :: "(int \<Rightarrow> u32) \<Rightarrow> string \<Rightarrow> u16 option" where
  "parseHexAddress wide s =
     (if s = [] \<or> hd s \<noteq> CHR ''$'' then None
      else let hex = tl s
        in if hex = [] then None
           else if \<not> list_all isxdigit hex then None
           else case sscanf_x wide hex of None \<Rightarrow> None
             | Some v \<Rightarrow> if 0xFFFF < v then None else Some (ucast v))"

definition isdigit :: "char \<Rightarrow> bool" where
  "isdigit c \<longleftrightarrow> CHR ''0'' \<le> c \<and> c \<le> CHR ''9''"

definition atoi :: "(int \<Rightarrow> u32) \<Rightarrow> string \<Rightarrow> u32" where
  "atoi wide ds = (let n = fold (\<lambda>c n. 10 * n + (of_char c - 48)) ds (0 :: nat)
     in if n < 2 ^ 31 then word_of_nat n else wide (int n))"

text \<open>A token that names a source location.\<close>

definition source_token :: "(int \<Rightarrow> u32) \<Rightarrow> string \<Rightarrow> (string \<times> u32) option" where
  "source_token wide token = (case rfind_char CHR '':'' token of
     None \<Rightarrow> None
   | Some lastColon \<Rightarrow>
       let lineStr = drop (lastColon + 1) token
       in if lineStr = [] \<or> \<not> list_all isdigit lineStr then None
          else Some (case find_str ''::'' token of
                 Some firstSep \<Rightarrow> take firstSep token | None \<Rightarrow> take lastColon token,
               atoi wide lineStr))"

function extractSourceLocation :: "(int \<Rightarrow> u32) \<Rightarrow> string \<Rightarrow> string \<times> u32" where
  "extractSourceLocation wide comment =
     (if comment = [] then ('''', 0)
      else let s = dropWhile (\<lambda>c. c = SPACE \<or> c = CHR '','' \<or> c = TAB) comment;
               token = trim (takeWhile (\<lambda>c. c \<noteq> CHR '','') s)
        in case source_token wide token of
             Some loc \<Rightarrow> loc
           | None \<Rightarrow> extractSourceLocation wide (dropWhile (\<lambda>c. c \<noteq> CHR '','') s))"
  by pat_completeness auto
termination
proof (relation "measure (\<lambda>(_, s). length s)")
  let ?skip = "\<lambda>c. c = SPACE \<or> c = CHR '','' \<or> c = TAB" and ?tok = "\<lambda>c. c \<noteq> CHR '',''"
  fix wide comment s token assume ne: "comment \<noteq> []" and s: "s = dropWhile ?skip comment"
  have "length (dropWhile ?tok s) < length comment"
  proof (cases "?skip (hd comment)")
    case True
    then have "length s < length comment"
      using ne length_dropWhile_le [of ?skip "tl comment"] by (cases comment) (auto simp: s le_imp_less_Suc)
    then show ?thesis using length_dropWhile_le [of ?tok s] by simp
  next
    case False
    then have "s = comment" "?tok (hd comment)" using ne by (cases comment; simp add: s)+
    then show ?thesis
      using ne length_dropWhile_le [of ?tok "tl comment"] by (cases comment) (auto simp: le_imp_less_Suc)
  qed
  then show "((wide, dropWhile ?tok s), wide, comment) \<in> measure (\<lambda>(_, s). length s)" by simp
qed simp

declare extractSourceLocation.simps [simp del]

definition validateZ88dkFormat :: "string \<Rightarrow> bool" where
  "validateZ88dkFormat content =
     (let trimmed = [t \<leftarrow> map trim (getlines LF content). t \<noteq> []];
          formatMatches = length [t \<leftarrow> trimmed. find_str ''= $'' t \<noteq> None \<or> find_str ''=$'' t \<noteq> None]
      in if formatMatches = 0 then False
         else if containsCI content ''[keyboard]'' \<or> containsCI content ''[mapping]'' \<or>
                 containsCI content ''[keys]'' then False
         else True)"

text \<open>The fields of the comment: is it an address, a constant, which visibility.\<close>

definition comment_field :: "string \<Rightarrow> bool \<times> bool \<times> MapSymbolVisibility \<Rightarrow> bool \<times> bool \<times> MapSymbolVisibility" where
  "comment_field field st =
     (let (isAddr, isConst, vis) = st; f = trim field
      in if f = ''addr'' then (True, isConst, vis)
         else if f = ''const'' then (isAddr, True, vis)
         else if f = ''public'' then (isAddr, isConst, Vis_Public)
         else if f = ''local'' then (isAddr, isConst, Vis_Local)
         else (isAddr, isConst, vis))"

definition parse_comment :: "string \<Rightarrow> bool \<times> bool \<times> MapSymbolVisibility" where
  "parse_comment comment = fold comment_field (getlines (CHR '','') comment) (False, False, Vis_Public)"

definition parseMapLine :: "(int \<Rightarrow> u32) \<Rightarrow> string \<Rightarrow> MapSymbol option" where
  "parseMapLine wide line =
     (let trimmed = trim line
      in if trimmed = [] \<or> hd trimmed = CHR '';'' then None
         else case (case find_str ''= $'' trimmed of
                      Some eqPos \<Rightarrow> Some (eqPos, eqPos + 2)
                    | None \<Rightarrow> map_option (\<lambda>eqPos. (eqPos, eqPos + 1)) (find_str ''=$'' trimmed)) of
             None \<Rightarrow> None
           | Some (eqPos, dollarPos) \<Rightarrow>
               let name = trim (take eqPos trimmed)
               in if name = [] then None
                  else let digits = takeWhile isxdigit (drop (dollarPos + 1) trimmed);
                           addrStr = trimmed ! dollarPos # digits
                    in case parseHexAddress wide addrStr of None \<Rightarrow> None
                       | Some address \<Rightarrow>
                           let rest = dropWhile (\<lambda>c. c \<noteq> CHR '';'') (drop (dollarPos + 1 + length digits) trimmed);
                               comment = trim (tl rest);
                               (isAddr, isConst, vis) = parse_comment comment
                           in if isConst then None
                              else let (sourceFile, sourceLine) = extractSourceLocation wide comment
                                in Some \<lparr>ms_name = name, ms_address = address, visibility = vis,
                                         isAddress = isAddr, ms_sourceFile = sourceFile,
                                         ms_sourceLine = sourceLine\<rparr>)"

definition parse_line_into :: "(int \<Rightarrow> u32) \<Rightarrow> string \<Rightarrow> MapLoadResult \<Rightarrow> MapLoadResult" where
  "parse_line_into wide line result =
     (let trimmed = trim line
      in if trimmed = [] \<or> hd trimmed = CHR '';'' then result
         else case parseMapLine wide trimmed of
             Some ms \<Rightarrow> result\<lparr>ml_symbols := ml_symbols result @ [ms], parsedCount := parsedCount result + 1\<rparr>
           | None \<Rightarrow> result\<lparr>skippedLines := skippedLines result + 1\<rparr>)"

definition parseMapContent :: "(int \<Rightarrow> u32) \<Rightarrow> string \<Rightarrow> MapLoadResult" where
  "parseMapContent wide content =
     (if \<not> validateZ88dkFormat content
      then MapLoadResult_new\<lparr>success := False,
             errorMessage := ''not a Z88DK MAP file (format validation failed)''\<rparr>
      else (fold (parse_line_into wide) (getlines LF content) MapLoadResult_new)\<lparr>success := True\<rparr>)"

definition loadMapFile :: "(int \<Rightarrow> u32) \<Rightarrow> files \<Rightarrow> string \<Rightarrow> MapLoadResult" where
  "loadMapFile wide fs path = (case fs path of
     None \<Rightarrow> MapLoadResult_new\<lparr>errorMessage := ''cannot open file: '' @ path\<rparr>
   | Some content \<Rightarrow>
       if content = [] then MapLoadResult_new\<lparr>errorMessage := ''empty MAP file''\<rparr>
       else parseMapContent wide content)"

definition mapPathFromRom :: "string \<Rightarrow> string" where
  "mapPathFromRom romPath = (case rfind_char CHR ''.'' romPath of
     None \<Rightarrow> romPath @ ''.map'' | Some dotPos \<Rightarrow> take dotPos romPath @ ''.map'')"

subsection \<open>Import\<close>

definition map_object :: "MapSymbol \<Rightarrow> 'd::zero RdbObject" where
  "map_object ms =
     (let ty = (if isAddress ms \<and> visibility ms = Vis_Public then RFunction else RLabel);
          obj = RdbObject_new\<lparr>ro_address := ms_address ms, ro_type := ty, ro_name := ms_name ms\<rparr>;
          obj = (if ms_sourceFile ms \<noteq> ''''
                 then obj\<lparr>ro_properties := map_put ''source_file'' (fromString (ms_sourceFile ms)) (ro_properties obj)\<rparr>
                 else obj)
      in if 0 <s ms_sourceLine ms
         then obj\<lparr>ro_properties := map_put ''source_line'' (fromInt (scast (ms_sourceLine ms))) (ro_properties obj)\<rparr>
         else obj)"

definition import_symbol :: "MapSymbol \<Rightarrow> nat \<times> 'd::zero rdb \<Rightarrow> nat \<times> 'd rdb" where
  "import_symbol ms st =
     (let (added, r) = st; (ok, r) = addObject (map_object ms) r in (if ok then added + 1 else added, r))"

definition importMapToRdb :: "MapLoadResult \<Rightarrow> 'd::zero rdb \<Rightarrow> nat \<times> 'd rdb" where
  "importMapToRdb mapResult r =
     (if \<not> success mapResult then (0, r) else fold import_symbol (ml_symbols mapResult) (0, r))"

definition sync_object :: "'d RdbObject \<Rightarrow> nat \<times> symdb \<Rightarrow> nat \<times> symdb" where
  "sync_object obj st =
     (let (added, db) = st
      in if findSymbol (ro_address obj) db \<noteq> None then (added, db)
         else let symType = (if ro_type obj = RFunction then Sym_Function else Sym_Label);
                  (ok, db) = addSymbol (ro_address obj) (ro_name obj) symType db
           in if \<not> ok then (added, db)
              else let db = (case findSymbol (ro_address obj) db of None \<Rightarrow> db
                     | Some p \<Rightarrow>
                         let p = p\<lparr>sy_fromMap := True\<rparr>;
                             p = (case map_of (ro_properties obj) ''source_file'' of
                                    Some v \<Rightarrow> if pv_type v = PV_String then p\<lparr>sy_sourceFile := stringValue v\<rparr> else p
                                  | None \<Rightarrow> p);
                             p = (case map_of (ro_properties obj) ''source_line'' of
                                    Some v \<Rightarrow> if pv_type v = PV_Integer then p\<lparr>sy_sourceLine := ucast (intValue v)\<rparr> else p
                                  | None \<Rightarrow> p)
                         in db\<lparr>db_symbols := map_put (ro_address obj) p (db_symbols db)\<rparr>);
                       db = (if ro_comment obj \<noteq> '''' then snd (setSymbolComment (ro_address obj) (ro_comment obj) db)
                             else db)
                in (added + 1, db))"

definition syncRdbToSymbolDatabase :: "'d rdb \<Rightarrow> symdb \<Rightarrow> nat \<times> symdb" where
  "syncRdbToSymbolDatabase r db = fold sync_object (listObjects r) (0, db)"

section \<open>Lines the linker writes\<close>

subsection \<open>Searching and splitting\<close>

lemma find_str_prefix:
  "n \<notin> set x \<Longrightarrow> find_str (n # ns) (x @ y) = map_option ((+) (length x)) (find_str (n # ns) y)"
proof (induction x)
  case Nil
  show ?case by (cases "find_str (n # ns) y") auto
next
  case (Cons a x)
  have "map_option (\<lambda>k. Suc (length x + k)) r = map_option ((+) (Suc (length x))) r" for r :: "nat option"
    by (cases r) auto
  then show ?case using Cons by (auto simp: option.map_comp comp_def)
qed

lemma find_str_absent: "n \<notin> set x \<Longrightarrow> find_str (n # ns) x = None"
  using find_str_prefix [of n x ns "[]"] by simp

lemma find_str_first: "n \<notin> set x \<Longrightarrow> find_str (n # ns) (x @ n # ns @ y) = Some (length x)"
  by (simp add: find_str_prefix)

lemma rfind_char_absent: "c \<notin> set x \<Longrightarrow> rfind_char c x = None"
  by (induction x) auto

lemma rfind_char_last: "c \<notin> set y \<Longrightarrow> rfind_char c (x @ c # y) = Some (length x)"
  by (induction x) (auto simp: rfind_char_absent)

lemma getlines_Nil [simp]: "getlines d [] = []" by (simp add: getlines.simps)

lemma getlines_last: "d \<notin> set x \<Longrightarrow> x \<noteq> [] \<Longrightarrow> getlines d x = [x]"
proof -
  assume x: "d \<notin> set x" "x \<noteq> []"
  have "takeWhile (\<lambda>c. c \<noteq> d) x = x" "dropWhile (\<lambda>c. c \<noteq> d) x = []"
    using x(1) by (auto simp: takeWhile_eq_all_conv dropWhile_eq_Nil_conv)
  then show ?thesis using x(2) getlines.simps [of d x] getlines_Nil by (metis list.sel(2))
qed

lemma getlines_piece: "d \<notin> set x \<Longrightarrow> getlines d (x @ d # y) = x # getlines d y"
proof -
  assume x: "d \<notin> set x"
  have "takeWhile (\<lambda>c. c \<noteq> d) (x @ d # y) = x" "dropWhile (\<lambda>c. c \<noteq> d) (x @ d # y) = d # y"
    using x by (auto simp: takeWhile_append dropWhile_append)
  then show ?thesis using getlines.simps [of d "x @ d # y"] by simp
qed

definition clean :: "string \<Rightarrow> bool" where
  "clean s \<longleftrightarrow> s \<noteq> [] \<and> \<not> blank (hd s) \<and> \<not> blank (List.last s)"

lemma trim_clean: "clean s \<Longrightarrow> trim s = s"
proof -
  assume s: "clean s"
  then have "dropWhile blank s = s" by (cases s) (auto simp: clean_def)
  moreover have "dropWhile blank (rev s) = rev s"
    using s by (cases "rev s") (auto simp: clean_def last_rev [of "rev s", simplified])
  ultimately show ?thesis by (simp add: trim_def)
qed

lemma trim_padded: "clean s \<Longrightarrow> trim (CHR 0x20 # s) = s" "clean s \<Longrightarrow> trim (s @ [CHR 0x20]) = s"
proof -
  show "clean s \<Longrightarrow> trim (CHR 0x20 # s) = s" using trim_clean [of s] by (simp add: trim_def blank_def)
  assume s: "clean s"
  then have "dropWhile blank (s @ [CHR 0x20]) = s @ [CHR 0x20]" by (cases s) (auto simp: clean_def)
  moreover have "dropWhile blank (rev s) = rev s"
    using s by (cases "rev s") (auto simp: clean_def last_rev [of "rev s", simplified])
  ultimately show "trim (s @ [CHR 0x20]) = s" by (simp add: trim_def blank_def)
qed

lemma set_trim: "set (trim s) \<subseteq> set s"
  by (auto simp: trim_def dest!: set_dropWhileD)

subsection \<open>Source locations\<close>

abbreviation lead :: "char \<Rightarrow> bool" where
  "lead c \<equiv> c = SPACE \<or> c = CHR '','' \<or> c = TAB"

lemma source_token_plain: "CHR '':'' \<notin> set t \<Longrightarrow> source_token wide (trim t) = None"
proof -
  assume "CHR '':'' \<notin> set t"
  then have "CHR '':'' \<notin> set (trim t)" using set_trim [of t] by blast
  then show ?thesis by (simp add: source_token_def rfind_char_absent)
qed

lemma extract_skip:
  assumes "list_all lead pre" "t \<noteq> []" "\<not> lead (hd t)" "CHR '','' \<notin> set t" "CHR '':'' \<notin> set t"
  shows "extractSourceLocation wide (pre @ t @ CHR '','' # rest) = extractSourceLocation wide (CHR '','' # rest)"
proof -
  have "dropWhile lead (pre @ t @ CHR '','' # rest) = t @ CHR '','' # rest"
    using assms(1-3) by (cases t) (auto simp: list_all_iff dropWhile_append)
  moreover have "takeWhile (\<lambda>c. c \<noteq> CHR '','') (t @ CHR '','' # rest) = t"
    and "dropWhile (\<lambda>c. c \<noteq> CHR '','') (t @ CHR '','' # rest) = CHR '','' # rest"
    using assms(4) by (auto simp: takeWhile_append dropWhile_append)
  ultimately show ?thesis
    using assms(2) source_token_plain [OF assms(5)]
    by (subst extractSourceLocation.simps) (simp add: Let_def)
qed

lemma extract_found:
  assumes "list_all lead pre" "clean t" "CHR '','' \<notin> set t" "source_token wide t = Some x"
  shows "extractSourceLocation wide (pre @ t) = x"
proof -
  have "\<not> lead (hd t)" using assms(2,3) by (cases t) (auto simp: clean_def blank_def)
  then have "dropWhile lead (pre @ t) = t"
    using assms(1,2) by (cases t) (auto simp: clean_def list_all_iff dropWhile_append)
  moreover have tw: "takeWhile (\<lambda>c. c \<noteq> CHR '','') t = t" using assms(3) by (auto simp: takeWhile_eq_all_conv)
  ultimately show ?thesis
    using assms(2,4) trim_clean [OF assms(2)]
    by (subst extractSourceLocation.simps) (simp add: Let_def clean_def tw)
qed

definition dec_char :: "nat \<Rightarrow> char" where
  "dec_char d = char_of (48 + d)"

fun dec :: "nat \<Rightarrow> string" where
  "dec n = (if n < 10 then [dec_char n] else dec (n div 10) @ [dec_char (n mod 10)])"

declare dec.simps [simp del]

lemma dec_char_ok:
  assumes "d < 10"
  shows "isdigit (dec_char d)" "(of_char (dec_char d) :: nat) - 48 = d"
proof -
  have "list_all (\<lambda>d. isdigit (dec_char d) \<and> (of_char (dec_char d) :: nat) - 48 = d) [0..<10]" by code_simp
  then show "isdigit (dec_char d)" "(of_char (dec_char d) :: nat) - 48 = d"
    using assms by (auto simp: list_all_iff)
qed

lemma dec_ok:
  "list_all isdigit (dec n)" "dec n \<noteq> []"
  "fold (\<lambda>c n. 10 * n + (of_char c - 48)) (dec n) (0 :: nat) = n"
proof (induction n rule: dec.induct)
  case (1 n)
  { case 1 show ?case using "1.IH"(1) by (subst dec.simps) (simp add: dec_char_ok) }
  { case 2 show ?case by (subst dec.simps) simp }
  { case 3 show ?case using "1.IH"(3) by (subst dec.simps) (simp add: dec_char_ok) }
qed

lemma atoi_dec: "n < 2 ^ 31 \<Longrightarrow> atoi wide (dec n) = word_of_nat n"
  by (simp add: atoi_def dec_ok(3))

lemma isdigit_not:
  assumes "isdigit c"
  shows "c \<noteq> CHR '':''" "c \<noteq> CHR '',''" "c \<noteq> LF" "\<not> blank c" "c \<noteq> CHR ''[''"
proof -
  have "\<not> isdigit (CHR '':'')" "\<not> isdigit (CHR '','')" "\<not> isdigit LF" "\<not> isdigit (CHR ''['')"
    "\<not> isdigit SPACE" "\<not> isdigit TAB" "\<not> isdigit CR"
    by code_simp+
  then show "c \<noteq> CHR '':''" "c \<noteq> CHR '',''" "c \<noteq> LF" "\<not> blank c" "c \<noteq> CHR ''[''"
    using assms unfolding blank_def by metis+
qed

lemma dec_not: "c \<in> {CHR '':'', CHR '','', LF, CHR ''[''} \<Longrightarrow> c \<notin> set (dec n)"
  using dec_ok(1) [of n] isdigit_not [of c] by (auto simp: list_all_iff)

subsection \<open>A printed line\<close>

definition visibility_text :: "MapSymbolVisibility \<Rightarrow> string" where
  "visibility_text v = (case v of Vis_Public \<Rightarrow> ''public'' | Vis_Local \<Rightarrow> ''local'')"

definition location_text :: "MapSymbol \<Rightarrow> string \<Rightarrow> string" where
  "location_text ms scope = ms_sourceFile ms @ (if scope = '''' then '''' else ''::'' @ scope) @
     CHR '':'' # dec (unat (ms_sourceLine ms))"

definition kind_text :: "bool \<Rightarrow> MapSymbol \<Rightarrow> string" where
  "kind_text const ms = (if const then ''const'' else if isAddress ms then ''addr'' else ''def'')"

definition comment_text :: "bool \<Rightarrow> MapSymbol \<Rightarrow> string \<Rightarrow> string" where
  "comment_text const ms scope = kind_text const ms @ '', '' @
     visibility_text (visibility ms) @ '', '' @ location_text ms scope"

definition map_line :: "bool \<Rightarrow> MapSymbol \<Rightarrow> string \<Rightarrow> string" where
  "map_line const ms scope = ms_name ms @ '' = $'' @ fmt_hex (ms_address ms) 4 @ '' ; '' @ comment_text const ms scope"

definition line_ok :: "MapSymbol \<Rightarrow> string \<Rightarrow> bool" where
  "line_ok ms scope \<longleftrightarrow> clean (ms_name ms) \<and> hd (ms_name ms) \<noteq> CHR '';'' \<and>
     ms_sourceFile ms \<noteq> [] \<and> \<not> blank (hd (ms_sourceFile ms)) \<and> unat (ms_sourceLine ms) < 2 ^ 31 \<and>
     CHR ''='' \<notin> set (ms_name ms) \<and> LF \<notin> set (ms_name ms) \<and>
     CHR '','' \<notin> set (ms_sourceFile ms) \<and> CHR '':'' \<notin> set (ms_sourceFile ms) \<and> LF \<notin> set (ms_sourceFile ms) \<and>
     CHR '','' \<notin> set scope \<and> LF \<notin> set scope"

lemma line_okD:
  assumes "line_ok ms scope"
  shows "clean (ms_name ms)" "hd (ms_name ms) \<noteq> CHR '';''" "ms_sourceFile ms \<noteq> []"
    "\<not> blank (hd (ms_sourceFile ms))" "unat (ms_sourceLine ms) < 2 ^ 31"
    "CHR ''='' \<notin> set (ms_name ms)" "LF \<notin> set (ms_name ms)"
    "CHR '','' \<notin> set (ms_sourceFile ms)" "CHR '':'' \<notin> set (ms_sourceFile ms)" "LF \<notin> set (ms_sourceFile ms)"
    "CHR '','' \<notin> set scope" "LF \<notin> set scope"
  using assms unfolding line_ok_def by blast+

lemma location_ok:
  assumes "line_ok ms scope"
  shows "clean (location_text ms scope)" "CHR '','' \<notin> set (location_text ms scope)"
    "LF \<notin> set (location_text ms scope)" "CHR '':'' \<in> set (location_text ms scope)"
proof -
  have "\<not> blank (List.last (dec (unat (ms_sourceLine ms))))"
    using dec_ok(1,2) [of "unat (ms_sourceLine ms)"] isdigit_not(4) by (auto simp: list_all_iff)
  then show "clean (location_text ms scope)"
    using line_okD [OF assms] dec_ok(2) by (simp add: clean_def location_text_def)
  show "CHR '','' \<notin> set (location_text ms scope)" "LF \<notin> set (location_text ms scope)"
    "CHR '':'' \<in> set (location_text ms scope)"
    using line_okD [OF assms] dec_not [of "CHR '',''"] dec_not [of LF] by (simp_all add: location_text_def)
qed

lemma location_parsed:
  assumes ok: "line_ok ms scope"
  shows "source_token wide (location_text ms scope) = Some (ms_sourceFile ms, ms_sourceLine ms)"
proof -
  let ?ds = "dec (unat (ms_sourceLine ms))" and ?f = "ms_sourceFile ms"
  let ?pre = "?f @ (if scope = '''' then '''' else ''::'' @ scope)"
  have loc: "location_text ms scope = ?pre @ CHR '':'' # ?ds" by (simp add: location_text_def)
  have f: "CHR '':'' \<notin> set ?f" by (rule line_okD(9) [OF ok])
  have ds: "CHR '':'' \<notin> set ?ds" by (simp add: dec_not)
  have r: "rfind_char (CHR '':'') (location_text ms scope) = Some (length ?pre)"
    using rfind_char_last [OF ds] by (simp only: loc)
  have d: "drop (length ?pre + 1) (location_text ms scope) = ?ds" by (simp add: loc)
  have n: "find_str ''::'' (CHR '':'' # ?ds) = None"
    using ds dec_ok(2) by (cases ?ds) (auto simp: find_str_absent)
  have "(case find_str ''::'' (location_text ms scope) of Some firstSep \<Rightarrow> take firstSep (location_text ms scope)
      | None \<Rightarrow> take (length ?pre) (location_text ms scope)) = ?f"
  proof (cases "scope = ''''")
    case True
    then have pre: "?pre = ?f" by simp
    then have l: "location_text ms scope = ?f @ CHR '':'' # ?ds" using loc by simp
    then have "find_str ''::'' (location_text ms scope) = None"
      by (simp only: find_str_prefix [OF f] n option.map)
    then show ?thesis unfolding pre by (simp add: l)
  next
    case False
    then have "find_str ''::'' (location_text ms scope) = Some (length ?f)"
      using find_str_first [OF f, of "'':''" "scope @ CHR '':'' # ?ds"] by (simp add: loc)
    then show ?thesis by (simp add: loc)
  qed
  moreover have "atoi wide ?ds = ms_sourceLine ms" using line_okD(5) [OF ok] by (simp add: atoi_dec)
  ultimately show ?thesis
    using dec_ok(1,2) [of "unat (ms_sourceLine ms)"]
    unfolding source_token_def r option.case Let_def d by (simp del: find_str.simps)
qed

lemma comment_parsed:
  assumes ok: "line_ok ms scope"
  shows "parse_comment (comment_text const ms scope) = (\<not> const \<and> isAddress ms, const, visibility ms)"
    "extractSourceLocation wide (comment_text const ms scope) = (ms_sourceFile ms, ms_sourceLine ms)"
proof -
  let ?k = "kind_text const ms" and ?v = "visibility_text (visibility ms)"
  let ?l = "location_text ms scope"
  have k: "CHR '','' \<notin> set ?k" "CHR '':'' \<notin> set ?k" "?k \<noteq> []" "\<not> lead (hd ?k)" "clean ?k"
    by (simp_all add: kind_text_def clean_def blank_def)
  have v: "CHR '','' \<notin> set ?v" "CHR '':'' \<notin> set ?v" "?v \<noteq> []" "\<not> lead (hd ?v)" "clean ?v"
    by (cases "visibility ms"; simp add: visibility_text_def clean_def blank_def)+
  have l: "?l \<notin> {''addr'', ''const'', ''public'', ''local''}"
    using location_ok(4) [OF ok] by auto
  have "getlines (CHR '','') (comment_text const ms scope) = [?k, SPACE # ?v, SPACE # ?l]"
    using k(1) v(1) location_ok(2) [OF ok]
      getlines_piece [of "CHR '',''" "?k" "SPACE # ?v @ CHR '','' # SPACE # ?l"]
      getlines_piece [of "CHR '',''" "SPACE # ?v" "SPACE # ?l"]
      getlines_last [of "CHR '',''" "SPACE # ?l"]
    by (simp add: comment_text_def)
  moreover have "comment_field ?k (False, False, Vis_Public) = (\<not> const \<and> isAddress ms, const, Vis_Public)"
    unfolding comment_field_def Let_def trim_clean [OF k(5)] prod.case by (simp add: kind_text_def)
  moreover have "comment_field (SPACE # ?v) (a, b, w) = (a, b, visibility ms)" for a b w
    unfolding comment_field_def Let_def trim_padded(1) [OF v(5)] prod.case
    by (cases "visibility ms") (simp_all add: visibility_text_def)
  moreover have "comment_field (SPACE # ?l) (a, b, w) = (a, b, w)" for a b w
    unfolding comment_field_def Let_def trim_padded(1) [OF location_ok(1) [OF ok]] prod.case using l by simp
  ultimately show "parse_comment (comment_text const ms scope) = (\<not> const \<and> isAddress ms, const, visibility ms)"
    by (simp add: parse_comment_def)
  have x: "extractSourceLocation wide ([CHR '','', SPACE] @ ?l) = (ms_sourceFile ms, ms_sourceLine ms)"
    using location_ok(1,2) [OF ok] location_parsed [OF ok] by (intro extract_found) auto
  show "extractSourceLocation wide (comment_text const ms scope) = (ms_sourceFile ms, ms_sourceLine ms)"
    using x extract_skip [of "[]" "?k" wide "SPACE # ?v @ CHR '','' # SPACE # ?l"]
      extract_skip [of "[CHR '','', SPACE]" "?v" wide "SPACE # ?l"] k v
    by (simp add: comment_text_def)
qed

lemma xdigits_followed: "list_all isxdigit x \<Longrightarrow> \<not> isxdigit c \<Longrightarrow> takeWhile isxdigit (x @ c # y) = x"
  by (simp add: takeWhile_append list_all_iff)

lemma parseHexAddress_hex: "parseHexAddress wide (CHR ''$'' # fmt_hex a 4) = Some a" for a :: u16
proof -
  have "sscanf_x wide (fmt_hex a 4) = Some (word_of_nat (unat a))"
    using sscanf_x_digits [OF fmt_hex_ok(2) fmt_hex_nonempty, of a 4 wide]
      less_trans [OF unat_u16_lt [of a], of "2 ^ 32"] by (simp add: fmt_hex_ok(1))
  moreover have "\<not> 0xFFFF < (ucast a :: u32)"
  proof -
    have "unat a \<le> 65535" using unat_u16_lt [of a] by linarith
    then show ?thesis by (simp add: word_less_nat_alt)
  qed
  ultimately show ?thesis by (simp add: parseHexAddress_def Let_def fmt_hex_ok(2) fmt_hex_nonempty)
qed

lemma comment_clean: "line_ok ms scope \<Longrightarrow> clean (comment_text const ms scope)"
proof -
  assume "line_ok ms scope"
  then have "clean (location_text ms scope)" by (rule location_ok)
  then show ?thesis by (auto simp: clean_def comment_text_def kind_text_def blank_def)
qed

lemma map_line_clean: "line_ok ms scope \<Longrightarrow> clean (map_line const ms scope) \<and> hd (map_line const ms scope) \<noteq> CHR '';''"
proof -
  assume ok: "line_ok ms scope"
  have "comment_text const ms scope \<noteq> []" using comment_clean [OF ok] by (simp add: clean_def)
  then show ?thesis
    using comment_clean [OF ok] line_okD(1,2) [OF ok] by (simp add: clean_def map_line_def)
qed

lemma printed_line_parsed:
  assumes ok: "line_ok ms scope"
  shows "parseMapLine wide (map_line const ms scope) = (if const then None else Some ms)"
proof -
  let ?h = "fmt_hex (ms_address ms) 4" and ?c = "comment_text const ms scope" and ?n = "ms_name ms"
  let ?rest = "CHR 0x20 # CHR '';'' # CHR 0x20 # ?c" and ?L = "map_line const ms scope"
  have L: "?L = (?n @ [CHR 0x20]) @ CHR ''='' # CHR 0x20 # CHR ''$'' # ?h @ ?rest" by (simp add: map_line_def)
  have eq: "find_str ''= $'' ?L = Some (length ?n + 1)"
    using find_str_first [of "CHR ''=''" "?n @ [CHR 0x20]" "'' $''" "?h @ ?rest"] line_okD(6) [OF ok]
    by (simp add: L)
  have sp: "\<not> isxdigit (CHR 0x20)" by code_simp
  have dig: "takeWhile isxdigit (drop (length ?n + 1 + 2 + 1) ?L) = ?h"
    using xdigits_followed [OF fmt_hex_ok(2) sp] by (simp add: L)
  have rest: "drop (length ?n + 1 + 2 + 1 + length ?h) ?L = ?rest" by (simp add: L eval_nat_numeral)
  have dollar: "?L ! (length ?n + 1 + 2) = CHR ''$''" by (simp add: L nth_append)
  have name: "trim (take (length ?n + 1) ?L) = ?n"
    using trim_padded(2) [OF line_okD(1) [OF ok]] by (simp add: L)
  have tr: "trim ?L = ?L" "?L \<noteq> []" "hd ?L \<noteq> CHR '';''"
    using map_line_clean [OF ok] trim_clean by (auto simp: clean_def)
  have com: "trim (tl (dropWhile (\<lambda>c. c \<noteq> CHR '';'') ?rest)) = ?c"
    using trim_padded(1) [OF comment_clean [OF ok]] by simp
  have "?n \<noteq> []" using line_okD(1) [OF ok] by (simp add: clean_def)
  then show ?thesis
    unfolding parseMapLine_def Let_def tr(1) eq option.case prod.case name dig rest dollar
      parseHexAddress_hex com comment_parsed [OF ok]
    using tr(2,3) by (cases ms) simp
qed

subsection \<open>A printed map\<close>

lemma map_line_chars:
  assumes ok: "line_ok ms scope" and c: "\<not> isxdigit c" "c \<notin> set (dec (unat (ms_sourceLine ms)))"
    "c \<notin> set (ms_name ms)" "c \<notin> set (ms_sourceFile ms)" "c \<notin> set scope"
    "c \<in> {LF, CHR ''[''}"
  shows "c \<notin> set (map_line const ms scope)"
proof -
  have "c \<notin> set (fmt_hex (ms_address ms) 4)" using c(1) fmt_hex_ok(2) by (auto simp: list_all_iff)
  moreover have "c \<notin> set (visibility_text (visibility ms))" "c \<notin> set (kind_text const ms)"
    using c(6) by (auto simp: visibility_text_def kind_text_def split: MapSymbolVisibility.splits)
  ultimately show ?thesis using c(2-6) by (auto simp: map_line_def comment_text_def location_text_def)
qed

lemma lower_bracket: "lower_char c = CHR ''['' \<Longrightarrow> c = CHR ''[''"
proof (rule ccontr)
  assume l: "lower_char c = CHR ''[''" and c: "c \<noteq> CHR ''[''"
  then have "char_of (of_char c + 32 :: nat) = CHR ''[''" "CHR ''A'' \<le> c" "c \<le> CHR ''Z''"
    by (auto simp: lower_char_def split: if_splits)
  then have "(of_char (char_of (of_char c + 32 :: nat)) :: nat) = 91" "(of_char c :: nat) \<ge> 65" "(of_char c :: nat) \<le> 90"
    by (simp_all add: less_eq_char_def)
  then show False by simp
qed

text \<open>A map is a list of lines: is it a constant, the symbol, its scope.\<close>

type_synonym map_entry = "bool \<times> MapSymbol \<times> string"

definition map_text :: "map_entry list \<Rightarrow> string" where
  "map_text es = concat (map (\<lambda>(const, ms, scope). map_line const ms scope @ [LF]) es)"

definition entry_ok :: "map_entry \<Rightarrow> bool" where
  "entry_ok e = (case e of (const, ms, scope) \<Rightarrow> line_ok ms scope \<and>
     CHR ''['' \<notin> set (ms_name ms) \<and> CHR ''['' \<notin> set (ms_sourceFile ms) \<and> CHR ''['' \<notin> set scope)"

definition entry_line :: "map_entry \<Rightarrow> string" where
  "entry_line e = (case e of (const, ms, scope) \<Rightarrow> map_line const ms scope)"

lemma map_text_lines: "map_text es = concat (map (\<lambda>e. entry_line e @ [LF]) es)"
  by (induction es) (auto simp: map_text_def entry_line_def)

lemma entry_line_ok:
  assumes "entry_ok e"
  shows "LF \<notin> set (entry_line e)" "CHR ''['' \<notin> set (entry_line e)" "clean (entry_line e)"
    "hd (entry_line e) \<noteq> CHR '';''" "find_str ''= $'' (entry_line e) \<noteq> None"
    "parseMapLine wide (entry_line e) = (if fst e then None else Some (fst (snd e)))"
proof -
  obtain const ms scope where e: "e = (const, ms, scope)" by (cases e) auto
  have ok: "line_ok ms scope" and b: "CHR ''['' \<notin> set (ms_name ms)" "CHR ''['' \<notin> set (ms_sourceFile ms)"
      "CHR ''['' \<notin> set scope"
    using assms by (auto simp: e entry_ok_def)
  have x: "\<not> isxdigit LF" "\<not> isxdigit (CHR ''['')" by code_simp+
  show "LF \<notin> set (entry_line e)"
    using map_line_chars [OF ok x(1)] line_okD [OF ok] by (simp add: e entry_line_def dec_not)
  show "CHR ''['' \<notin> set (entry_line e)"
    using map_line_chars [OF ok x(2)] b by (simp add: e entry_line_def dec_not)
  show "clean (entry_line e)" "hd (entry_line e) \<noteq> CHR '';''"
    using map_line_clean [OF ok] by (simp_all add: e entry_line_def)
  show "parseMapLine wide (entry_line e) = (if fst e then None else Some (fst (snd e)))"
    using printed_line_parsed [OF ok] by (simp add: e entry_line_def)
  show "find_str ''= $'' (entry_line e) \<noteq> None"
    using find_str_first [of "CHR ''=''" "ms_name ms @ [CHR 0x20]" "'' $''"
      "fmt_hex (ms_address ms) 4 @ '' ; '' @ comment_text const ms scope"] line_okD(6) [OF ok]
    by (simp add: e entry_line_def map_line_def)
qed

lemma getlines_map_text: "list_all entry_ok es \<Longrightarrow> getlines LF (map_text es) = map entry_line es"
proof (induction es)
  case Nil then show ?case by (simp add: map_text_def)
next
  case (Cons e es)
  then have "getlines LF (entry_line e @ LF # map_text es) = entry_line e # getlines LF (map_text es)"
    using entry_line_ok(1) [of e] by (intro getlines_piece) simp
  then show ?case using Cons by (simp add: map_text_lines)
qed

lemma map_text_valid:
  assumes "list_all entry_ok es" "es \<noteq> []"
  shows "validateZ88dkFormat (map_text es)"
proof -
  have l: "map trim (map entry_line es) = map entry_line es"
    using assms(1) entry_line_ok(3) trim_clean by (simp add: list_all_iff)
  have "CHR ''['' \<notin> set (map_text es)"
    using assms(1) entry_line_ok(2) by (auto simp: map_text_lines list_all_iff)
  then have "CHR ''['' \<notin> set (map lower_char (map_text es))" using lower_bracket by auto metis
  then have ci: "containsCI (map_text es) (CHR ''['' # n) = False" for n
  proof -
    assume "CHR ''['' \<notin> set (map lower_char (map_text es))"
    moreover have "lower_char (CHR ''['') = CHR ''[''" by code_simp
    ultimately show ?thesis by (simp add: containsCI_def find_str_absent)
  qed
  obtain e es' where es: "es = e # es'" using assms(2) by (cases es) auto
  have "entry_line e \<noteq> []" "find_str ''= $'' (entry_line e) \<noteq> None"
    using assms(1) entry_line_ok(3,5) [of e] by (auto simp: es clean_def)
  then show ?thesis
    unfolding validateZ88dkFormat_def getlines_map_text [OF assms(1)] l Let_def ci by (simp add: es del: find_str.simps)
qed

lemma parse_entries:
  "list_all entry_ok es \<Longrightarrow> fold (parse_line_into wide) (map entry_line es) r =
     r\<lparr>ml_symbols := ml_symbols r @ [ms. (const, ms, scope) \<leftarrow> es, \<not> const],
       parsedCount := parsedCount r + length [e \<leftarrow> es. \<not> fst e],
       skippedLines := skippedLines r + length [e \<leftarrow> es. fst e]\<rparr>"
proof (induction es arbitrary: r)
  case Nil then show ?case by simp
next
  case (Cons e es)
  then have "parse_line_into wide (entry_line e) r =
      (if fst e then r\<lparr>skippedLines := skippedLines r + 1\<rparr>
       else r\<lparr>ml_symbols := ml_symbols r @ [fst (snd e)], parsedCount := parsedCount r + 1\<rparr>)"
    using entry_line_ok(3,4,6) [of e] trim_clean [of "entry_line e"]
    by (simp add: parse_line_into_def Let_def clean_def)
  then show ?case using Cons by (cases e) auto
qed


definition sample_map :: "map_entry list" where
  "sample_map =
     [(True, \<lparr>ms_name = ''STACK_TOP'', ms_address = 0x100, visibility = Vis_Public, isAddress = False,
        ms_sourceFile = ''crt.asm'', ms_sourceLine = 7\<rparr>, ''''),
      (False, \<lparr>ms_name = ''_main'', ms_address = 0x252, visibility = Vis_Public, isAddress = True,
        ms_sourceFile = ''main.c'', ms_sourceLine = 109\<rparr>, ''main::0::1'')]"

lemma sample_map_ok: "list_all entry_ok sample_map"
  by (simp add: sample_map_def entry_ok_def line_ok_def clean_def blank_def)


section \<open>What an import changes\<close>

definition kept_object :: "MapSymbol \<Rightarrow> 'd::zero RdbObject" where
  "kept_object ms = normalizeObjectText (map_object ms)"

lemma map_object_address [simp]: "ro_address (map_object ms) = ms_address ms"
  by (simp add: map_object_def Let_def)

lemma kept_address [simp]: "ro_address (kept_object ms) = ms_address ms"
  by (simp add: kept_object_def normalizeObjectText_def)

lemma import_symbol_objects:
  "objects (snd (import_symbol ms st)) =
     (if map_of (objects (snd st)) (ms_address ms) = None
      then map_put (ms_address ms) (kept_object ms) (objects (snd st)) else objects (snd st))"
  by (cases st) (auto simp: import_symbol_def addObject_def put_object_def kept_object_def Let_def split: option.split)

lemma import_objects:
  "objects (snd (fold import_symbol mss st)) =
     fold (\<lambda>(k, v) m. if map_of m k = None then map_put k v m else m)
       (map (\<lambda>ms. (ms_address ms, kept_object ms)) mss) (objects (snd st))"
  by (induction mss arbitrary: st) (simp_all add: import_symbol_objects)

lemma map_of_first:
  "map_of (map (\<lambda>ms. (ms_address ms, g ms)) mss) a = map_option g (find (\<lambda>ms. ms_address ms = a) mss)"
  by (induction mss) auto

lemma import_getObject:
  assumes "map_ok (objects r)" "success m"
  shows "map_ok (objects (snd (importMapToRdb m r)))"
    and "getObject a (snd (importMapToRdb m r)) = (case getObject a r of Some obj \<Rightarrow> Some obj
      | None \<Rightarrow> map_option kept_object (find (\<lambda>ms. ms_address ms = a) (ml_symbols m)))"
  using std_map.first_wins [OF assms(1)] assms(2)
  by (simp_all add: getObject_def importMapToRdb_def import_objects map_of_first split: option.split)

lemma map_put_length: "length (map_put k v m) = (if k \<in> fst ` set m then length m else Suc (length m))" if "map_ok m"
proof -
  have "distinct (map fst (map_put k v m))" "distinct (map fst m)"
    using that map_put_ok [OF that, of k v] by (simp_all add: map_ok_def strict_sorted_iff)
  then have "card (fst ` set (map_put k v m)) = length (map_put k v m)" "card (fst ` set m) = length m"
    using distinct_card [of "map fst (map_put k v m)"] distinct_card [of "map fst m"] by simp_all
  then show ?thesis by (cases "k \<in> fst ` set m") (auto simp: map_put_keys insert_absorb)
qed

lemma import_count:
  "map_ok (objects (snd st)) \<Longrightarrow> objectCount (snd (fold import_symbol mss st)) + fst st =
     objectCount (snd st) + fst (fold import_symbol mss st)"
proof (induction mss arbitrary: st)
  case Nil then show ?case by simp
next
  case (Cons ms mss)
  let ?st = "import_symbol ms st"
  have ok: "map_ok (objects (snd ?st))" using Cons.prems by (simp add: import_symbol_objects map_put_ok)
  have "objectCount (snd ?st) + fst st = objectCount (snd st) + fst ?st"
    using Cons.prems
    by (cases st) (auto simp: import_symbol_def addObject_def put_object_def objectCount_def Let_def
        map_put_length map_of_eq_None_iff split: option.split)
  then show ?case using Cons.IH [OF ok] by simp
qed

text \<open>The symbol made from an object.\<close>

definition symbol_of :: "'d RdbObject \<Rightarrow> DebugSymbol" where
  "symbol_of obj = \<lparr>sy_address = ro_address obj, sy_name = ro_name obj,
     sy_comment = normalizeRdbText (ro_comment obj),
     sy_type = (if ro_type obj = RFunction then Sym_Function else Sym_Label),
     sy_sourceFile = (case map_of (ro_properties obj) ''source_file'' of
        Some v \<Rightarrow> if pv_type v = PV_String then stringValue v else '''' | None \<Rightarrow> ''''),
     sy_sourceLine = (case map_of (ro_properties obj) ''source_line'' of
        Some v \<Rightarrow> if pv_type v = PV_Integer then ucast (intValue v) else 0 | None \<Rightarrow> 0),
     sy_fromMap = True\<rparr>"

lemma map_put_twice: "map_put k v (map_put k w m) = map_put k v m"
  by (induction k w m rule: map_put.induct) auto

lemma sync_object_symbols:
  assumes "map_ok (db_symbols (snd st))"
  shows "db_symbols (snd (sync_object obj st)) =
     (if map_of (db_symbols (snd st)) (ro_address obj) = None
      then map_put (ro_address obj) (symbol_of obj) (db_symbols (snd st)) else db_symbols (snd st))"
  using assms
  by (cases st) (auto simp: sync_object_def findSymbol_def addSymbol_def setSymbolComment_def symbol_of_def
      invalidateXrefs_def Let_def map_put_find map_put_ok map_put_twice split: option.split)

lemma sync_symbols:
  "map_ok (db_symbols (snd st)) \<Longrightarrow> db_symbols (snd (fold sync_object objs st)) =
     fold (\<lambda>(k, v) m. if map_of m k = None then map_put k v m else m)
       (map (\<lambda>obj. (ro_address obj, symbol_of obj)) objs) (db_symbols (snd st))"
proof (induction objs arbitrary: st)
  case Nil then show ?case by simp
next
  case (Cons obj objs)
  have "map_ok (db_symbols (snd (sync_object obj st)))"
    using Cons.prems by (simp add: sync_object_symbols map_put_ok)
  from Cons.IH [OF this] show ?case using sync_object_symbols [OF Cons.prems, of obj] by simp
qed

lemma sync_findSymbol:
  assumes "map_ok (db_symbols db)" "\<forall>(a, obj) \<in> set (objects r). ro_address obj = a"
  shows "findSymbol a (snd (syncRdbToSymbolDatabase r db)) = (case findSymbol a db of Some sy \<Rightarrow> Some sy
      | None \<Rightarrow> map_option symbol_of (getObject a r))"
proof -
  have "map_of (map (\<lambda>obj. (ro_address obj, symbol_of obj)) (map snd xs)) a = map_option symbol_of (map_of xs a)"
    if "\<forall>(a, obj) \<in> set xs. ro_address obj = a" for xs :: "(u16 \<times> 'a RdbObject) list"
    using that by (induction xs) auto
  from this [OF assms(2)] show ?thesis
    using std_map.first_wins(1) [OF assms(1)] sync_symbols [of "(0, db)" "map snd (objects r)"] assms(1)
    by (simp add: findSymbol_def getObject_def syncRdbToSymbolDatabase_def listObjects_def split: option.split)
qed

lemma import_filed:
  assumes "\<forall>(a, obj) \<in> set (objects r). ro_address obj = a"
  shows "\<forall>(a, obj) \<in> set (objects (snd (importMapToRdb m r))). ro_address obj = a"
proof -
  have put: "\<forall>(b, obj) \<in> set (map_put k v os). ro_address obj = b"
    if "\<forall>(b, obj) \<in> set os. ro_address obj = b" "ro_address v = k" for k and v :: "'a RdbObject" and os
    using that by (induction k v os rule: map_put.induct) auto
  have "\<forall>(a, obj) \<in> set (objects (snd (fold import_symbol mss st))). ro_address obj = a"
    if "\<forall>(a, obj) \<in> set (objects (snd st)). ro_address obj = a" for mss and st :: "nat \<times> 'a rdb"
    using that
  proof (induction mss arbitrary: st)
    case Nil then show ?case by simp
  next
    case (Cons ms mss)
    have "\<forall>(a, obj) \<in> set (objects (snd (import_symbol ms st))). ro_address obj = a"
      using Cons.prems put [OF Cons.prems kept_address] by (simp add: import_symbol_objects)
    from Cons.IH [OF this] show ?case by simp
  qed
  from this [of "(0, r)" "ml_symbols m"] show ?thesis using assms by (simp add: importMapToRdb_def)
qed

text \<open>The symbol the debugger shows for an entry of a map.\<close>

definition symbol_of_map :: "MapSymbol \<Rightarrow> DebugSymbol" where
  "symbol_of_map ms = \<lparr>sy_address = ms_address ms, sy_name = ms_name ms, sy_comment = '''',
     sy_type = (if isAddress ms \<and> visibility ms = Vis_Public then Sym_Function else Sym_Label),
     sy_sourceFile = normalizeRdbText (ms_sourceFile ms),
     sy_sourceLine = (if 0 <s ms_sourceLine ms then ms_sourceLine ms else 0), sy_fromMap = True\<rparr>"

lemma symbol_of_kept: "symbol_of (kept_object ms) = symbol_of_map ms"
proof -
  have "normalizeRdbText '''' = ''''" by (simp add: normalizeRdbText_def)
  moreover have "(ucast (scast (ms_sourceLine ms) :: 64 word) :: u32) = ms_sourceLine ms"
    by (rule bit_word_eqI) (auto simp: bit_simps)
  ultimately show ?thesis
    by (auto simp: symbol_of_def symbol_of_map_def kept_object_def normalizeObjectText_def map_object_def Let_def
      RdbObject_new_def RdbPropertyValue_new_def fromString_def fromInt_def)
qed

text \<open>C17: Importing a map: every object of the database and every symbol of the debugger stays as it
  is; at any other address the debugger then shows the first symbol of the map for it, a function if
  it is a public address and a label otherwise, with its source location.  The result of the import
  is the number of objects it added.\<close>

theorem imported_symbols_are_shown:
  assumes "rdb_ok r" "map_ok (db_symbols db)" "success m"
  shows "findSymbol a (snd (syncRdbToSymbolDatabase (snd (importMapToRdb m r)) db)) =
      (case findSymbol a db of Some sy \<Rightarrow> Some sy
       | None \<Rightarrow> (case getObject a r of Some obj \<Rightarrow> Some (symbol_of obj)
         | None \<Rightarrow> map_option symbol_of_map (find (\<lambda>ms. ms_address ms = a) (ml_symbols m)))) \<and>
    (getObject a r = Some obj \<longrightarrow> getObject a (snd (importMapToRdb m r)) = Some obj) \<and>
    objectCount (snd (importMapToRdb m r)) = objectCount r + fst (importMapToRdb m r)"
proof -
  have ok: "map_ok (objects r)" "\<forall>(a, obj) \<in> set (objects r). ro_address obj = a"
    using assms(1) by (auto simp: rdb_ok_def)
  have "objectCount (snd (importMapToRdb m r)) = objectCount r + fst (importMapToRdb m r)"
    using import_count [of "(0, r)"] ok(1) assms(3) by (simp add: importMapToRdb_def)
  then show ?thesis
    using sync_findSymbol [OF assms(2) import_filed [OF ok(2)]] import_getObject(2) [OF ok(1) assms(3)]
    by (simp add: symbol_of_kept option.map_comp comp_def split: option.split)
qed

definition sample_result :: MapLoadResult where
  "sample_result = \<lparr>success = True, errorMessage = '''', ml_symbols = [fst (snd (sample_map ! 1))],
     parsedCount = 1, skippedLines = 1\<rparr>"

theorem imported_symbols_are_shown_witness:
  "findSymbol 0x252 (snd (syncRdbToSymbolDatabase (snd (importMapToRdb sample_result sample_db)) SymbolDatabase_new)) =
     Some \<lparr>sy_address = 0x252, sy_name = ''_main'', sy_comment = '''', sy_type = Sym_Function,
       sy_sourceFile = ''main.c'', sy_sourceLine = 109, sy_fromMap = True\<rparr>"
proof -
  have "map_ok (db_symbols SymbolDatabase_new)" "success sample_result"
    by (simp_all add: SymbolDatabase_new_def map_ok_def sample_result_def)
  note shown = imported_symbols_are_shown [OF sample_db_ok this, of "0x252", THEN conjunct1]
  have "find (\<lambda>ms. ms_address ms = 0x252) (ml_symbols sample_result) = Some (fst (snd (sample_map ! 1)))"
    by (simp add: sample_result_def sample_map_def)
  moreover have "findSymbol 0x252 SymbolDatabase_new = None" "getObject 0x252 sample_db = None"
    by (simp_all add: findSymbol_def SymbolDatabase_new_def getObject_def sample_db_def)
  moreover have "normalizeRdbText ''main.c'' = ''main.c''" by code_simp
  ultimately show ?thesis
    unfolding shown by (simp add: symbol_of_map_def) (simp add: sample_map_def word_sless_alt)
qed


end
