(* ===== verification/Ring_Buffer.thy ===== *)
theory Ring_Buffer
  imports Prelude
begin

text \<open>
  The fixed-capacity history of the debugger (\<^verbatim>\<open>ring_buffer.h\<close>).  What a log promises is the
  locale \<open>bounded_log\<close>: entering an item appends it and drops the oldest one when the log is full.
  The array with a head and a count implements it.  The mutex, which makes each operation atomic,
  needs no counterpart.
\<close>

subsection \<open>A bounded log\<close>

definition last_n :: "nat \<Rightarrow> 'a list \<Rightarrow> 'a list" where
  "last_n k xs = drop (length xs - k) xs"

lemma length_last_n [simp]: "length (last_n k xs) = min k (length xs)"
  by (simp add: last_n_def)

lemma last_n_short [simp]: "length xs \<le> k \<Longrightarrow> last_n k xs = xs"
  by (simp add: last_n_def)

lemma last_n_last_n: "last_n k (last_n k xs @ ys) = last_n k (xs @ ys)"
  by (cases "length xs \<le> k") (auto simp: last_n_def add.commute)

locale bounded_log =
  fixes push :: "'a \<Rightarrow> 'r \<Rightarrow> 'r" and clear :: "'r \<Rightarrow> 'r" and contents :: "'r \<Rightarrow> 'a list"
    and capacity :: "'r \<Rightarrow> nat" and ok :: "'r \<Rightarrow> bool"
  assumes contents_push: "ok r \<Longrightarrow> contents (push x r) = last_n (capacity r) (contents r @ [x])"
    and contents_clear: "ok r \<Longrightarrow> contents (clear r) = []"
    and capacity_kept: "capacity (push x r) = capacity r" "capacity (clear r) = capacity r"
    and ok_kept: "ok r \<Longrightarrow> ok (push x r)" "ok r \<Longrightarrow> ok (clear r)"
    and within: "ok r \<Longrightarrow> length (contents r) \<le> capacity r"
begin

lemma push_all:
  assumes "ok r"
  shows "ok (fold push xs r)" "capacity (fold push xs r) = capacity r"
    "contents (fold push xs r) = last_n (capacity r) (contents r @ xs)"
  using assms
proof (induction xs arbitrary: r)
  case Nil
  { case 1 then show ?case by simp }
  { case 2 then show ?case by simp }
  { case 3 then show ?case using within by simp }
next
  case (Cons x xs)
  { case 1 then show ?case using Cons.IH(1) [of "push x r"] ok_kept by simp }
  { case 2 then show ?case using Cons.IH(2) [of "push x r"] ok_kept capacity_kept by simp }
  { case 3 then show ?case
      using Cons.IH(3) [of "push x r"] ok_kept(1) by (simp add: contents_push capacity_kept last_n_last_n) }
qed

lemma logged_since_clear:
  assumes "ok r"
  shows "contents (fold push xs (clear r)) = last_n (capacity r) xs"
  using push_all(3) [OF ok_kept(2) [OF assms]] assms by (simp add: contents_clear capacity_kept)

end

subsection \<open>The array\<close>

record 'a ring =
  buf :: "'a list"
  head :: nat
  ring_count :: nat

definition RingBuffer_new :: "'a \<Rightarrow> nat \<Rightarrow> 'a ring" where
  "RingBuffer_new dflt cap = \<lparr>buf = replicate cap dflt, head = 0, ring_count = 0\<rparr>"

definition ring_capacity :: "'a ring \<Rightarrow> nat" where
  "ring_capacity r = length (buf r)"

definition push_item :: "'a \<Rightarrow> 'a ring \<Rightarrow> 'a ring" where
  "push_item item r =
     (let r = r\<lparr>buf := (buf r)[head r := item]\<rparr>;
          r = r\<lparr>head := (head r + 1) mod length (buf r)\<rparr>
      in if ring_count r < length (buf r) then r\<lparr>ring_count := ring_count r + 1\<rparr> else r)"

definition ring_size :: "'a ring \<Rightarrow> nat" where
  "ring_size r = ring_count r"

definition ring_empty :: "'a ring \<Rightarrow> bool" where
  "ring_empty r \<longleftrightarrow> ring_count r = 0"

definition ring_start :: "'a ring \<Rightarrow> nat" where
  "ring_start r = (if ring_count r < length (buf r) then 0 else head r)"

definition ring_at :: "'a ring \<Rightarrow> nat \<Rightarrow> 'a" where
  "ring_at r index = buf r ! ((ring_start r + index) mod length (buf r))"

definition clear_ring :: "'a ring \<Rightarrow> 'a ring" where
  "clear_ring r = r\<lparr>head := 0, ring_count := 0\<rparr>"

definition snapshot :: "'a ring \<Rightarrow> 'a list" where
  "snapshot r = map (\<lambda>i. buf r ! ((ring_start r + i) mod length (buf r))) [0..<ring_count r]"

definition ring_ok :: "'a ring \<Rightarrow> bool" where
  "ring_ok r \<longleftrightarrow> 0 < length (buf r) \<and> head r < length (buf r) \<and> ring_count r \<le> length (buf r) \<and>
     (ring_count r < length (buf r) \<longrightarrow> head r = ring_count r)"

lemma new_ring_ok: "0 < cap \<Longrightarrow> ring_ok (RingBuffer_new dflt cap)"
  by (simp add: ring_ok_def RingBuffer_new_def)

lemma push_ok: "ring_ok r \<Longrightarrow> ring_ok (push_item x r)"
  by (auto simp: ring_ok_def push_item_def Let_def mod_Suc)

lemma snapshot_partial: "ring_count r < length (buf r) \<Longrightarrow> snapshot r = take (ring_count r) (buf r)"
  by (rule nth_equalityI) (auto simp: snapshot_def ring_start_def)

lemma snapshot_full:
  assumes "ring_ok r" "ring_count r = length (buf r)"
  shows "snapshot r = drop (head r) (buf r) @ take (head r) (buf r)"
proof (rule nth_equalityI)
  show "length (snapshot r) = length (drop (head r) (buf r) @ take (head r) (buf r))"
    using assms by (simp add: snapshot_def ring_ok_def)
  fix i assume "i < length (snapshot r)"
  then have i: "i < length (buf r)" "head r < length (buf r)"
    using assms by (simp_all add: snapshot_def ring_ok_def)
  then have "(head r + i) mod length (buf r) =
      (if head r + i < length (buf r) then head r + i else head r + i - length (buf r))"
    by (simp add: mod_if)
  then show "snapshot r ! i = (drop (head r) (buf r) @ take (head r) (buf r)) ! i"
    using assms(2) i by (auto simp: snapshot_def ring_start_def nth_append add.commute)
qed

lemma snapshot_push:
  assumes ok: "ring_ok r"
  shows "snapshot (push_item x r) = last_n (ring_capacity r) (snapshot r @ [x])"
proof (cases "ring_count r < length (buf r)")
  case True
  then have h: "head r = ring_count r" and len: "length (snapshot r) = ring_count r"
    using ok by (simp_all add: ring_ok_def snapshot_def)
  have r: "buf (push_item x r) = (buf r)[ring_count r := x]" "ring_count (push_item x r) = ring_count r + 1"
      "head (push_item x r) = (ring_count r + 1) mod length (buf r)"
    using True h by (simp_all add: push_item_def Let_def)
  have t: "take (ring_count r + 1) ((buf r)[ring_count r := x]) = take (ring_count r) (buf r) @ [x]"
    using True by (simp add: take_Suc_conv_app_nth)
  have "snapshot (push_item x r) = take (ring_count r + 1) ((buf r)[ring_count r := x])"
  proof (cases "ring_count r + 1 < length (buf r)")
    case True then show ?thesis using snapshot_partial [of "push_item x r"] by (simp add: r)
  next
    case False
    then have "ring_count r + 1 = length (buf r)" using True by simp
    then show ?thesis using snapshot_full [OF push_ok [OF ok], of x] by (simp add: r)
  qed
  then show ?thesis using True len t by (simp add: snapshot_partial ring_capacity_def)
next
  case False
  then have full: "ring_count r = length (buf r)" and h: "head r < length (buf r)"
    using ok by (auto simp: ring_ok_def)
  have r: "buf (push_item x r) = (buf r)[head r := x]" "ring_count (push_item x r) = length (buf r)"
      "head (push_item x r) = (head r + 1) mod length (buf r)"
    using full by (simp_all add: push_item_def Let_def)
  have old: "snapshot r = drop (head r) (buf r) @ take (head r) (buf r)" by (rule snapshot_full [OF ok full])
  have new: "snapshot (push_item x r) = drop ((head r + 1) mod length (buf r)) ((buf r)[head r := x]) @
      take ((head r + 1) mod length (buf r)) ((buf r)[head r := x])"
    using snapshot_full [OF push_ok [OF ok], of x] by (simp add: r)
  have "snapshot (push_item x r) = drop (head r + 1) (buf r) @ take (head r) (buf r) @ [x]"
  proof (cases "head r + 1 < length (buf r)")
    case True
    then show ?thesis using h by (simp add: new take_Suc_conv_app_nth)
  next
    case False
    then have "head r + 1 = length (buf r)" using h by simp
    then show ?thesis by (simp add: new take_Suc_conv_app_nth [of "head r", symmetric] list_update_same_conv)
        (metis h lessI take_Suc_conv_app_nth length_list_update nth_list_update_eq take_all_iff take_update_cancel order_refl)
  qed
  moreover have "drop (head r) (buf r) = buf r ! head r # drop (head r + 1) (buf r)"
    using h by (simp add: Cons_nth_drop_Suc)
  moreover have "length (snapshot r @ [x]) - length (buf r) = 1" using full by (simp add: snapshot_def)
  then have "last_n (ring_capacity r) (snapshot r @ [x]) = drop 1 (snapshot r @ [x])"
    by (simp only: last_n_def ring_capacity_def)
  ultimately show ?thesis by (simp add: old)
qed

interpretation ring: bounded_log push_item clear_ring snapshot ring_capacity ring_ok
proof
  fix r :: "'a ring" and x :: 'a
  show "ring_ok r \<Longrightarrow> snapshot (push_item x r) = last_n (ring_capacity r) (snapshot r @ [x])"
    by (rule snapshot_push)
  show "ring_ok r \<Longrightarrow> ring_ok (push_item x r)" by (rule push_ok)
qed (auto simp: ring_capacity_def push_item_def clear_ring_def snapshot_def ring_ok_def Let_def)

lemma ring_at_snapshot: "i < ring_size r \<Longrightarrow> ring_at r i = snapshot r ! i"
  by (simp add: ring_at_def snapshot_def ring_size_def)

text \<open>Histories: after any entries into a cleared history of any capacity, a snapshot shows the
  most recent ones, oldest first, as many as fit; size and the access by index agree with it.\<close>

theorem history_keeps_latest:
  assumes "ring_ok r"
  shows "snapshot (fold push_item xs (clear_ring r)) = last_n (ring_capacity r) xs \<and>
    ring_size (fold push_item xs (clear_ring r)) = min (ring_capacity r) (length xs) \<and>
    map (ring_at (fold push_item xs (clear_ring r))) [0..<min (ring_capacity r) (length xs)] =
      last_n (ring_capacity r) xs"
proof -
  let ?r = "fold push_item xs (clear_ring r)"
  have s: "snapshot ?r = last_n (ring_capacity r) xs" by (rule ring.logged_since_clear [OF assms])
  moreover have n: "ring_size ?r = length (snapshot ?r)" by (simp add: ring_size_def snapshot_def)
  moreover have "map (ring_at ?r) [0..<ring_size ?r] = snapshot ?r"
    by (rule nth_equalityI) (simp_all add: n ring_at_snapshot)
  ultimately show ?thesis by simp
qed

theorem history_keeps_latest_witness:
  "snapshot (fold push_item [1, 2, 3, 4] (clear_ring (RingBuffer_new (0 :: nat) 3))) = [2, 3, 4]"
  using history_keeps_latest [OF new_ring_ok [of 3 "0 :: nat"], of "[1, 2, 3, 4]", THEN conjunct1]
  by (simp add: last_n_def ring_capacity_def RingBuffer_new_def)

end
