(* ===== verification/Sha256.thy ===== *)
theory Sha256
  imports Prelude
begin

text \<open>
  The hash that identifies a ROM (\<^verbatim>\<open>sha256.h\<close>, \<^verbatim>\<open>sha256.cpp\<close>), against the text of
  FIPS 180-4: the constants come from the cube and square roots of the first primes, the schedule is a
  recursion, a message is padded as a whole and cut into blocks.  The code instead fills a buffer
  piece by piece.  The buffer always holds fewer than 64 bytes between calls; the loops test it,
  since with a full buffer they would not end.
\<close>

type_synonym u64 = "64 word"

section \<open>The code\<close>

text \<open>The constants of the code, each after the prime it stands for and the integer part of its root.\<close>

definition cube_roots :: "(nat \<times> nat \<times> u32) list" where
  "cube_roots =
     [(2, 1, 0x428a2f98), (3, 1, 0x71374491), (5, 1, 0xb5c0fbcf), (7, 1, 0xe9b5dba5),
      (11, 2, 0x3956c25b), (13, 2, 0x59f111f1), (17, 2, 0x923f82a4), (19, 2, 0xab1c5ed5),
      (23, 2, 0xd807aa98), (29, 3, 0x12835b01), (31, 3, 0x243185be), (37, 3, 0x550c7dc3),
      (41, 3, 0x72be5d74), (43, 3, 0x80deb1fe), (47, 3, 0x9bdc06a7), (53, 3, 0xc19bf174),
      (59, 3, 0xe49b69c1), (61, 3, 0xefbe4786), (67, 4, 0x0fc19dc6), (71, 4, 0x240ca1cc),
      (73, 4, 0x2de92c6f), (79, 4, 0x4a7484aa), (83, 4, 0x5cb0a9dc), (89, 4, 0x76f988da),
      (97, 4, 0x983e5152), (101, 4, 0xa831c66d), (103, 4, 0xb00327c8), (107, 4, 0xbf597fc7),
      (109, 4, 0xc6e00bf3), (113, 4, 0xd5a79147), (127, 5, 0x06ca6351), (131, 5, 0x14292967),
      (137, 5, 0x27b70a85), (139, 5, 0x2e1b2138), (149, 5, 0x4d2c6dfc), (151, 5, 0x53380d13),
      (157, 5, 0x650a7354), (163, 5, 0x766a0abb), (167, 5, 0x81c2c92e), (173, 5, 0x92722c85),
      (179, 5, 0xa2bfe8a1), (181, 5, 0xa81a664b), (191, 5, 0xc24b8b70), (193, 5, 0xc76c51a3),
      (197, 5, 0xd192e819), (199, 5, 0xd6990624), (211, 5, 0xf40e3585), (223, 6, 0x106aa070),
      (227, 6, 0x19a4c116), (229, 6, 0x1e376c08), (233, 6, 0x2748774c), (239, 6, 0x34b0bcb5),
      (241, 6, 0x391c0cb3), (251, 6, 0x4ed8aa4a), (257, 6, 0x5b9cca4f), (263, 6, 0x682e6ff3),
      (269, 6, 0x748f82ee), (271, 6, 0x78a5636f), (277, 6, 0x84c87814), (281, 6, 0x8cc70208),
      (283, 6, 0x90befffa), (293, 6, 0xa4506ceb), (307, 6, 0xbef9a3f7), (311, 6, 0xc67178f2)]"

definition square_roots :: "(nat \<times> nat \<times> u32) list" where
  "square_roots =
     [(2, 1, 0x6a09e667), (3, 1, 0xbb67ae85), (5, 2, 0x3c6ef372), (7, 2, 0xa54ff53a),
      (11, 3, 0x510e527f), (13, 3, 0x9b05688c), (17, 4, 0x1f83d9ab), (19, 4, 0x5be0cd19)]"

definition SHA_K :: "u32 list" where
  "SHA_K = map (\<lambda>(_, _, k). k) cube_roots"


definition rotr :: "u32 \<Rightarrow> nat \<Rightarrow> u32" where
  "rotr x n = drop_bit n x OR push_bit (32 - n) x"

definition ch :: "u32 \<Rightarrow> u32 \<Rightarrow> u32 \<Rightarrow> u32" where
  "ch x y z = (x AND y) XOR (NOT x AND z)"

definition maj :: "u32 \<Rightarrow> u32 \<Rightarrow> u32 \<Rightarrow> u32" where
  "maj x y z = (x AND y) XOR (x AND z) XOR (y AND z)"

definition Sigma0 :: "u32 \<Rightarrow> u32" where "Sigma0 x = rotr x 2 XOR rotr x 13 XOR rotr x 22"
definition Sigma1 :: "u32 \<Rightarrow> u32" where "Sigma1 x = rotr x 6 XOR rotr x 11 XOR rotr x 25"
definition gamma0 :: "u32 \<Rightarrow> u32" where "gamma0 x = rotr x 7 XOR rotr x 18 XOR drop_bit 3 x"
definition gamma1 :: "u32 \<Rightarrow> u32" where "gamma1 x = rotr x 17 XOR rotr x 19 XOR drop_bit 10 x"

definition readBE32 :: "u8 list \<Rightarrow> nat \<Rightarrow> u32" where
  "readBE32 p i = push_bit 24 (ucast (p ! i)) OR push_bit 16 (ucast (p ! (i + 1))) OR
     push_bit 8 (ucast (p ! (i + 2))) OR ucast (p ! (i + 3))"

definition writeBE32 :: "u32 \<Rightarrow> u8 list" where
  "writeBE32 v = [ucast (drop_bit 24 v), ucast (drop_bit 16 v), ucast (drop_bit 8 v), ucast v]"

definition writeBE64 :: "u64 \<Rightarrow> u8 list" where
  "writeBE64 v = fst (fold (\<lambda>_ (p, v). (ucast (v AND 0xFF) # p, drop_bit 8 v)) [0..<8] ([], v))"

record Sha256 =
  sh_state :: "u32 list"
  sh_buffer :: "u8 list"
  bufferLen :: nat
  totalLen :: u64

definition init_state :: "u32 list" where
  "init_state = map (\<lambda>(_, _, h). h) square_roots"

text \<open>The constructor; the bytes \<open>u\<close> of the buffer are not initialised.\<close>

definition Sha256_new :: "u8 list \<Rightarrow> Sha256" where
  "Sha256_new u = \<lparr>sh_state = init_state, sh_buffer = u, bufferLen = 0, totalLen = 0\<rparr>"

definition schedule :: "u8 list \<Rightarrow> u32 list" where
  "schedule block =
     fold (\<lambda>i w. w @ [gamma1 (w ! (i - 2)) + w ! (i - 7) + gamma0 (w ! (i - 15)) + w ! (i - 16)])
       [16..<64] (map (\<lambda>i. readBE32 block (i * 4)) [0..<16])"

type_synonym regs = "u32 \<times> u32 \<times> u32 \<times> u32 \<times> u32 \<times> u32 \<times> u32 \<times> u32"

definition sha_step :: "u32 \<Rightarrow> u32 \<Rightarrow> regs \<Rightarrow> regs" where
  "sha_step k w r =
     (case r of (a, b, c, d, e, f, g, h) \<Rightarrow>
        let t1 = h + Sigma1 e + ch e f g + k + w; t2 = Sigma0 a + maj a b c
        in (t1 + t2, a, b, c, d + t1, e, f, g))"

definition sha_round :: "u32 list \<Rightarrow> nat \<Rightarrow> regs \<Rightarrow> regs" where
  "sha_round w i r = sha_step (SHA_K ! i) (w ! i) r"

definition transform_rounds :: "u32 list \<Rightarrow> u32 list \<Rightarrow> u32 list" where
  "transform_rounds w st =
     (let (a, b, c, d, e, f, g, h) =
            fold (sha_round w) [0..<64] (st ! 0, st ! 1, st ! 2, st ! 3, st ! 4, st ! 5, st ! 6, st ! 7)
      in [st ! 0 + a, st ! 1 + b, st ! 2 + c, st ! 3 + d, st ! 4 + e, st ! 5 + f, st ! 6 + g, st ! 7 + h])"

definition transform :: "u8 list \<Rightarrow> u32 list \<Rightarrow> u32 list" where
  "transform block st = transform_rounds (schedule block) st"

function update_loop :: "u8 list \<Rightarrow> Sha256 \<Rightarrow> Sha256" where
  "update_loop data s =
     (if data = [] \<or> 64 \<le> bufferLen s then s
      else let space = 64 - bufferLen s; n = min (length data) space;
               s = s\<lparr>sh_buffer := take (bufferLen s) (sh_buffer s) @ take n data @
                        drop (bufferLen s + n) (sh_buffer s),
                     bufferLen := bufferLen s + n\<rparr>;
               s = (if bufferLen s = 64 then s\<lparr>sh_state := transform (sh_buffer s) (sh_state s), bufferLen := 0\<rparr> else s)
        in update_loop (drop n data) s)"
  by pat_completeness auto
termination by (relation "measure (\<lambda>(data, _). length data)") auto

declare update_loop.simps [simp del]

definition update :: "u8 list \<Rightarrow> Sha256 \<Rightarrow> Sha256" where
  "update data s = update_loop data (s\<lparr>totalLen := totalLen s + word_of_nat (length data)\<rparr>)"

lemma update_one:
  assumes "bufferLen s < 64"
  shows "bufferLen (update [b] s) = (if bufferLen s = 63 then 0 else bufferLen s + 1)"
proof -
  have "min 1 (64 - bufferLen s) = 1" using assms by simp
  then show ?thesis
    using assms by (simp add: update_def update_loop.simps [of "[b]"] update_loop.simps [of "[]"] Let_def)
qed

text \<open>Padding with zeros.\<close>

function pad_zeros :: "Sha256 \<Rightarrow> Sha256" where
  "pad_zeros s = (if bufferLen s = 56 \<or> 64 \<le> bufferLen s then s else pad_zeros (update [0] s))"
  by pat_completeness auto
termination
proof (relation "measure (\<lambda>s. (120 - bufferLen s) mod 64)")
  fix s :: Sha256 assume s: "\<not> (bufferLen s = 56 \<or> 64 \<le> bufferLen s)"
  then have "bufferLen (update [0] s) = (if bufferLen s = 63 then 0 else bufferLen s + 1)"
    by (simp add: update_one)
  moreover have "(120 - (bufferLen s + 1)) mod 64 < (120 - bufferLen s) mod 64" if "bufferLen s \<noteq> 63"
    using s that by (cases "bufferLen s < 56") (auto simp: mod_if)
  ultimately show "(update [0] s, s) \<in> measure (\<lambda>s. (120 - bufferLen s) mod 64)" by auto
qed simp

declare pad_zeros.simps [simp del]

definition hex2l :: "u8 \<Rightarrow> string" where
  "hex2l b = (let digit = (\<lambda>d :: u8. if d < 10 then char_of (48 + unat d) else char_of (87 + unat d))
     in [digit (drop_bit 4 b), digit (b AND 0xF)])"

definition finalize :: "Sha256 \<Rightarrow> string \<times> Sha256" where
  "finalize s =
     (let bitLen = totalLen s * 8;
          s = update [0x80] s;
          s = pad_zeros s;
          s = update (writeBE64 bitLen) s;
          hex = concat (map (\<lambda>v. concat (map hex2l (writeBE32 v))) (sh_state s))
      in (hex, s\<lparr>sh_state := init_state, bufferLen := 0, totalLen := 0\<rparr>))"

definition bufferDigest :: "u8 list \<Rightarrow> u8 list \<Rightarrow> string" where
  "bufferDigest u data = fst (finalize (update data (Sha256_new u)))"

text \<open>A file is read in pieces of 4096 bytes.\<close>

function pieces :: "nat \<Rightarrow> 'a list \<Rightarrow> 'a list list" where
  "pieces n xs = (if xs = [] \<or> n = 0 then [] else take n xs # pieces n (drop n xs))"
  by pat_completeness auto
termination by (relation "measure (\<lambda>(_, xs). length xs)") auto

declare pieces.simps [simp del]

definition fileDigest :: "u8 list \<Rightarrow> (string \<Rightarrow> u8 list option) \<Rightarrow> string \<Rightarrow> string" where
  "fileDigest u fs path = (case fs path of None \<Rightarrow> ''''
     | Some content \<Rightarrow> fst (finalize (fold update (pieces 4096 content) (Sha256_new u))))"

section \<open>The standard\<close>

text \<open>\<open>w\<close> is the first 32 bits of the fractional part of the \<open>k\<close>-th root of \<open>p\<close>, whose integer
  part is \<open>r\<close>: together they are the root, rounded down to a multiple of \<open>2 ^ -32\<close>.\<close>

definition root_fraction :: "nat \<Rightarrow> nat \<times> nat \<times> u32 \<Rightarrow> bool" where
  "root_fraction k e = (case e of (p, r, w) \<Rightarrow> r ^ k \<le> p \<and> p < (r + 1) ^ k \<and>
     (2 ^ 32 * r + unat w) ^ k \<le> p * 2 ^ (32 * k) \<and> p * 2 ^ (32 * k) < (2 ^ 32 * r + unat w + 1) ^ k)"

definition spec_Sigma0 :: "u32 \<Rightarrow> u32" where
  "spec_Sigma0 x = word_rotr 2 x XOR word_rotr 13 x XOR word_rotr 22 x"
definition spec_Sigma1 :: "u32 \<Rightarrow> u32" where
  "spec_Sigma1 x = word_rotr 6 x XOR word_rotr 11 x XOR word_rotr 25 x"
definition spec_sigma0 :: "u32 \<Rightarrow> u32" where
  "spec_sigma0 x = word_rotr 7 x XOR word_rotr 18 x XOR drop_bit 3 x"
definition spec_sigma1 :: "u32 \<Rightarrow> u32" where
  "spec_sigma1 x = word_rotr 17 x XOR word_rotr 19 x XOR drop_bit 10 x"

fun W :: "u8 list \<Rightarrow> nat \<Rightarrow> u32" where
  "W block t =
     (if t < 16 then readBE32 block (4 * t)
      else spec_sigma1 (W block (t - 2)) + W block (t - 7) + spec_sigma0 (W block (t - 15)) + W block (t - 16))"

declare W.simps [simp del]

fun rounds :: "u8 list \<Rightarrow> nat \<Rightarrow> regs \<Rightarrow> regs" where
  "rounds block 0 r = r"
| "rounds block (Suc t) r =
     (case rounds block t r of (a, b, c, d, e, f, g, h) \<Rightarrow>
        let T1 = h + spec_Sigma1 e + ch e f g + SHA_K ! t + W block t; T2 = spec_Sigma0 a + maj a b c
        in (T1 + T2, a, b, c, d + T1, e, f, g))"

definition compress :: "u8 list \<Rightarrow> u32 list \<Rightarrow> u32 list" where
  "compress block H =
     (case rounds block 64 (H ! 0, H ! 1, H ! 2, H ! 3, H ! 4, H ! 5, H ! 6, H ! 7) of
        (a, b, c, d, e, f, g, h) \<Rightarrow> map2 (+) H [a, b, c, d, e, f, g, h])"

definition big_endian :: "nat \<Rightarrow> nat \<Rightarrow> u8 list" where
  "big_endian k n = map (\<lambda>i. word_of_nat (n div 256 ^ (k - 1 - i))) [0..<k]"

definition sha_pad :: "u8 list \<Rightarrow> u8 list" where
  "sha_pad msg = msg @ [0x80] @ replicate ((119 - length msg mod 64) mod 64) 0 @ big_endian 8 (8 * length msg)"

definition sha256 :: "u8 list \<Rightarrow> u32 list" where
  "sha256 msg = fold compress (pieces 64 (sha_pad msg)) init_state"

section \<open>The code computes the standard\<close>

subsection \<open>One block\<close>

lemma rotr_rotates: "n < 32 \<Longrightarrow> 0 < n \<Longrightarrow> rotr x n = word_rotr n x"
proof (rule bit_word_eqI)
  fix m assume n: "n < 32" "0 < n" and m: "m < LENGTH(32)"
  then have "(m + n) mod 32 = (if m + n < 32 then m + n else m + n - 32)" by (simp add: mod_if)
  then show "bit (rotr x n) m \<longleftrightarrow> bit (word_rotr n x) m"
    using n m by (auto simp: rotr_def bit_simps bit_word_rotr_iff add.commute [of n m] dest: bit_imp_le_length)
qed

lemma sigma_spec:
  "Sigma0 x = spec_Sigma0 x" "Sigma1 x = spec_Sigma1 x" "gamma0 x = spec_sigma0 x" "gamma1 x = spec_sigma1 x"
  by (simp_all add: Sigma0_def Sigma1_def gamma0_def gamma1_def spec_Sigma0_def spec_Sigma1_def
      spec_sigma0_def spec_sigma1_def rotr_rotates)

lemma schedule_spec: "schedule block = map (W block) [0..<64]"
proof -
  let ?step = "\<lambda>i w. w @ [gamma1 (w ! (i - 2)) + w ! (i - 7) + gamma0 (w ! (i - 15)) + w ! (i - 16)]"
  have step: "fold ?step [16..<16 + k] (map (W block) [0..<16]) = map (W block) [0..<16 + k]" for k
  proof (induction k)
    case (Suc k)
    have "W block (16 + k) = gamma1 (W block (16 + k - 2)) + W block (16 + k - 7) +
        gamma0 (W block (16 + k - 15)) + W block (16 + k - 16)"
      by (subst W.simps) (simp add: sigma_spec)
    moreover have "[16..<16 + Suc k] = [16..<16 + k] @ [16 + k]" "[0..<16 + Suc k] = [0..<16 + k] @ [16 + k]"
      unfolding add_Suc_right by (simp_all only: upt_Suc_append le_add1 zero_le)
    ultimately show ?case using Suc by simp
  qed simp
  have "(16 :: nat) + 48 = 64" by simp
  then have "fold ?step [16..<64] (map (W block) [0..<16]) = map (W block) [0..<64]"
    using step [of 48] by (simp only:)
  moreover have "map (W block) [0..<16] = map (\<lambda>i. readBE32 block (i * 4)) [0..<16]"
    by (rule map_cong [OF refl]) (simp add: W.simps mult.commute)
  ultimately show ?thesis by (simp only: schedule_def)
qed

lemma rounds_spec: "t \<le> 64 \<Longrightarrow> fold (sha_round (schedule block)) [0..<t] r = rounds block t r"
  by (induction t) (auto simp: sha_round_def sha_step_def schedule_spec sigma_spec Let_def split: prod.split)

lemma transform_spec:
  assumes "length st = 8"
  shows "transform block st = compress block st"
proof -
  obtain a b c d e f g h where r: "rounds block 64 (st ! 0, st ! 1, st ! 2, st ! 3, st ! 4, st ! 5, st ! 6, st ! 7) =
      (a, b, c, d, e, f, g, h)"
    by (cases "rounds block 64 (st ! 0, st ! 1, st ! 2, st ! 3, st ! 4, st ! 5, st ! 6, st ! 7)") auto
  obtain s0 s1 s2 s3 s4 s5 s6 s7 where "st = [s0, s1, s2, s3, s4, s5, s6, s7]"
    using assms by (auto simp: length_Suc_conv eval_nat_numeral)
  then have "map2 (+) st [a, b, c, d, e, f, g, h] =
      [st ! 0 + a, st ! 1 + b, st ! 2 + c, st ! 3 + d, st ! 4 + e, st ! 5 + f, st ! 6 + g, st ! 7 + h]"
    by (simp add: eval_nat_numeral)
  then show ?thesis unfolding transform_def transform_rounds_def compress_def Let_def rounds_spec [OF order_refl] r prod.case by simp
qed

lemma length_transform [simp]: "length (transform block st) = 8"
  by (simp add: transform_def transform_rounds_def Let_def split: prod.split)

subsection \<open>The buffer\<close>

lemma pieces_append:
  "n dvd length xs \<Longrightarrow> 0 < n \<Longrightarrow> pieces n (xs @ ys) = pieces n xs @ pieces n ys"
proof (induction n xs rule: pieces.induct)
  case (1 n xs)
  show ?case
  proof (cases "xs = []")
    case True then show ?thesis by (simp add: pieces.simps)
  next
    case False
    then have n: "n \<le> length xs" using 1 by (auto intro: dvd_imp_le)
    then have "n dvd length (drop n xs)" using 1 by (simp add: dvd_diff_nat)
    then have "pieces n (drop n xs @ ys) = pieces n (drop n xs) @ pieces n ys" using 1 False by simp
    then show ?thesis using n False 1 by (simp add: pieces.simps [of n "xs @ ys"] pieces.simps [of n xs])
  qed
qed

lemma pieces_one: "length b = n \<Longrightarrow> 0 < n \<Longrightarrow> pieces n b = [b]"
  by (subst pieces.simps) (auto simp: pieces.simps)

lemma concat_pieces: "0 < n \<Longrightarrow> concat (pieces n xs) = xs"
  by (induction n xs rule: pieces.induct) (subst pieces.simps, simp)

text \<open>The state after the bytes \<open>D\<close>: whole blocks are hashed, the rest waits in the buffer.\<close>

definition taken :: "Sha256 \<Rightarrow> u8 list \<Rightarrow> bool" where
  "taken s D \<longleftrightarrow> (\<exists>A R. D = A @ R \<and> 64 dvd length A \<and> length R = bufferLen s \<and> bufferLen s < 64 \<and>
     length (sh_buffer s) = 64 \<and> take (bufferLen s) (sh_buffer s) = R \<and>
     length (sh_state s) = 8 \<and> sh_state s = fold compress (pieces 64 A) init_state)"

lemma taken_new: "length u = 64 \<Longrightarrow> taken (Sha256_new u) []"
  by (simp add: taken_def Sha256_new_def init_state_def square_roots_def pieces.simps)

lemma taken_update_loop: "taken s D \<Longrightarrow> taken (update_loop data s) (D @ data)"
proof (induction data s arbitrary: D rule: update_loop.induct)
  case (1 data s)
  from 1(2) obtain A R where D: "D = A @ R" "64 dvd length A" "length R = bufferLen s" "bufferLen s < 64"
      "length (sh_buffer s) = 64" "take (bufferLen s) (sh_buffer s) = R" "length (sh_state s) = 8"
      "sh_state s = fold compress (pieces 64 A) init_state"
    unfolding taken_def by blast
  show ?case
  proof (cases "data = []")
    case True then show ?thesis using 1(2) by (simp add: update_loop.simps)
  next
    case False
    define n where "n = min (length data) (64 - bufferLen s)"
    define s1 where "s1 = s\<lparr>sh_buffer := take (bufferLen s) (sh_buffer s) @ take n data @
        drop (bufferLen s + n) (sh_buffer s), bufferLen := bufferLen s + n\<rparr>"
    define s2 where "s2 = (if bufferLen s1 = 64
        then s1\<lparr>sh_state := transform (sh_buffer s1) (sh_state s1), bufferLen := 0\<rparr> else s1)"
    have n: "n \<le> length data" "bufferLen s + n \<le> 64" using D(4) by (auto simp: n_def)
    have s1: "length (sh_buffer s1) = 64" "take (bufferLen s1) (sh_buffer s1) = R @ take n data"
        "bufferLen s1 = bufferLen s + n" "sh_state s1 = sh_state s"
      using n D by (simp_all add: s1_def)
    have "taken s2 (D @ take n data)"
    proof (cases "bufferLen s1 = 64")
      case True
      then have b: "sh_buffer s1 = R @ take n data" using s1(1,2) by simp
      then have "pieces 64 (A @ sh_buffer s1) = pieces 64 A @ [sh_buffer s1]"
        using pieces_append [OF D(2)] pieces_one [OF s1(1)] by simp
      then have "sh_state s2 = fold compress (pieces 64 (A @ sh_buffer s1)) init_state"
        using True s1 D(7,8) by (simp add: s2_def transform_spec)
      moreover have "length (sh_state s2) = 8" using True by (simp add: s2_def)
      ultimately have st: "sh_state s2 = fold compress (pieces 64 (A @ sh_buffer s1)) init_state"
          "length (fold compress (pieces 64 (A @ sh_buffer s1)) init_state) = 8" by simp_all
      moreover have "64 dvd length (A @ sh_buffer s1)" using D(2) s1(1) by simp
      ultimately show ?thesis
        using True s1(1) D(1) b by (auto simp: taken_def s2_def intro!: exI [of _ "A @ sh_buffer s1"])
    next
      case False
      then show ?thesis
        using s1 n D by (auto simp: taken_def s2_def intro!: exI [of _ A])
    qed
    moreover have "update_loop data s = update_loop (drop n data) s2"
      using False D(4) by (subst update_loop.simps) (simp add: Let_def n_def s1_def s2_def)
    ultimately show ?thesis
      using 1(1) [OF _ refl n_def s1_def s2_def, of "D @ take n data"] False D(4) by simp
  qed
qed

text \<open>The constants are those of the standard.\<close>

lemma sha_constants:
  "list_all (root_fraction 3) cube_roots" "list_all (root_fraction 2) square_roots"
  "map fst cube_roots = [p \<leftarrow> [2..<312]. list_all (\<lambda>d. \<not> d dvd p) [2..<18] \<or> p \<in> {2, 3, 5, 7, 11, 13, 17}]"
  by (simp_all add: root_fraction_def cube_roots_def square_roots_def upt_conv_Cons) (simp_all flip: numeral_2_eq_2)

lemma low_byte: "(ucast ((v :: u64) AND 0xFF) :: u8) = ucast v"
proof -
  have "v AND 0xFF = take_bit 8 v" by (simp add: take_bit_eq_mask mask_eq_exp_minus_1)
  then show ?thesis by (intro bit_word_eqI) (simp add: bit_simps)
qed

lemma totalLen_loop [simp]: "totalLen (update_loop data s) = totalLen s"
  by (induction data s rule: update_loop.induct) (subst update_loop.simps, simp add: Let_def)

lemma taken_update:
  assumes "taken s D" "totalLen s = word_of_nat (length D)"
  shows "taken (update data s) (D @ data)" "totalLen (update data s) = word_of_nat (length (D @ data))"
proof -
  have "taken (s\<lparr>totalLen := totalLen s + word_of_nat (length data)\<rparr>) D" using assms(1) by (simp add: taken_def)
  then show "taken (update data s) (D @ data)" unfolding update_def by (rule taken_update_loop)
  show "totalLen (update data s) = word_of_nat (length (D @ data))" using assms(2) by (simp add: update_def)
qed

lemma taken_chunks:
  assumes "taken s D" "totalLen s = word_of_nat (length D)"
  shows "taken (fold update chunks s) (D @ concat chunks) \<and>
    totalLen (fold update chunks s) = word_of_nat (length (D @ concat chunks))"
  using assms
proof (induction chunks arbitrary: s D)
  case Nil then show ?case by simp
next
  case (Cons c chunks)
  from Cons.IH [OF taken_update [OF Cons.prems, of c]] show ?case by simp
qed

lemma taken_bufferLen: "taken s D \<Longrightarrow> bufferLen s = length D mod 64"
  by (auto simp: taken_def elim!: dvdE)

lemma taken_pad:
  "taken s D \<Longrightarrow> taken (pad_zeros s) (D @ replicate ((120 - length D mod 64) mod 64) 0)"
proof (induction s arbitrary: D rule: pad_zeros.induct)
  case (1 s)
  have bl: "bufferLen s = length D mod 64" using 1(2) by (rule taken_bufferLen)
  show ?case
  proof (cases "bufferLen s = 56 \<or> 64 \<le> bufferLen s")
    case True
    then have "bufferLen s = 56" using bl by (auto simp: mod_less_divisor not_le [symmetric])
    then show ?thesis using 1(2) bl by (simp add: pad_zeros.simps)
  next
    case False
    have "taken (update [0] s) (D @ [0])"
      unfolding update_def by (rule taken_update_loop) (use 1(2) in \<open>simp add: taken_def\<close>)
    from 1(1) [OF False this] have "taken (pad_zeros s) (D @ replicate (Suc ((120 - Suc (length D) mod 64) mod 64)) 0)"
      using False by (simp add: pad_zeros.simps [of s])
    moreover have "Suc ((120 - Suc (length D) mod 64) mod 64) = (120 - length D mod 64) mod 64"
    proof -
      have "list_all (\<lambda>b. b = 56 \<or> Suc ((120 - (if Suc b = 64 then 0 else Suc b)) mod 64) = (120 - b) mod 64) [0..<64]"
        by code_simp
      moreover have "length D mod 64 < 64" "length D mod 64 \<noteq> 56" using False bl by simp_all
      ultimately show ?thesis unfolding mod_Suc list_all_iff by (metis atLeastLessThan_iff set_upt zero_le)
    qed
    ultimately show ?thesis by simp
  qed
qed

lemma byte_of_word: "ucast (drop_bit k v) = (word_of_nat (unat (v :: 'a::len word) div 2 ^ k) :: u8)"
  by (rule bit_word_eqI) (simp add: bit_simps drop_bit_eq_div [symmetric])

lemma byte_of_number:
  "k + 8 \<le> 64 \<Longrightarrow> ucast (drop_bit k (word_of_nat n :: u64)) = (word_of_nat (n div 2 ^ k) :: u8)"
  by (rule bit_word_eqI) (auto simp: bit_simps drop_bit_eq_div [symmetric])

lemma writeBE64_spec: "writeBE64 (word_of_nat n) = big_endian 8 n"
  using byte_of_number [of 0 n] byte_of_number [of 8 n] byte_of_number [of 16 n] byte_of_number [of 24 n]
    byte_of_number [of 32 n] byte_of_number [of 40 n] byte_of_number [of 48 n] byte_of_number [of 56 n]
  by (simp add: writeBE64_def big_endian_def low_byte upt_conv_Cons)

lemma writeBE32_spec: "writeBE32 v = big_endian 4 (unat v)"
  using byte_of_word [of 0 v] byte_of_word [of 8 v] byte_of_word [of 16 v] byte_of_word [of 24 v]
  by (simp add: writeBE32_def big_endian_def upt_conv_Cons)

subsection \<open>A message\<close>

definition digest_text :: "u32 list \<Rightarrow> string" where
  "digest_text H = concat (map hex2l (concat (map (\<lambda>v. big_endian 4 (unat v)) H)))"

lemma hex_digest: "concat (map (\<lambda>v. concat (map hex2l (writeBE32 v))) H) = digest_text H"
  by (induction H) (simp_all add: digest_text_def writeBE32_spec)

lemma taken_whole:
  assumes "taken s D" "64 dvd length D"
  shows "sh_state s = fold compress (pieces 64 D) init_state"
proof -
  from assms(1) obtain A R where A: "D = A @ R" "64 dvd length A" "length R = bufferLen s" "bufferLen s < 64"
      "sh_state s = fold compress (pieces 64 A) init_state"
    unfolding taken_def by blast
  have "64 dvd length R" using assms(2) A(1,2) by (simp add: dvd_add_right_iff)
  then have "R = []" using A(3,4) by (auto dest: dvd_imp_le)
  then show ?thesis using A(1,5) by simp
qed

lemma length_sha_pad: "64 dvd length (sha_pad msg)"
proof -
  have "list_all (\<lambda>b. (b + 1 + (119 - b) mod 64 + 8) mod 64 = 0) [0..<64]" by code_simp
  then have "(length msg mod 64 + 1 + (119 - length msg mod 64) mod 64 + 8) mod 64 = 0"
    unfolding list_all_iff by (metis atLeastLessThan_iff mod_less_divisor set_upt zero_le zero_less_numeral)
  then have "(length msg + (1 + (119 - length msg mod 64) mod 64 + 8)) mod 64 = 0"
    by (simp only: mod_add_left_eq [of "length msg", symmetric] add.assoc)
  moreover have "length (sha_pad msg) = length msg + (1 + (119 - length msg mod 64) mod 64 + 8)"
    by (simp add: sha_pad_def big_endian_def)
  ultimately show ?thesis by (simp only: dvd_eq_mod_eq_0)
qed

lemma finalize_taken:
  assumes "taken s msg" "totalLen s = word_of_nat (length msg)"
  shows "fst (finalize s) = digest_text (sha256 msg)"
proof -
  define s1 where "s1 = update [0x80] s"
  define s2 where "s2 = pad_zeros s1"
  have t1: "taken s1 (msg @ [0x80])" using taken_update(1) [OF assms] by (simp add: s1_def)
  have b: "length (msg @ [0x80 :: u8]) mod 64 = (if length msg mod 64 = 63 then 0 else length msg mod 64 + 1)"
    by (simp add: mod_Suc)
  have "list_all (\<lambda>b. (120 - (if b = 63 then 0 else b + 1)) mod 64 = (119 - b) mod 64) [0..<64 :: nat]" by code_simp
  then have "(120 - length (msg @ [0x80 :: u8]) mod 64) mod 64 = (119 - length msg mod 64) mod 64"
    unfolding b list_all_iff by (metis atLeastLessThan_iff mod_less_divisor set_upt zero_le zero_less_numeral)
  then have t2: "taken s2 (msg @ [0x80] @ replicate ((119 - length msg mod 64) mod 64) 0)"
    using taken_pad [OF t1] by (simp add: s2_def)
  have "taken (update (writeBE64 (totalLen s * 8)) s2) (sha_pad msg)"
  proof -
    have "totalLen s * 8 = word_of_nat (8 * length msg)" using assms(2) by (simp add: mult.commute)
    then have len: "writeBE64 (totalLen s * 8) = big_endian 8 (8 * length msg)" by (simp only: writeBE64_spec)
    have "taken (s2\<lparr>totalLen := t\<rparr>) (msg @ [0x80] @ replicate ((119 - length msg mod 64) mod 64) 0)" for t
      using t2 by (simp add: taken_def)
    then show ?thesis unfolding update_def len using taken_update_loop by (fastforce simp: sha_pad_def)
  qed
  from taken_whole [OF this length_sha_pad] show ?thesis
    by (simp add: finalize_def Let_def hex_digest sha256_def s1_def s2_def)
qed

text \<open>C15: ROM identity: in whatever pieces a message is entered, the digest is the SHA-256 of FIPS 180-4
  (whose constants are checked against the roots of the primes) of the whole message; the digest of a
  file is that of its contents, and a file that cannot be opened has the empty digest.\<close>

theorem digest_is_sha256:
  assumes "length u = 64"
  shows "fst (finalize (fold update chunks (Sha256_new u))) = digest_text (sha256 (concat chunks)) \<and>
    fileDigest u fs path = (case fs path of None \<Rightarrow> '''' | Some content \<Rightarrow> digest_text (sha256 content)) \<and>
    bufferDigest u data = digest_text (sha256 data)"
proof -
  have digest: "fst (finalize (fold update cs (Sha256_new u))) = digest_text (sha256 (concat cs))" for cs
    using taken_chunks [OF taken_new [OF assms], of cs] finalize_taken [of "fold update cs (Sha256_new u)"]
    by (simp add: Sha256_new_def)
  show ?thesis
    using digest [of chunks] digest [of "[data]"] digest [of "pieces 4096 _"]
    by (simp add: fileDigest_def bufferDigest_def concat_pieces split: option.split)
qed

theorem digest_is_sha256_witness:
  "fst (finalize (fold update [[0x61], [], [0x62, 0x63]] (Sha256_new (replicate 64 0)))) =
     digest_text (sha256 [0x61, 0x62, 0x63])"
  using digest_is_sha256 [of "replicate 64 0" "[[0x61], [], [0x62, 0x63]]" Map.empty "''''" "[]"] by simp


end
