(* ===== verification/Screen_Map.thy ===== *)
theory Screen_Map
  imports Filler "HOL-Library.Signed_Division"
begin

text \<open>
  The mapping between the screen and the video memory that the debugger's screen window uses
  (\<^verbatim>\<open>vram_mapping.h\<close>, \<^verbatim>\<open>vram_mapping.cpp\<close>), and its comparison with what the raster reads.
  Coordinates are \<^verbatim>\<open>int\<close>; a division by zero is \<open>Undefined\<close>.
\<close>

record VideoInfo =
  vi_mode512 :: bool
  vi_screenWidth :: int
  vi_screenHeight :: int
  visibleWidth :: int
  visibleHeight :: int
  borderLeft :: int
  borderTop :: int
  scrollValue :: int
  vramBase :: u16
  pixelsPerByte :: int

record VramResult =
  vr_addresses :: "u16 \<times> u16"
  vr_count :: int

record ScreenPos =
  sp_x :: int
  sp_y :: int
  sp_valid :: bool

definition screenToVram :: "int \<Rightarrow> int \<Rightarrow> VideoInfo \<Rightarrow> VramResult res" where
  "screenToVram bufX bufY video =
     (let visLeft = borderLeft video; visRight = borderLeft video + visibleWidth video;
          visTop = borderTop video; visBottom = borderTop video + visibleHeight video
      in if bufX < visLeft \<or> visRight \<le> bufX \<or> bufY < visTop \<or> visBottom \<le> bufY
         then Inr \<lparr>vr_addresses = (0, 0), vr_count = 0\<rparr>
         else let visibleX = bufX - visLeft; visibleLine = bufY - visTop;
                  vramRow = (scrollValue video + visibleLine) AND 0xFF
           in if pixelsPerByte video = 0 then Inl Undefined
              else let vramCol = visibleX sdiv pixelsPerByte video;
                       addr = word_of_int (uint (vramBase video) + vramCol * 256 + vramRow)
                in Inr \<lparr>vr_addresses = (addr, 0), vr_count = 1\<rparr>)"

definition vramToScreen :: "u16 \<Rightarrow> VideoInfo \<Rightarrow> ScreenPos" where
  "vramToScreen vramAddr video =
     (if vramAddr < vramBase video then \<lparr>sp_x = 0, sp_y = 0, sp_valid = False\<rparr>
      else let offset = uint vramAddr - uint (vramBase video);
               vramCol = offset div 256; vramRow = offset mod 256;
               visibleLine = (vramRow - scrollValue video) AND 0xFF;
               maxCol = (if vi_mode512 video then 128 else 32)
        in if maxCol \<le> vramCol then \<lparr>sp_x = 0, sp_y = 0, sp_valid = False\<rparr>
           else \<lparr>sp_x = vramCol * pixelsPerByte video, sp_y = visibleLine, sp_valid = True\<rparr>)"

definition fromVideoMode ::
  "bool \<Rightarrow> int \<Rightarrow> int \<Rightarrow> int \<Rightarrow> int \<Rightarrow> int \<Rightarrow> int \<Rightarrow> int \<Rightarrow> u16 \<Rightarrow> int \<Rightarrow> VideoInfo" where
  "fromVideoMode m512 screenWidth screenHeight visWidth visHeight lborder tborder scroll base ppb =
     \<lparr>vi_mode512 = m512, vi_screenWidth = screenWidth, vi_screenHeight = screenHeight,
      visibleWidth = visWidth, visibleHeight = visHeight, borderLeft = lborder, borderTop = tborder,
      scrollValue = scroll, vramBase = base, pixelsPerByte = ppb\<rparr>"

text \<open>The window calls it with the 512 by 256 visible area of the frame buffer and 16 pixels a byte in
  the 256-pixel mode.\<close>

definition window_video :: "u8 \<Rightarrow> VideoInfo" where
  "window_video scroll = fromVideoMode False 576 288 512 256 32 16 (uint scroll) 0xC000 16"

lemma and_255: "(x :: int) AND 0xFF = x mod 256"
  using take_bit_eq_mask [of 8 x] by (simp add: take_bit_eq_mod mask_eq_exp_minus_1)

lemma screenToVram_window:
  assumes "0 \<le> x" "x < 512" "0 \<le> y" "y < 256"
  shows "screenToVram (32 + x) (16 + y) (window_video s) =
    Inr \<lparr>vr_addresses = (0xC000 + word_of_int (256 * (x div 16) + (uint s + y) mod 256), 0), vr_count = 1\<rparr>"
proof -
  have "x sdiv 16 = x div 16" using assms(1) by (cases "x = 0") (simp_all add: signed_divide_int_def)
  moreover have "word_of_int (49152 + q * 256 + r) = (0xC000 :: u16) + word_of_int (256 * q + r)" for q r
  proof -
    have "word_of_int (49152 + (256 * q + r)) = (0xC000 :: u16) + word_of_int (256 * q + r)"
      by (subst wi_hom_add [symmetric]) simp
    then show ?thesis by (simp only: mult.commute add.assoc)
  qed
  ultimately show ?thesis
    using assms by (simp add: screenToVram_def window_video_def fromVideoMode_def Let_def and_255)
qed

text \<open>The two directions are inverse: the position shown for an address is the first pixel of its byte.\<close>

lemma screen_vram_inverse:
  assumes "0 \<le> x" "x < 512" "0 \<le> y" "y < 256"
  shows "vramToScreen (0xC000 + word_of_int (256 * (x div 16) + (uint s + y) mod 256)) (window_video s) =
    \<lparr>sp_x = 16 * (x div 16), sp_y = y, sp_valid = True\<rparr>"
proof -
  define o' where "o' = 256 * (x div 16) + (uint s + y) mod 256"
  have r: "0 \<le> (uint s + y) mod 256" "(uint s + y) mod 256 < 256" by simp_all
  have q: "0 \<le> x div 16" "x div 16 \<le> 31" using assms(1,2) by auto
  have o': "0 \<le> o'" "o' < 8192" "o' div 256 = x div 16" "o' mod 256 = (uint s + y) mod 256"
    using assms r q by (auto simp: o'_def)
  have u: "uint (0xC000 + word_of_int o' :: u16) = 0xC000 + o'"
    using o'(1,2) by (simp add: uint_word_ariths unsigned_of_int take_bit_eq_mod)
  have "\<not> 0xC000 + word_of_int o' < (0xC000 :: u16)" using u o'(1) by (simp add: word_less_def)
  moreover have "((uint s + y) mod 256 - uint s) mod 256 = y" using assms by (simp add: mod_simps)
  ultimately show ?thesis
    using o' u assms unfolding o'_def [symmetric]
    by (simp add: vramToScreen_def window_video_def fromVideoMode_def Let_def and_255 mult.commute)
qed

section \<open>What the raster reads\<close>

text \<open>The row of a visible line.  The scroll register is loaded in the first visible line, number 40;
  every further line goes one row down.\<close>

lemma advance_row:
  assumes "40 \<le> raster_line f" "raster_line f < 295" "\<not> vborder f" "0 \<le> fb_row f" "fb_row f < 256"
  shows "raster_line (advanceLine u f) = raster_line f + 1" "\<not> vborder (advanceLine u f)"
    "fb_row (advanceLine u f) = (fb_row f - 1) mod 256"
proof -
  have "(fb_row f - 1) mod 256 = (if fb_row f = 0 then 255 else fb_row f - 1)" using assms(4,5) by auto
  then show "raster_line (advanceLine u f) = raster_line f + 1" "\<not> vborder (advanceLine u f)"
    "fb_row (advanceLine u f) = (fb_row f - 1) mod 256"
    using assms by (auto simp: advanceLine_def Let_def)
qed

lemma rows_of_lines:
  assumes "raster_line f = 40" "\<not> vborder f" "0 \<le> fb_row f" "fb_row f < 256" "n < 256"
  shows "raster_line ((advanceLine u ^^ n) f) = 40 + int n \<and> \<not> vborder ((advanceLine u ^^ n) f) \<and>
    fb_row ((advanceLine u ^^ n) f) = (fb_row f - int n) mod 256"
  using assms(5)
proof (induction n)
  case 0 then show ?case using assms by simp
next
  case (Suc n)
  let ?g = "(advanceLine u ^^ n) f"
  from Suc have g: "raster_line ?g = 40 + int n" "\<not> vborder ?g" "fb_row ?g = (fb_row f - int n) mod 256" by auto
  then show ?case using advance_row [of ?g u] Suc.prems by (auto simp: mod_diff_left_eq algebra_simps)
qed

text \<open>C40: Screen to memory: let the beam be in the first visible line with the scroll register loaded.  The
  raster draws the line \<open>n\<close> lines below from row \<open>scroll - n\<close> of the video memory, while the debugger
  gives for a pixel of that line an address in row \<open>scroll + n\<close>: only the first visible line and line
  128 are mapped to the memory they are drawn from.\<close>

theorem mouse_address_is_mirrored:
  assumes "raster_line f = 40" "\<not> vborder f" "fb_row f = ScrollStart io" "n < 256" "0 \<le> x" "x < 512"
  shows "screenToVram (32 + x) (16 + int n) (window_video (io_PA io)) =
      Inr \<lparr>vr_addresses = (0xC000 + word_of_int (256 * (x div 16) + (ScrollStart io + int n) mod 256), 0),
        vr_count = 1\<rparr> \<and>
    fb_row ((advanceLine u ^^ n) f) = (ScrollStart io - int n) mod 256 \<and>
    (fb_row ((advanceLine u ^^ n) f) = (ScrollStart io + int n) mod 256 \<longleftrightarrow> n = 0 \<or> n = 128)"
proof -
  have row: "fb_row ((advanceLine u ^^ n) f) = (ScrollStart io - int n) mod 256"
    using rows_of_lines [of f n u] assms(1-4) uint_lt2p [of "io_PA io"] by (simp add: ScrollStart_def)
  have "(s - int n) mod 256 = (s + int n) mod 256 \<longleftrightarrow> n = 0 \<or> n = 128" for s
  proof -
    have "(s - int n) mod 256 = (s + int n) mod 256 \<longleftrightarrow> 256 dvd (s + int n) - (s - int n)"
      by (metis mod_eq_dvd_iff)
    also have "\<dots> \<longleftrightarrow> 128 dvd int n" by presburger
    also have "\<dots> \<longleftrightarrow> n = 0 \<or> n = 128" using assms(4) by presburger
    finally show ?thesis .
  qed
  then show ?thesis
    using screenToVram_window [of x "int n" "io_PA io"] assms(4-6) row by (simp add: ScrollStart_def)
qed

theorem mouse_address_is_mirrored_witness:
  "screenToVram (32 + 100) (16 + int 10) (window_video (io_PA vid_io)) =
      Inr \<lparr>vr_addresses = (0xC000 + word_of_int (256 * (100 div 16) + (255 + int 10) mod 256), 0), vr_count = 1\<rparr> \<and>
    fb_row ((advanceLine True ^^ 10) (filler_zero\<lparr>raster_line := 40, vborder := False, fb_row := 255\<rparr>)) =
      (255 - int 10) mod 256"
proof -
  have "ScrollStart vid_io = 255" by (simp add: ScrollStart_def vid_io_def install_callbacks_def IO_new_def)
  then show ?thesis
    using mouse_address_is_mirrored [of "filler_zero\<lparr>raster_line := 40, vborder := False, fb_row := 255\<rparr>" vid_io 10 100 True]
    by simp
qed

end
