(* ===== verification/Fsimage.thy ===== *)
theory Fsimage
  imports Map_Loader
begin

text \<open>
  The floppy image made from a local directory (\<^verbatim>\<open>fsimage.h\<close>, \<^verbatim>\<open>fsimage.cpp\<close>, and the path
  functions of \<^verbatim>\<open>util.cpp\<close>).  The bytes are a function; the directory, 128 entries of 32 bytes
  from 0xA000, lies inside them in every image the program makes (\<open>MAX_FS_BYTES\<close>).  Sizes that only
  count down and are compared with zero are natural numbers.  \<^verbatim>\<open>std::out_of_range\<close> and
  \<^verbatim>\<open>std::length_error\<close> are \<open>Out_of_range\<close>; an index past the end of a vector is \<open>Undefined\<close>.
  The sections after the code show what a sector and a chain of clusters hold after a write, which
  directory entries an allocation writes (\<open>extents\<close>), and that the search for a free name ends;
  the properties follow from them.
\<close>

section \<open>The code\<close>

subsection \<open>Paths\<close>

definition upper_char :: "char \<Rightarrow> char" where
  "upper_char c = (if CHR ''a'' \<le> c \<and> c \<le> CHR ''z'' then char_of (of_char c - 32 :: nat) else c)"

definition str_toupper :: "string \<Rightarrow> string" where
  "str_toupper s = map upper_char s"

definition rtrim :: "string \<Rightarrow> string" where
  "rtrim s = rev (dropWhile isspace (rev s))"

definition is_separator :: "char \<Rightarrow> bool" where
  "is_separator c \<longleftrightarrow> c = CHR ''/'' \<or> c = CHR 0x5C"

definition split_path :: "string \<Rightarrow> string \<times> string \<times> string" where
  "split_path path =
     (let name = rev (takeWhile (\<lambda>c. \<not> is_separator c) (rev path));
          dir = rev (dropWhile (\<lambda>c. \<not> is_separator c) (rev path))
      in case rfind_char (CHR ''.'') name of
           None \<Rightarrow> (dir, name, '''')
         | Some dot \<Rightarrow> (dir, take dot name, drop dot name))"

text \<open>\<^verbatim>\<open>substr(pos, n)\<close>.\<close>

definition substr :: "nat \<Rightarrow> nat \<Rightarrow> string \<Rightarrow> string res" where
  "substr pos n s = (if length s < pos then Inl Out_of_range else Inr (take n (drop pos s)))"

subsection \<open>Directory entries\<close>

record MDHeader =
  md_User :: u8
  md_Name :: string
  md_Ext :: string
  md_Extent :: u8
  md_Unknown1 :: u8
  md_Unknown2 :: u8
  md_Records :: u8
  md_FAT :: "u16 list"

definition byte_char :: "u8 \<Rightarrow> char" where "byte_char w = char_of (unat w)"
definition char_byte :: "char \<Rightarrow> u8" where "char_byte c = word_of_nat (of_char c)"

type_synonym image = "nat \<Rightarrow> u8"

definition read_header :: "image \<Rightarrow> nat \<Rightarrow> MDHeader" where
  "read_header b p =
     \<lparr>md_User = b p, md_Name = map (\<lambda>i. byte_char (b (p + 1 + i))) [0..<8],
      md_Ext = map (\<lambda>i. byte_char (b (p + 9 + i))) [0..<3], md_Extent = b (p + 12), md_Unknown1 = b (p + 13),
      md_Unknown2 = b (p + 14), md_Records = b (p + 15),
      md_FAT = map (\<lambda>i. mk16 (b (p + 17 + 2 * i)) (b (p + 16 + 2 * i))) [0..<8]\<rparr>"

definition header_bytes :: "MDHeader \<Rightarrow> u8 list" where
  "header_bytes h =
     [md_User h] @ map char_byte (md_Name h) @ map char_byte (md_Ext h) @
     [md_Extent h, md_Unknown1 h, md_Unknown2 h, md_Records h] @ concat (map (\<lambda>w. [lo8 w, hi8 w]) (md_FAT h))"

definition md_name :: "MDHeader \<Rightarrow> string" where "md_name h = rtrim (md_Name h)"
definition md_ext :: "MDHeader \<Rightarrow> string" where "md_ext h = rtrim (md_Ext h)"

definition field :: "nat \<Rightarrow> string \<Rightarrow> string" where
  "field n s = map upper_char (take n s) @ replicate (n - length s) (CHR 0x20)"

definition init_with_filename :: "string \<Rightarrow> string \<Rightarrow> MDHeader" where
  "init_with_filename stem ext =
     \<lparr>md_User = 0, md_Name = field 8 stem, md_Ext = field 3 ext, md_Extent = 0, md_Unknown1 = 0,
      md_Unknown2 = 0, md_Records = 0, md_FAT = replicate 8 0\<rparr>"

subsection \<open>The image\<close>

record fsimage =
  fs_bytes :: image
  fs_size :: nat
  taken_names :: "string list"

definition MAX_FS_BYTES :: nat where "MAX_FS_BYTES = 860160"

definition FilesystemImage_new :: "nat \<Rightarrow> fsimage" where
  "FilesystemImage_new sz = \<lparr>fs_bytes = (\<lambda>_. 0xE5), fs_size = sz, taken_names = []\<rparr>"

definition put_bytes :: "nat \<Rightarrow> u8 list \<Rightarrow> image \<Rightarrow> image" where
  "put_bytes p xs b = (\<lambda>i. if p \<le> i \<and> i < p + length xs then xs ! (i - p) else b i)"

definition set_data :: "u8 list \<Rightarrow> fsimage \<Rightarrow> fsimage" where
  "set_data data fs =
     fs\<lparr>fs_bytes := put_bytes 0 data
          (if fs_size fs < length data then (\<lambda>i. if i < fs_size fs then fs_bytes fs i else 0) else fs_bytes fs),
        fs_size := max (fs_size fs) (length data)\<rparr>"

definition map_sector :: "nat \<Rightarrow> nat \<times> nat \<times> nat \<Rightarrow> nat option" where
  "map_sector sz ths =
     (case ths of (track, head, sector) \<Rightarrow>
        let offset = track * 1024 * 10 + head * 1024 * (10 div 2) + (sector - 1) * 1024
        in if sz \<le> offset + 1024 then None else Some offset)"

definition cluster_to_ths :: "nat \<Rightarrow> nat \<times> nat \<times> nat" where
  "cluster_to_ths cluster =
     (let track = 8 + cluster div 5 in (track div 2, track mod 2, 1 + cluster mod 5))"

definition slot :: "nat \<Rightarrow> nat" where
  "slot k = 0xA000 + 32 * k"

definition entries :: "image \<Rightarrow> MDHeader list" where
  "entries b = map (\<lambda>k. read_header b (slot k)) [0..<128]"

subsection \<open>Reading\<close>

record Dirent =
  de_header :: "MDHeader option"
  de_chain :: "u16 list"
  de_size :: nat

fun load_chain :: "MDHeader \<Rightarrow> MDHeader list \<Rightarrow> u16 list \<times> nat" where
  "load_chain header [] = ([], 0)"
| "load_chain header (h # hs) =
     (if md_User h < 0x10 \<and> md_name h = md_name header \<and> md_ext h = md_ext header
      then if md_Records h \<noteq> 0x80
           then (md_FAT h, unat (md_Extent h) * 2048 * 8 + unat (md_Records h) * 128)
           else (let (chain, sz) = load_chain header hs in (md_FAT h @ chain, sz))
      else load_chain header hs)"

definition load_dirent :: "MDHeader \<Rightarrow> image \<Rightarrow> Dirent" where
  "load_dirent header b =
     (let (chain, sz) = load_chain header (entries b)
      in \<lparr>de_header = Some header, de_chain = chain, de_size = sz\<rparr>)"

definition find_file :: "string \<Rightarrow> image \<Rightarrow> Dirent" where
  "find_file filename b =
     (let (path, stem, ext) = split_path filename;
          ext = (if 0 < length ext then drop 1 ext else ext);
          proto = init_with_filename stem ext
      in case find (\<lambda>h. md_User h = md_User proto \<and> md_name h = md_name proto \<and> md_ext h = md_ext proto) (entries b) of
           Some h \<Rightarrow> load_dirent h b
         | None \<Rightarrow> \<lparr>de_header = None, de_chain = [], de_size = 0\<rparr>)"

definition listdir :: "image \<Rightarrow> Dirent list" where
  "listdir b = map (\<lambda>h. load_dirent h b) [h \<leftarrow> entries b. md_User h < 0x10 \<and> md_Extent h = 0]"

definition get_bytes :: "image \<Rightarrow> nat \<Rightarrow> nat \<Rightarrow> u8 list" where
  "get_bytes b p n = map (\<lambda>i. b (p + i)) [0..<n]"

text \<open>The bytes the two sectors of a cluster add to a result that lacks \<open>remainder\<close> bytes.\<close>

definition read_cluster :: "fsimage \<Rightarrow> nat \<Rightarrow> nat \<Rightarrow> u8 list" where
  "read_cluster fs clust remainder =
     (case map_sector (fs_size fs) (cluster_to_ths clust) of
        None \<Rightarrow> []
      | Some p0 \<Rightarrow>
          (let d0 = get_bytes (fs_bytes fs) p0 (min 1024 remainder); remainder = remainder - length d0
           in case map_sector (fs_size fs) (cluster_to_ths (clust + 1)) of
                None \<Rightarrow> d0
              | Some p1 \<Rightarrow> d0 @ get_bytes (fs_bytes fs) p1 (min 1024 remainder)))"

fun read_chain :: "fsimage \<Rightarrow> u16 list \<Rightarrow> nat \<Rightarrow> u8 list" where
  "read_chain fs [] remainder = []"
| "read_chain fs (c # cs) remainder =
     (let clust = unat c * 2
      in if clust < 2 then []
         else let d = read_cluster fs clust remainder in d @ read_chain fs cs (remainder - length d))"

definition read_bytes :: "fsimage \<Rightarrow> Dirent \<Rightarrow> u8 list" where
  "read_bytes fs de =
     (let d = read_chain fs (de_chain de) (de_size de) in d @ replicate (de_size de - length d) 0)"

definition read_file :: "string \<Rightarrow> fsimage \<Rightarrow> u8 list" where
  "read_file filename fs =
     (let de = find_file filename (fs_bytes fs) in if de_size de \<noteq> 0 then read_bytes fs de else [])"

subsection \<open>Writing\<close>

definition active :: "MDHeader \<Rightarrow> bool" where
  "active h \<longleftrightarrow> md_User h < 0x10"

definition used_clusters :: "image \<Rightarrow> u16 list" where
  "used_clusters b = concat (map md_FAT [h \<leftarrow> entries b. active h])"

text \<open>The subtraction that checks the free space is unsigned.\<close>

definition build_available_chain :: "nat \<Rightarrow> fsimage \<Rightarrow> u16 list res" where
  "build_available_chain len fs =
     (if fs_size fs < 10 * 1024 * 6 then Inl Out_of_range
      else let maxclust = (fs_size fs - 10 * 1024 * 6) div 2048
        in if maxclust = 0 then Inr []
           else let used = used_clusters (fs_bytes fs); usedcount = length used
             in if \<exists>f \<in> set used. maxclust \<le> unat f then Inl Undefined
                else if (word_of_nat maxclust - word_of_nat usedcount :: 64 word) < word_of_nat len then Inr []
                else let free = [i \<leftarrow> map word_of_nat [2..<maxclust]. i \<notin> set used]
                  in Inr (if len = 0 then free else take len free))"

definition candidate :: "string \<Rightarrow> string \<Rightarrow> string" where
  "candidate stem ext = stem @ ''.'' @ ext"

text \<open>The search for a free name; \<open>fuel\<close> is more than the names that can be taken.\<close>

fun unique_stem :: "nat \<Rightarrow> nat \<Rightarrow> string list \<Rightarrow> string \<Rightarrow> string \<Rightarrow> string" where
  "unique_stem 0 n taken stem ext = stem"
| "unique_stem (Suc fuel) n taken stem ext =
     (if candidate stem ext \<notin> set taken then stem
      else let nc = length (dec n) + 1;
               stem = (if 8 < nc then stem else take (8 - nc) stem) @ ''@'' @ dec n
        in unique_stem fuel (n + 1) taken stem ext)"

definition unique_cpm_filename :: "string list \<Rightarrow> string \<Rightarrow> (string \<times> string) res" where
  "unique_cpm_filename taken filename =
     (let (path, stem, ext) = split_path filename;
          stem = str_toupper stem; ext = str_toupper ext
      in bind_res (substr 1 3 ext) (\<lambda>ext. bind_res (substr 0 8 stem) (\<lambda>stem.
           Inr (unique_stem (length taken + 1) 1 taken stem ext, ext))))"

text \<open>The cluster numbers of one directory entry.\<close>

fun fill_fat :: "nat \<Rightarrow> nat \<Rightarrow> u16 list \<Rightarrow> (u16 list \<times> nat \<times> u16 list) res" where
  "fill_fat 0 remaining chain = Inr ([], remaining, chain)"
| "fill_fat (Suc n) remaining chain =
     (if 0 < remaining
      then (case chain of [] \<Rightarrow> Inl Undefined
        | c # cs \<Rightarrow> bind_res (fill_fat n (remaining - 2048) cs) (\<lambda>(fat, r, cs). Inr (c # fat, r, cs)))
      else bind_res (fill_fat n remaining chain) (\<lambda>(fat, r, cs). Inr (0 # fat, r, cs)))"

fun allocate_entries :: "nat list \<Rightarrow> MDHeader \<Rightarrow> nat \<Rightarrow> nat \<Rightarrow> u16 list \<Rightarrow> image \<Rightarrow> image res" where
  "allocate_entries [] proto extent remaining chain b = Inr b"
| "allocate_entries (k # ks) proto extent remaining chain b =
     (if remaining = 0 then Inr b
      else if md_User (read_header b (slot k)) < 0x10 then allocate_entries ks proto extent remaining chain b
      else let records = min 0x80 ((remaining + 127) div 128)
        in bind_res (fill_fat 8 remaining chain) (\<lambda>(fat, remaining, chain).
             let h = proto\<lparr>md_Records := word_of_nat records, md_Extent := word_of_nat extent, md_FAT := fat\<rparr>
             in allocate_entries ks proto (extent + 1) remaining chain (put_bytes (slot k) (header_bytes h) b)))"

definition allocate_file :: "string \<Rightarrow> u8 list \<Rightarrow> u16 list \<Rightarrow> fsimage \<Rightarrow> (string \<times> fsimage) res" where
  "allocate_file filename content chain fs =
     bind_res (unique_cpm_filename (taken_names fs) filename) (\<lambda>(stem, ext).
       let internal = candidate stem ext;
           fs = fs\<lparr>taken_names := internal # taken_names fs\<rparr>;
           proto = init_with_filename stem ext
       in bind_res (allocate_entries [0..<128] proto 0 (length content) chain (fs_bytes fs)) (\<lambda>b.
            Inr (internal, fs\<lparr>fs_bytes := b\<rparr>)))"

definition put_sector :: "nat \<Rightarrow> u8 list \<Rightarrow> image \<Rightarrow> image" where
  "put_sector p src b = (let d = take 1024 src in put_bytes p (d @ replicate (1024 - length d) 0xE5) b)"

definition write_cluster :: "nat \<Rightarrow> nat \<Rightarrow> u8 list \<times> image \<Rightarrow> u8 list \<times> image" where
  "write_cluster sz clust st =
     (let (src, b) = st
      in case map_sector sz (cluster_to_ths clust) of
           None \<Rightarrow> (src, b)
         | Some p0 \<Rightarrow>
             (let b = put_sector p0 src b; src = drop 1024 src
              in case map_sector sz (cluster_to_ths (clust + 1)) of
                   None \<Rightarrow> (src, b)
                 | Some p1 \<Rightarrow> (drop 1024 src, put_sector p1 src b)))"

fun write_chain :: "nat \<Rightarrow> u16 list \<Rightarrow> u8 list \<Rightarrow> image \<Rightarrow> image" where
  "write_chain sz [] src b = b"
| "write_chain sz (c # cs) src b =
     (let (src, b) = write_cluster sz (unat c * 2) (src, b)
      in if src = [] then b else write_chain sz cs src b)"

definition save_file :: "string \<Rightarrow> u8 list \<Rightarrow> fsimage \<Rightarrow> (bool \<times> string \<times> fsimage) res" where
  "save_file filename content fs =
     bind_res (build_available_chain ((length content + 2047) div 2048) fs) (\<lambda>chain.
       if chain = [] then Inr (False, '''', fs)
       else bind_res (allocate_file filename content chain fs) (\<lambda>(internal, fs).
         Inr (True, internal, fs\<lparr>fs_bytes := write_chain (fs_size fs) chain content (fs_bytes fs)\<rparr>)))"

text \<open>A directory is mounted file by file; \<open>files\<close> are its entries with their contents (\<open>None\<close> a
  directory) in the order the operating system gives them.\<close>

fun mount_files :: "(string \<times> u8 list option) list \<Rightarrow> fsimage \<Rightarrow> fsimage res" where
  "mount_files [] fs = Inr fs"
| "mount_files ((name, content) # files) fs =
     (case content of
        None \<Rightarrow> mount_files files fs
      | Some bytes \<Rightarrow>
          if length bytes \<le> MAX_FS_BYTES \<and> 0 < length bytes
          then bind_res (save_file name bytes fs) (\<lambda>(_, _, fs). mount_files files fs)
          else mount_files files fs)"

definition mount_local_dir :: "(string \<times> u8 list option) list option \<Rightarrow> fsimage \<Rightarrow> (bool \<times> fsimage) res" where
  "mount_local_dir dir fs = (case dir of
     None \<Rightarrow> Inr (False, fs) | Some files \<Rightarrow> bind_res (mount_files files fs) (\<lambda>fs. Inr (True, fs)))"

section \<open>Bytes and sectors\<close>

definition cluster_base :: "nat \<Rightarrow> nat" where
  "cluster_base c = 0xA000 + 2048 * c"

lemma map_sector_ths:
  "map_sector sz (cluster_to_ths n) = (if sz \<le> 0xA000 + 1024 * n + 1024 then None else Some (0xA000 + 1024 * n))"
proof -
  define t where "t = 8 + n div 5"
  have "t div 2 * 10240 + t mod 2 * 5120 = t * 5120" using div_mult_mod_eq [of t 2] by linarith
  moreover have "n div 5 * 5120 + n mod 5 * 1024 = n * 1024" using div_mult_mod_eq [of n 5] by linarith
  ultimately have "t div 2 * 10240 + t mod 2 * 5120 + n mod 5 * 1024 = 0xA000 + 1024 * n"
    by (simp add: t_def)
  then show ?thesis by (simp add: map_sector_def cluster_to_ths_def Let_def t_def [symmetric])
qed

lemma map_sector_cluster:
  assumes "c < 390"
  shows "map_sector MAX_FS_BYTES (cluster_to_ths (c * 2)) = Some (cluster_base c)"
    "map_sector MAX_FS_BYTES (cluster_to_ths (Suc (c * 2))) = Some (cluster_base c + 1024)"
  using assms by (simp_all add: map_sector_ths MAX_FS_BYTES_def cluster_base_def)

lemma put_bytes_at: "i < length xs \<Longrightarrow> put_bytes p xs b (p + i) = xs ! i"
  by (simp add: put_bytes_def)

lemma put_bytes_other: "i < p \<or> p + length xs \<le> i \<Longrightarrow> put_bytes p xs b i = b i"
  by (auto simp: put_bytes_def)

lemma put_bytes_append: "put_bytes (p + length xs) ys (put_bytes p xs b) = put_bytes p (xs @ ys) b"
  by (rule ext) (auto simp: put_bytes_def nth_append)

lemma get_put_bytes: "n \<le> length xs \<Longrightarrow> get_bytes (put_bytes p xs b) p n = take n xs"
  by (rule nth_equalityI) (simp_all add: get_bytes_def put_bytes_at)

lemma get_bytes_cong: "(\<And>i. p \<le> i \<Longrightarrow> i < p + n \<Longrightarrow> b i = b' i) \<Longrightarrow> get_bytes b p n = get_bytes b' p n"
  by (simp add: get_bytes_def)

lemma get_bytes_split: "get_bytes b p m @ get_bytes b (p + m) n = get_bytes b p (m + n)"
  by (rule nth_equalityI) (auto simp: get_bytes_def nth_append)

lemma get_bytes_0 [simp]: "get_bytes b p 0 = []" by (simp add: get_bytes_def)
lemma length_get_bytes [simp]: "length (get_bytes b p n) = n" by (simp add: get_bytes_def)

definition padded :: "u8 list \<Rightarrow> u8 list" where
  "padded src = take 2048 src @ replicate (2048 - length src) 0xE5"

lemma length_padded [simp]: "length (padded src) = 2048"
  by (simp add: padded_def)

lemma write_cluster_whole:
  assumes "c < 390"
  shows "write_cluster MAX_FS_BYTES (c * 2) (src, b) = (drop 2048 src, put_bytes (cluster_base c) (padded src) b)"
proof -
  let ?s0 = "take 1024 src @ replicate (1024 - length src) 0xE5"
  let ?s1 = "take 1024 (drop 1024 src) @ replicate (1024 - length (drop 1024 src)) 0xE5"
  have 0: "put_sector p src b = put_bytes p ?s0 b" "put_sector p (drop 1024 src) b = put_bytes p ?s1 b" for p b
    by (auto simp: put_sector_def Let_def min_def)
  have "?s0 @ ?s1 = padded src"
  proof (cases "length src \<le> 1024")
    case True then show ?thesis by (simp add: padded_def flip: replicate_add)
  next
    case False
    then have "take 1024 src @ take 1024 (drop 1024 src) = take 2048 src" using take_add [of 1024 1024 src] by simp
    then show ?thesis using False by (simp add: padded_def flip: append_assoc)
  qed
  moreover have "length ?s0 = 1024" by simp
  ultimately have "put_bytes (p + 1024) ?s1 (put_bytes p ?s0 b) = put_bytes p (padded src) b" for p
    using put_bytes_append [of p ?s0 ?s1 b] by (simp only:)
  then show ?thesis
    using assms by (simp add: write_cluster_def map_sector_cluster 0)
qed

lemma read_cluster_whole:
  assumes "c < 390" "fs_size fs = MAX_FS_BYTES"
  shows "read_cluster fs (c * 2) r = get_bytes (fs_bytes fs) (cluster_base c) (min 2048 r)"
proof -
  have "min 1024 r + min 1024 (r - min 1024 r) = min 2048 r" by simp
  then have "get_bytes b p (min 1024 r) @ get_bytes b (p + 1024) (min 1024 (r - min 1024 r)) = get_bytes b p (min 2048 r)" for b p
    using get_bytes_split [of b p "min 1024 r" "min 1024 (r - min 1024 r)"] by (cases "r \<le> 1024") (simp_all add: min_def)
  then show ?thesis
    using assms by (simp add: read_cluster_def map_sector_cluster Let_def)
qed

text \<open>A read depends on the bytes of its cluster only.\<close>

lemma read_cluster_cong:
  assumes "\<And>i. cluster_base c \<le> i \<Longrightarrow> i < cluster_base c + 2048 \<Longrightarrow> fs_bytes fs i = fs_bytes fs' i"
    and "fs_size fs = fs_size fs'"
  shows "read_cluster fs (c * 2) r = read_cluster fs' (c * 2) r"
proof -
  have "get_bytes (fs_bytes fs) (0xA000 + 1024 * (c * 2)) (min 1024 r) = get_bytes (fs_bytes fs') (0xA000 + 1024 * (c * 2)) (min 1024 r)"
    "get_bytes (fs_bytes fs) (0xA000 + 1024 * (c * 2 + 1)) (min 1024 r') = get_bytes (fs_bytes fs') (0xA000 + 1024 * (c * 2 + 1)) (min 1024 r')" for r r'
    by (rule get_bytes_cong; rule assms(1); simp add: cluster_base_def)+
  then show ?thesis by (simp add: read_cluster_def map_sector_ths assms(2) Let_def)
qed

section \<open>A chain of clusters\<close>

definition in_clusters :: "u16 list \<Rightarrow> nat \<Rightarrow> bool" where
  "in_clusters cs i \<longleftrightarrow> (\<exists>c \<in> set cs. cluster_base (unat c) \<le> i \<and> i < cluster_base (unat c) + 2048)"

lemma write_chain_outside:
  "list_all (\<lambda>c. unat c < 390) cs \<Longrightarrow> \<not> in_clusters cs i \<Longrightarrow> write_chain MAX_FS_BYTES cs src b i = b i"
proof (induction cs arbitrary: src b)
  case Nil then show ?case by simp
next
  case (Cons c cs)
  then have "\<not> in_clusters cs i" by (auto simp: in_clusters_def)
  moreover have "put_bytes (cluster_base (unat c)) (padded src) b i = b i"
    using Cons.prems(2) by (intro put_bytes_other) (auto simp: in_clusters_def not_le)
  ultimately show ?case using Cons by (simp add: write_cluster_whole)
qed

lemma clusters_disjoint: "c \<noteq> d \<Longrightarrow> cluster_base c \<le> i \<Longrightarrow> i < cluster_base c + 2048 \<Longrightarrow>
    \<not> (cluster_base d \<le> i \<and> i < cluster_base d + 2048)"
  by (auto simp: cluster_base_def)

lemma read_chain_nothing: "read_chain fs cs 0 = []"
proof (induction cs)
  case (Cons c cs)
  have "read_cluster fs n 0 = []" for n by (simp add: read_cluster_def split: option.split)
  then show ?case using Cons by simp
qed simp

lemma read_chain_end: "read_chain fs (replicate z 0) r = []"
  by (cases z) simp_all

text \<open>What was written along a chain is read along it, with the fill byte after the end.\<close>

lemma read_written_chain:
  assumes "distinct cs" "list_all (\<lambda>c. 2 \<le> unat c \<and> unat c < 390) cs" "src \<noteq> []"
    and "length src \<le> n" "n \<le> 2048 * length cs" "length cs = (length src + 2047) div 2048"
    and "fs_size fs = MAX_FS_BYTES" "\<And>i. in_clusters cs i \<Longrightarrow> fs_bytes fs i = write_chain MAX_FS_BYTES cs src b i"
  shows "read_chain fs (cs @ replicate z 0) n = src @ replicate (n - length src) 0xE5"
  using assms
proof (induction cs arbitrary: src n b)
  case Nil then show ?case by simp
next
  case (Cons c cs)
  let ?b = "put_bytes (cluster_base (unat c)) (padded src) b"
  have c: "unat c < 390" "2 \<le> unat c" "list_all (\<lambda>c. unat c < 390) cs" "c \<notin> set cs"
    using Cons.prems(1,2) by (auto simp: list_all_iff)
  have w: "write_chain MAX_FS_BYTES (c # cs) src b = (if drop 2048 src = [] then ?b else write_chain MAX_FS_BYTES cs (drop 2048 src) ?b)"
    using c(1) by (simp add: write_cluster_whole)
  have out: "\<not> in_clusters cs i" if "cluster_base (unat c) \<le> i" "i < cluster_base (unat c) + 2048" for i
  proof
    assume "in_clusters cs i"
    then obtain d where d: "d \<in> set cs" "cluster_base (unat d) \<le> i" "i < cluster_base (unat d) + 2048"
      by (auto simp: in_clusters_def)
    then have "unat c \<noteq> unat d" using c(4) by (metis word_unat_eq_iff)
    then show False using clusters_disjoint [OF _ that] d(2,3) by blast
  qed
  have "get_bytes (fs_bytes fs) (cluster_base (unat c)) m = get_bytes ?b (cluster_base (unat c)) m" if "m \<le> 2048" for m
  proof (rule get_bytes_cong)
    fix i assume i: "cluster_base (unat c) \<le> i" "i < cluster_base (unat c) + m"
    then have "i < cluster_base (unat c) + 2048" using that by simp
    then have "fs_bytes fs i = write_chain MAX_FS_BYTES (c # cs) src b i"
      using i(1) by (intro Cons.prems(8)) (auto simp: in_clusters_def)
    then show "fs_bytes fs i = ?b i"
      using write_chain_outside [OF c(3) out [OF i(1)]] \<open>i < cluster_base (unat c) + 2048\<close> by (simp add: w del: write_chain.simps)
  qed
  then have d: "read_cluster fs (unat c * 2) n = take (min 2048 n) (padded src)"
    using read_cluster_whole [OF c(1) Cons.prems(7)] by (simp add: get_put_bytes)
  show ?case
  proof (cases "length src \<le> 2048")
    case True
    have "(length src + 2047) div 2048 < 2" using True by simp
    then have "length (c # cs) < 2" by (simp only: Cons.prems(6))
    then have "cs = []" by simp
    then have n: "n \<le> 2048" using Cons.prems(5) by simp
    have "take n (padded src) = src @ replicate (n - length src) 0xE5"
      using True n Cons.prems(4) by (simp add: padded_def take_append min_def)
    then show ?thesis using c(2) d n \<open>cs = []\<close> by (simp add: min_absorb2 read_chain_end)
  next
    case False
    then have long: "drop 2048 src \<noteq> []" "2048 \<le> n" "take 2048 (padded src) = take 2048 src"
      using Cons.prems(4) by (simp_all add: padded_def)
    have "length cs = (length (drop 2048 src) + 2047) div 2048" using Cons.prems(6) False by simp
    moreover have "n - 2048 \<le> 2048 * length cs" using Cons.prems(5) by simp
    moreover have "fs_bytes fs i = write_chain MAX_FS_BYTES cs (drop 2048 src) ?b i" if "in_clusters cs i" for i
      using Cons.prems(8) [of i] that long(1) w by (auto simp: in_clusters_def)
    ultimately have "read_chain fs (cs @ replicate z 0) (n - 2048) = drop 2048 src @ replicate (n - 2048 - length (drop 2048 src)) 0xE5"
      using Cons.prems(1,2,4,7) long(1) by (intro Cons.IH) auto
    then show ?thesis using c(2) d long False Cons.prems(4) by (simp add: min_absorb1 flip: append_assoc)
  qed
qed


section \<open>The directory\<close>

definition header_ok :: "MDHeader \<Rightarrow> bool" where
  "header_ok h \<longleftrightarrow> length (md_Name h) = 8 \<and> length (md_Ext h) = 3 \<and> length (md_FAT h) = 8"

definition same_file :: "MDHeader \<Rightarrow> MDHeader \<Rightarrow> bool" where
  "same_file p h \<longleftrightarrow> md_name h = md_name p \<and> md_ext h = md_ext p"

lemma byte_char_byte [simp]: "byte_char (char_byte c) = c"
proof -
  have "(of_char c :: nat) < 256" by (rule nat_of_char_less_256)
  then show ?thesis by (simp add: byte_char_def char_byte_def unat_of_nat)
qed

lemma length_word_pairs: "length (concat (map (\<lambda>w. [lo8 w, hi8 w]) ws)) = 2 * length ws"
  by (induction ws) simp_all

lemma nth_word_pairs:
  "i < length ws \<Longrightarrow> concat (map (\<lambda>w. [lo8 w, hi8 w]) ws) ! (2 * i) = lo8 (ws ! i)"
  "i < length ws \<Longrightarrow> concat (map (\<lambda>w. [lo8 w, hi8 w]) ws) ! Suc (2 * i) = hi8 (ws ! i)"
  by (induction ws arbitrary: i; simp add: nth_Cons split: nat.split)+

lemma length_header_bytes: "header_ok h \<Longrightarrow> length (header_bytes h) = 32"
  by (simp add: header_bytes_def header_ok_def length_word_pairs)

lemma put_bytes_field:
  "k + n \<le> length xs \<Longrightarrow> map (\<lambda>i. f (put_bytes p xs b (p + k + i))) [0..<n] = map f (take n (drop k xs))"
  by (rule nth_equalityI) (simp_all add: put_bytes_def)

lemma read_put_header:
  assumes "header_ok h"
  shows "read_header (put_bytes p (header_bytes h) b) p = h"
proof -
  let ?x = "header_bytes h" and ?b = "put_bytes p (header_bytes h) b"
  note ok = assms [unfolded header_ok_def]
  have at: "?b (p + i) = ?x ! i" if "i < 32" for i
    using that length_header_bytes [OF assms] by (simp add: put_bytes_at)
  have user: "?b p = md_User h" using at [of 0] by (simp add: header_bytes_def)
  have name: "map (\<lambda>i. byte_char (?b (p + 1 + i))) [0..<8] = md_Name h"
    using put_bytes_field [of 1 8 ?x byte_char p b] length_header_bytes [OF assms] ok
    by (simp add: header_bytes_def comp_def)
  have ext: "map (\<lambda>i. byte_char (?b (p + 9 + i))) [0..<3] = md_Ext h"
    using put_bytes_field [of 9 3 ?x byte_char p b] length_header_bytes [OF assms] ok
    by (simp add: header_bytes_def comp_def)
  have rest: "?b (p + 12) = md_Extent h" "?b (p + 13) = md_Unknown1 h" "?b (p + 14) = md_Unknown2 h" "?b (p + 15) = md_Records h"
    using at [of 12] at [of 13] at [of 14] at [of 15] ok by (simp_all add: header_bytes_def nth_append)
  have "map (\<lambda>i. mk16 (?b (p + 17 + 2 * i)) (?b (p + 16 + 2 * i))) [0..<8] = md_FAT h"
  proof (rule nth_equalityI)
    fix i assume "i < length (map (\<lambda>i. mk16 (?b (p + 17 + 2 * i)) (?b (p + 16 + 2 * i))) [0..<8])"
    then have i: "i < 8" by simp
    then have "?b (p + 16 + 2 * i) = lo8 (md_FAT h ! i)" "?b (p + 17 + 2 * i) = hi8 (md_FAT h ! i)"
      using at [of "16 + 2 * i"] at [of "17 + 2 * i"] ok nth_word_pairs [of i "md_FAT h"]
      by (simp_all add: header_bytes_def nth_append add.assoc)
    then show "map (\<lambda>i. mk16 (?b (p + 17 + 2 * i)) (?b (p + 16 + 2 * i))) [0..<8] ! i = md_FAT h ! i"
      using i by (simp add: mk16_hi8_lo8)
  qed (use ok in simp)
  with user name ext rest show ?thesis by (simp add: read_header_def)
qed

lemma read_header_cong:
  assumes "\<And>i. p \<le> i \<Longrightarrow> i < p + 32 \<Longrightarrow> b i = b' i"
  shows "read_header b p = read_header b' p"
  by (simp add: read_header_def assms)

lemma read_other_header:
  assumes "header_ok h" "j \<noteq> k"
  shows "read_header (put_bytes (slot k) (header_bytes h) b) (slot j) = read_header b (slot j)"
  by (rule read_header_cong, rule put_bytes_other)
    (use assms length_header_bytes [OF assms(1)] in \<open>auto simp: slot_def\<close>)

section \<open>Allocating a file\<close>

lemma fill_fat_closed:
  "fill_fat n r chain = Inr (fat, r', chain') \<Longrightarrow> m = min n ((r + 2047) div 2048) \<Longrightarrow>
     m \<le> length chain \<and> fat = take m chain @ replicate (n - m) 0 \<and> r' = r - 2048 * n \<and> chain' = drop m chain"
proof (induction n arbitrary: r chain fat m)
  case 0 then show ?case by simp
next
  case (Suc n)
  show ?case
  proof (cases "0 < r")
    case True
    then obtain c cs where chain: "chain = c # cs" using Suc.prems by (cases chain) simp_all
    then obtain f where f: "fill_fat n (r - 2048) cs = Inr (f, r', chain')" "fat = c # f"
      using Suc.prems(1) True by (auto simp: bind_res_Inr_iff)
    have m: "m = Suc (min n ((r - 2048 + 2047) div 2048))"
    proof (cases "r \<le> 2048")
      case True
      then have "(r + 2047) div 2048 = 1" using \<open>0 < r\<close> by simp
      then show ?thesis using Suc.prems(2) True by simp
    next
      case False
      then have "r + 2047 = (r - 2048 + 2047) + 2048" by simp
      then have "(r + 2047) div 2048 = Suc ((r - 2048 + 2047) div 2048)" by (metis div_add_self2 Suc_eq_plus1 zero_neq_numeral)
      then show ?thesis using Suc.prems(2) by simp
    qed
    show ?thesis using Suc.IH [OF f(1) refl] unfolding m chain f(2) by auto
  next
    case False
    then obtain f where f: "fill_fat n 0 chain = Inr (f, r', chain')" "fat = 0 # f"
      using Suc.prems(1) by (auto simp: bind_res_Inr_iff)
    then show ?thesis using Suc.IH [OF f(1) refl] Suc.prems(2) False by simp
  qed
qed

text \<open>The directory entries of a file, one for each 16 KB.\<close>

function extents :: "MDHeader \<Rightarrow> nat \<Rightarrow> nat \<Rightarrow> u16 list \<Rightarrow> MDHeader list" where
  "extents proto e r chain =
     (if r = 0 then []
      else let m = min 8 ((r + 2047) div 2048)
        in proto\<lparr>md_Records := word_of_nat (min 0x80 ((r + 127) div 128)), md_Extent := word_of_nat e,
             md_FAT := take m chain @ replicate (8 - m) 0\<rparr> # extents proto (e + 1) (r - 16384) (drop m chain))"
  by pat_completeness auto
termination by (relation "measure (\<lambda>(p, e, r, c). r)") auto

declare extents.simps [simp del]

lemma extents_0 [simp]: "extents proto e 0 chain = []"
  by (simp add: extents.simps)

lemma allocate_step:
  assumes "allocate_entries (k # ks) proto e r chain b = Inr b'" "r \<noteq> 0" "\<not> active (read_header b (slot k))" "header_ok proto"
  obtains h m where "m = min 8 ((r + 2047) div 2048)" "m \<le> length chain"
    and "h = proto\<lparr>md_Records := word_of_nat (min 0x80 ((r + 127) div 128)), md_Extent := word_of_nat e,
               md_FAT := take m chain @ replicate (8 - m) 0\<rparr>" "header_ok h"
    and "allocate_entries ks proto (e + 1) (r - 16384) (drop m chain) (put_bytes (slot k) (header_bytes h) b) = Inr b'"
proof -
  obtain fat r' chain' where f: "fill_fat 8 r chain = Inr (fat, r', chain')"
    and b': "allocate_entries ks proto (e + 1) r' chain' (put_bytes (slot k) (header_bytes
               (proto\<lparr>md_Records := word_of_nat (min 0x80 ((r + 127) div 128)), md_Extent := word_of_nat e, md_FAT := fat\<rparr>)) b) = Inr b'"
    using assms(1-3) by (auto simp: bind_res_Inr_iff active_def Let_def)
  show thesis using fill_fat_closed [OF f refl] b' assms(4) by (intro that [OF refl _ refl]) (auto simp: header_ok_def)
qed

lemma slot_bytes: "k < 128 \<Longrightarrow> header_ok h \<Longrightarrow> i < 0xA000 \<or> 0xB000 \<le> i \<Longrightarrow> put_bytes (slot k) (header_bytes h) b i = b i"
  by (rule put_bytes_other) (auto simp: slot_def length_header_bytes)

lemma same_file_upd [simp]:
  "same_file p (p\<lparr>md_Records := x, md_Extent := y, md_FAT := z\<rparr>)"
  "active (p\<lparr>md_Records := x, md_Extent := y, md_FAT := z\<rparr>) = active p"
  by (simp_all add: same_file_def md_name_def md_ext_def active_def)

text \<open>Entries in use, entries not visited and the bytes around the directory are kept.\<close>

lemma allocate_keeps:
  assumes "allocate_entries ks proto e r chain b = Inr b'" "header_ok proto" "active proto" "list_all (\<lambda>k. k < 128) ks" "distinct ks"
  shows "(\<forall>i. i < 0xA000 \<or> 0xB000 \<le> i \<longrightarrow> b' i = b i) \<and>
    (\<forall>j. read_header b' (slot j) = read_header b (slot j) \<or>
         j \<in> set ks \<and> \<not> active (read_header b (slot j)) \<and> same_file proto (read_header b' (slot j)))"
  using assms
proof (induction ks arbitrary: e r chain b)
  case Nil then show ?case by simp
next
  case (Cons k ks)
  consider "r = 0" | "r \<noteq> 0" "active (read_header b (slot k))" | "r \<noteq> 0" "\<not> active (read_header b (slot k))" by blast
  then show ?case
  proof cases
    case 1 then show ?thesis using Cons.prems(1) by simp
  next
    case 2
    then have "allocate_entries ks proto e r chain b = Inr b'" using Cons.prems(1) by (simp add: active_def)
    from Cons.IH [OF this] Cons.prems show ?thesis by auto
  next
    case 3
    from allocate_step [OF Cons.prems(1) 3 Cons.prems(2)] obtain h m where h: "header_ok h"
      "h = proto\<lparr>md_Records := word_of_nat (min 0x80 ((r + 127) div 128)), md_Extent := word_of_nat e,
               md_FAT := take m chain @ replicate (8 - m) 0\<rparr>"
      and b': "allocate_entries ks proto (e + 1) (r - 16384) (drop m chain) (put_bytes (slot k) (header_bytes h) b) = Inr b'" by metis
    have ks: "list_all (\<lambda>k. k < 128) ks" "distinct ks" "k < 128" "k \<notin> set ks" using Cons.prems(4,5) by simp_all
    note IH = Cons.IH [OF b' Cons.prems(2,3) ks(1,2)]
    have h': "same_file proto h" by (simp add: h(2))
    have dir: "read_header b' (slot j) = read_header b (slot j) \<or>
         j \<in> set (k # ks) \<and> \<not> active (read_header b (slot j)) \<and> same_file proto (read_header b' (slot j))" for j
    proof (cases "j = k")
      case True
      then show ?thesis using conjunct2 [OF IH, rule_format, of k] h' 3(2) ks(4) read_put_header [OF h(1), of "slot k" b]
        by (metis list.set_intros(1))
    next
      case False
      then show ?thesis using conjunct2 [OF IH, rule_format, of j] read_other_header [OF h(1) False, of b]
        by (metis list.set_intros(2))
    qed
    have "b' i = b i" if "i < 0xA000 \<or> 0xB000 \<le> i" for i
      using conjunct1 [OF IH, rule_format, OF that] slot_bytes [OF ks(3) h(1) that] by simp
    with dir show ?thesis by blast
  qed
qed

text \<open>The new entries are the extents of the file, in order, when the directory has room.\<close>

lemma allocate_extents:
  assumes "allocate_entries ks proto e r chain b = Inr b'" "header_ok proto" "active proto" "list_all (\<lambda>k. k < 128) ks" "distinct ks"
    and "\<And>k. k \<in> set ks \<Longrightarrow> active (read_header b (slot k)) \<Longrightarrow> \<not> same_file proto (read_header b (slot k))"
    and "r \<le> 16384 * length [k \<leftarrow> ks. \<not> active (read_header b (slot k))]"
  shows "[h \<leftarrow> map (\<lambda>k. read_header b' (slot k)) ks. active h \<and> same_file proto h] = extents proto e r chain \<and>
    (r + 2047) div 2048 \<le> length chain"
  using assms
proof (induction ks arbitrary: e r chain b)
  case Nil then show ?case by simp
next
  case (Cons k ks)
  have ks: "list_all (\<lambda>k. k < 128) ks" "distinct ks" "k < 128" "k \<notin> set ks" using Cons.prems(4,5) by simp_all
  consider "r = 0" | "r \<noteq> 0" "active (read_header b (slot k))" | "r \<noteq> 0" "\<not> active (read_header b (slot k))" by blast
  then show ?case
  proof cases
    case 1
    then have "b' = b" using Cons.prems(1) by simp
    then show ?thesis using 1 Cons.prems(6) by (auto simp: filter_empty_conv)
  next
    case 2
    then have a: "allocate_entries ks proto e r chain b = Inr b'" using Cons.prems(1) by (simp add: active_def)
    have "read_header b' (slot k) = read_header b (slot k)"
      using allocate_keeps [OF a Cons.prems(2,3) ks(1,2)] ks(4) by blast
    then show ?thesis using Cons.IH [OF a Cons.prems(2,3) ks(1,2)] Cons.prems(6,7) 2 by simp
  next
    case 3
    from allocate_step [OF Cons.prems(1) 3 Cons.prems(2)] obtain h m where h: "header_ok h"
      "h = proto\<lparr>md_Records := word_of_nat (min 0x80 ((r + 127) div 128)), md_Extent := word_of_nat e,
               md_FAT := take m chain @ replicate (8 - m) 0\<rparr>"
      and m: "m = min 8 ((r + 2047) div 2048)" "m \<le> length chain"
      and b': "allocate_entries ks proto (e + 1) (r - 16384) (drop m chain) (put_bytes (slot k) (header_bytes h) b) = Inr b'" by metis
    have other: "read_header (put_bytes (slot k) (header_bytes h) b) (slot j) = read_header b (slot j)" if "j \<in> set ks" for j
      using that ks(4) by (intro read_other_header [OF h(1)]) auto
    have "[j \<leftarrow> ks. \<not> active (read_header (put_bytes (slot k) (header_bytes h) b) (slot j))] = [j \<leftarrow> ks. \<not> active (read_header b (slot j))]"
      by (rule filter_cong) (simp_all add: other)
    then have IH: "[h \<leftarrow> map (\<lambda>k. read_header b' (slot k)) ks. active h \<and> same_file proto h] = extents proto (e + 1) (r - 16384) (drop m chain)"
      "(r - 16384 + 2047) div 2048 \<le> length (drop m chain)"
      using Cons.IH [OF b' Cons.prems(2,3) ks(1,2)] Cons.prems(6,7) 3(2) by (simp_all add: other)
    have "read_header b' (slot k) = h"
      using allocate_keeps [OF b' Cons.prems(2,3) ks(1,2)] ks(4) read_put_header [OF h(1), of "slot k" b] by metis
    moreover have "extents proto e r chain = h # extents proto (e + 1) (r - 16384) (drop m chain)"
      using 3(1) by (subst extents.simps) (simp add: h(2) m(1) Let_def)
    moreover have "(r + 2047) div 2048 \<le> length chain"
    proof (cases "r \<le> 16384")
      case True
      then have "(r + 2047) div 2048 \<le> 8" by simp
      then show ?thesis using m by simp
    next
      case False
      then have "r + 2047 = (r - 16384 + 2047) + 8 * 2048" by simp
      then have "(r + 2047) div 2048 = (r - 16384 + 2047) div 2048 + 8" by (metis div_mult_self3 zero_neq_numeral add.commute)
      then show ?thesis using IH(2) m by simp
    qed
    ultimately show ?thesis using IH(1) h(2) Cons.prems(3) by simp
  qed
qed

text \<open>What the reader makes of the extents of a file.\<close>

lemma load_chain_filter:
  "load_chain q hs = load_chain q [h \<leftarrow> hs. active h \<and> same_file q h]"
  by (induction hs) (auto simp: active_def same_file_def)

lemma load_extents:
  assumes "same_file q proto" "active proto" "0 < r" "e + (r + 16383) div 16384 \<le> 256" "length chain = (r + 2047) div 2048"
  shows "\<exists>z. load_chain q (extents proto e r chain) =
     (chain @ replicate z 0, if (r + 127) div 128 mod 128 = 0 then 0 else 16384 * e + 128 * ((r + 127) div 128))"
  using assms
proof (induction r arbitrary: e chain rule: less_induct)
  case (less r)
  let ?m = "min 8 ((r + 2047) div 2048)"
  let ?h = "proto\<lparr>md_Records := word_of_nat (min 0x80 ((r + 127) div 128)), md_Extent := word_of_nat e,
               md_FAT := take ?m chain @ replicate (8 - ?m) 0\<rparr>"
  have ex: "extents proto e r chain = ?h # extents proto (e + 1) (r - 16384) (drop ?m chain)"
    using less.prems(3) by (subst extents.simps) (simp add: Let_def)
  have h: "md_User ?h < 0x10" "md_name ?h = md_name q" "md_ext ?h = md_ext q"
    using less.prems(1,2) by (simp_all add: same_file_def active_def md_name_def md_ext_def)
  have e: "e < 256" using less.prems(3,4) by (cases "r = 0") auto
  show ?case
  proof (cases "(r + 127) div 128 < 128")
    case True
    then have m: "take ?m chain = chain" "(r + 127) div 128 \<noteq> 0" using less.prems(3,5) by auto
    have "unat (word_of_nat e :: u8) = e" using e by (simp add: unat_of_nat)
    moreover have rec: "unat (word_of_nat (min 0x80 ((r + 127) div 128)) :: u8) = (r + 127) div 128"
      using True by (simp add: unat_of_nat)
    moreover have "word_of_nat (min 0x80 ((r + 127) div 128)) \<noteq> (0x80 :: u8)" using rec True by auto
    ultimately show ?thesis using h m True unfolding ex by (intro exI [of _ "8 - ?m"]) (simp add: mult.commute)
  next
    case False
    then have rec: "word_of_nat (min 0x80 ((r + 127) div 128)) = (0x80 :: u8)" by (simp add: min_def)
    show ?thesis
    proof (cases "r \<le> 16384")
      case True
      then have "(r + 127) div 128 = 128" "(r + 2047) div 2048 \<le> 8" using False by auto
      then show ?thesis using h rec True less.prems(5) unfolding ex by (intro exI [of _ "8 - ?m"]) simp
    next
      case False
      define s where "s = r - 16384"
      have s: "r = s + 16384" "0 < s" using False by (simp_all add: s_def)
      have "length (drop ?m chain) = (s + 2047) div 2048" using less.prems(5) s by simp
      moreover have "(e + 1) + (s + 16383) div 16384 \<le> 256" using less.prems(4) s by simp
      ultimately obtain z where "load_chain q (extents proto (e + 1) s (drop ?m chain)) =
         (drop ?m chain @ replicate z 0, if (s + 127) div 128 mod 128 = 0 then 0 else 16384 * (e + 1) + 128 * ((s + 127) div 128))"
        using less.IH [of s "e + 1" "drop ?m chain"] s less.prems(1,2) by auto
      moreover have d: "(r + 127) div 128 = (s + 127) div 128 + 128" and "?m = 8" using s by simp_all
      ultimately show ?thesis using h rec s(1) unfolding ex d by (intro exI [of _ z]) simp
    qed
  qed
qed

section \<open>Names\<close>

definition name_proto :: "string \<Rightarrow> MDHeader" where
  "name_proto filename =
     (let (path, stem, ext) = split_path filename in init_with_filename stem (if 0 < length ext then drop 1 ext else ext))"

definition plain :: "string \<Rightarrow> bool" where
  "plain s \<longleftrightarrow> list_all (\<lambda>c. \<not> is_separator c) s"

lemma plain_parts [simp]: "plain []" "plain (x @ y) \<longleftrightarrow> plain x \<and> plain y" "plain (c # x) \<longleftrightarrow> \<not> is_separator c \<and> plain x"
  by (simp_all add: plain_def)

lemma plain_take: "plain x \<Longrightarrow> plain (take n x)"
  by (auto simp: plain_def list_all_iff dest: in_set_takeD)

lemma plain_drop: "plain x \<Longrightarrow> plain (drop n x)"
  by (auto simp: plain_def list_all_iff dest: in_set_dropD)

lemma upper_char_kept: "is_separator (upper_char c) \<longleftrightarrow> is_separator c" "upper_char c = CHR ''.'' \<longleftrightarrow> c = CHR ''.''"
proof -
  define n where "n = (of_char c :: nat)"
  have c: "c = char_of n" "n < 256" by (simp_all add: n_def)
  have eq: "char_of m = d \<longleftrightarrow> m = of_char d" if "m < 256" for m :: nat and d
    using that by (auto simp: char_of_eq_iff take_bit_eq_mod)
  show "is_separator (upper_char c) \<longleftrightarrow> is_separator c" "upper_char c = CHR ''.'' \<longleftrightarrow> c = CHR ''.''"
    using c(2) by (auto simp: c(1) upper_char_def is_separator_def less_eq_char_def eq)
qed

lemma plain_upper: "plain (str_toupper s) \<longleftrightarrow> plain s"
  by (simp add: plain_def str_toupper_def list_all_iff upper_char_kept)

lemma digits_plain: "plain (dec n)" "CHR ''@'' \<notin> set (dec n)"
proof -
  have "\<not> isdigit (CHR ''@'')" "\<not> isdigit (CHR ''/'')" "\<not> isdigit (CHR 0x5C)" by code_simp+
  then have "isdigit c \<Longrightarrow> \<not> is_separator c \<and> c \<noteq> CHR ''@''" for c unfolding is_separator_def by metis
  then show "plain (dec n)" "CHR ''@'' \<notin> set (dec n)"
    using dec_ok(1) [of n] unfolding plain_def list_all_iff by blast+
qed

lemma dec_inject: "dec m = dec n \<Longrightarrow> m = n"
  using dec_ok(3) by metis

lemma split_candidate:
  assumes "plain stem" "plain ext" "CHR ''.'' \<notin> set ext"
  shows "split_path (candidate stem ext) = ('''', stem, CHR ''.'' # ext)"
proof -
  have "plain (rev (candidate stem ext))"
    using assms by (simp add: candidate_def plain_def is_separator_def)
  then have tw: "takeWhile (\<lambda>c. \<not> is_separator c) (rev (candidate stem ext)) = rev (candidate stem ext)"
    "dropWhile (\<lambda>c. \<not> is_separator c) (rev (candidate stem ext)) = []"
    by (auto simp: plain_def list_all_iff takeWhile_eq_all_conv dropWhile_eq_Nil_conv)
  then show ?thesis using rfind_char_last [OF assms(3), of stem] unfolding split_path_def Let_def tw by (simp add: candidate_def)
qed

lemma name_proto_candidate:
  "plain stem \<Longrightarrow> plain ext \<Longrightarrow> CHR ''.'' \<notin> set ext \<Longrightarrow> name_proto (candidate stem ext) = init_with_filename stem ext"
  by (simp add: name_proto_def split_candidate)

lemma rfind_char_Some: "rfind_char c s = Some n \<Longrightarrow> c \<notin> set (drop (Suc n) s) \<and> drop n s = c # drop (Suc n) s"
proof (induction s arbitrary: n)
  case (Cons d s)
  show ?case
  proof (cases "rfind_char c s")
    case None
    moreover have "c \<notin> set s" if "rfind_char c s = None" for s
      using that by (induction s) (auto split: option.splits if_splits)
    ultimately show ?thesis using Cons.prems by (auto split: if_splits)
  next
    case (Some m)
    then show ?thesis using Cons by auto
  qed
qed simp

lemma unique_stem_plain: "plain stem \<Longrightarrow> plain (unique_stem fuel n taken stem ext)"
  by (induction fuel n taken stem ext rule: unique_stem.induct)
    (auto simp: Let_def digits_plain plain_take is_separator_def)

lemma unique_stem_taken:
  "candidate (unique_stem fuel n taken stem ext) ext \<in> set taken \<Longrightarrow> i < fuel \<Longrightarrow>
     \<exists>u. candidate (u @ ''@'' @ dec (n + i)) ext \<in> set taken"
proof (induction fuel n taken stem ext arbitrary: i rule: unique_stem.induct)
  case (2 fuel n taken stem ext)
  define v where "v = (if 8 < length (dec n) + 1 then stem else take (8 - (length (dec n) + 1)) stem)"
  have t: "candidate stem ext \<in> set taken" using 2(2) by (auto split: if_splits)
  have next': "candidate (unique_stem fuel (n + 1) taken (v @ ''@'' @ dec n) ext) ext \<in> set taken"
    using 2(2) t unfolding unique_stem.simps Let_def v_def by simp
  have IH: "i < fuel \<Longrightarrow> \<exists>u. candidate (u @ ''@'' @ dec (n + 1 + i)) ext \<in> set taken" for i
    using 2(1) [of "length (dec n) + 1" "v @ ''@'' @ dec n" i] t next' by (simp add: v_def)
  show ?case
  proof (cases i)
    case 0
    have "candidate (v @ ''@'' @ dec n) ext \<in> set taken" using next' by (cases fuel) (auto split: if_splits)
    then show ?thesis using 0 by auto
  next
    case (Suc j)
    then show ?thesis using IH [of j] 2(3) by simp
  qed
qed simp

text \<open>The search ends with a free name: no name is tried twice.\<close>

lemma unique_stem_free: "candidate (unique_stem (length taken + 1) n taken stem ext) ext \<notin> set taken"
proof
  assume t: "candidate (unique_stem (length taken + 1) n taken stem ext) ext \<in> set taken"
  have "\<forall>i. \<exists>u. i < length taken + 1 \<longrightarrow> candidate (u @ ''@'' @ dec (n + i)) ext \<in> set taken"
    using unique_stem_taken [OF t] by blast
  then obtain u where u: "\<And>i. i < length taken + 1 \<Longrightarrow> candidate (u i @ ''@'' @ dec (n + i)) ext \<in> set taken" by metis
  have "inj_on (\<lambda>i. candidate (u i @ ''@'' @ dec (n + i)) ext) {..<length taken + 1}"
  proof (rule inj_onI)
    fix i j assume "candidate (u i @ ''@'' @ dec (n + i)) ext = candidate (u j @ ''@'' @ dec (n + j)) ext"
    then have e: "u i @ CHR ''@'' # dec (n + i) = u j @ CHR ''@'' # dec (n + j)" by (simp add: candidate_def)
    then have "length (u i) = length (u j)"
      using rfind_char_last [OF digits_plain(2), of "u i" "n + i"] rfind_char_last [OF digits_plain(2), of "u j" "n + j"] by simp
    then show "i = j" using e dec_inject [of "n + i" "n + j"] by simp
  qed
  then have "length taken + 1 \<le> card (set taken)"
    using card_inj_on_le [of _ "{..<length taken + 1}" "set taken"] u by auto
  then show False using card_length [of taken] by simp
qed

lemma unique_cpm_name:
  assumes "unique_cpm_filename taken filename = Inr (stem, ext)"
  shows "plain stem" "plain ext" "CHR ''.'' \<notin> set ext" "candidate stem ext \<notin> set taken"
proof -
  obtain path st ex where sp: "split_path filename = (path, st, ex)" by (cases "split_path filename")
  have name: "plain (rev (takeWhile (\<lambda>c. \<not> is_separator c) (rev filename)))"
    by (auto simp: plain_def list_all_iff dest: set_takeWhileD)
  have st: "plain st" "plain ex" using sp name
    by (auto simp: split_path_def Let_def plain_take plain_drop split: option.splits)
  have dot: "CHR ''.'' \<notin> set (drop 1 ex)"
    using sp rfind_char_Some [of "CHR ''.''" "rev (takeWhile (\<lambda>c. \<not> is_separator c) (rev filename))"]
    by (auto simp: split_path_def Let_def split: option.splits)
  have r: "ext = take 3 (drop 1 (str_toupper ex))"
    "stem = unique_stem (length taken + 1) 1 taken (take 8 (str_toupper st)) ext"
    using assms sp by (auto simp del: unique_stem.simps simp: Let_def unique_cpm_filename_def substr_def bind_res_Inr_iff split: if_splits)
  show "plain ext" unfolding r(1) by (rule plain_take, rule plain_drop) (simp add: plain_upper st)
  show "plain stem" unfolding r(2) by (rule unique_stem_plain, rule plain_take) (simp add: plain_upper st)
  show "CHR ''.'' \<notin> set ext"
  proof
    assume "CHR ''.'' \<in> set ext"
    then have "CHR ''.'' \<in> set (drop 1 (str_toupper ex))" unfolding r(1) by (rule in_set_takeD)
    then show False using dot unfolding str_toupper_def drop_map set_map by (metis imageE upper_char_kept(2))
  qed
  show "candidate stem ext \<notin> set taken" unfolding r(2) by (rule unique_stem_free)
qed

section \<open>Saving and reading back\<close>

lemma available_chain:
  assumes "build_available_chain len fs = Inr chain" "fs_size fs = MAX_FS_BYTES"
  shows "distinct chain" "list_all (\<lambda>c. 2 \<le> unat c \<and> unat c < 390) chain" "set chain \<inter> set (used_clusters (fs_bytes fs)) = {}"
    "len \<noteq> 0 \<Longrightarrow> length chain \<le> len" "chain \<noteq> [] \<Longrightarrow> list_all (\<lambda>c. unat c < 390) (used_clusters (fs_bytes fs))"
proof -
  let ?used = "used_clusters (fs_bytes fs)"
  define free where "free = [i \<leftarrow> map word_of_nat [2..<390]. i \<notin> set ?used]"
  have eq: "build_available_chain len fs = (if \<exists>f \<in> set ?used. 390 \<le> unat f then Inl Undefined
      else if (390 - word_of_nat (length ?used) :: 64 word) < word_of_nat len then Inr []
      else Inr (if len = 0 then free else take len free))"
    using assms(2) by (simp del: upt_rec_numeral add: build_available_chain_def MAX_FS_BYTES_def Let_def free_def)
  then have c: "chain \<in> {[], free, take len free}" using assms(1) by (auto split: if_splits)
  show "len \<noteq> 0 \<Longrightarrow> length chain \<le> len" "chain \<noteq> [] \<Longrightarrow> list_all (\<lambda>c. unat c < 390) ?used"
    using eq assms(1) by (auto simp: list_all_iff not_le split: if_splits)
  have "inj_on (word_of_nat :: nat \<Rightarrow> u16) (set [2..<390])"
    by (rule inj_on_inverseI [of _ unat]) (simp add: unat_of_nat del: upt_rec_numeral)
  then have "distinct free" unfolding free_def by (intro distinct_filter) (simp only: distinct_map distinct_upt)
  moreover have "list_all (\<lambda>c. 2 \<le> unat c \<and> unat c < 390) free"
    by (auto simp: free_def list_all_iff unat_of_nat simp del: upt_rec_numeral)
  moreover have "set free \<inter> set ?used = {}" by (auto simp: free_def simp del: upt_rec_numeral)
  ultimately show "distinct chain" "list_all (\<lambda>c. 2 \<le> unat c \<and> unat c < 390) chain" "set chain \<inter> set ?used = {}"
    using c by (auto simp: list_all_iff dest: in_set_takeD)
qed

lemma init_header [simp]:
  "header_ok (init_with_filename stem ext)" "active (init_with_filename stem ext)" "md_User (init_with_filename stem ext) = 0"
  by (auto simp: header_ok_def active_def init_with_filename_def field_def)

lemma entries_map: "entries b = map (\<lambda>k. read_header b (slot k)) [0..<128]"
  by (simp add: entries_def)

lemma slots_ok: "list_all (\<lambda>k. k < 128) [0..<128]" "distinct [0..<128]"
  by (auto simp: list_all_iff)

text \<open>What a successful save did.\<close>

lemma save_fileE:
  assumes "save_file name content fs = Inr (True, internal, fs')" "fs_size fs = MAX_FS_BYTES"
  obtains chain b where "build_available_chain ((length content + 2047) div 2048) fs = Inr chain" "chain \<noteq> []"
    and "internal \<notin> set (taken_names fs)" "header_ok (name_proto internal)" "active (name_proto internal)" "md_User (name_proto internal) = 0"
    and "allocate_entries [0..<128] (name_proto internal) 0 (length content) chain (fs_bytes fs) = Inr b"
    and "fs' = fs\<lparr>taken_names := internal # taken_names fs, fs_bytes := write_chain MAX_FS_BYTES chain content b\<rparr>"
proof -
  from assms obtain chain stem ext b where s: "build_available_chain ((length content + 2047) div 2048) fs = Inr chain" "chain \<noteq> []"
    "unique_cpm_filename (taken_names fs) name = Inr (stem, ext)" "internal = candidate stem ext"
    "allocate_entries [0..<128] (init_with_filename stem ext) 0 (length content) chain (fs_bytes fs) = Inr b"
    "fs' = fs\<lparr>taken_names := internal # taken_names fs, fs_bytes := write_chain MAX_FS_BYTES chain content b\<rparr>"
    by (auto simp: save_file_def allocate_file_def bind_res_Inr_iff Let_def split: if_splits)
  note u = unique_cpm_name [OF s(3)]
  have p: "name_proto internal = init_with_filename stem ext" unfolding s(4) by (rule name_proto_candidate [OF u(1-3)])
  show thesis by (rule that [OF s(1,2)]) (use s u p in simp_all)
qed

lemma find_file_proto:
  "find_file f b = (case find (\<lambda>h. md_User h = md_User (name_proto f) \<and> same_file (name_proto f) h) (entries b) of
     Some h \<Rightarrow> load_dirent h b | None \<Rightarrow> \<lparr>de_header = None, de_chain = [], de_size = 0\<rparr>)"
  by (simp add: find_file_def name_proto_def same_file_def Let_def split: prod.split)

lemma find_filter: "(\<And>x. P x \<Longrightarrow> Q x) \<Longrightarrow> find P xs = find P [x \<leftarrow> xs. Q x]"
  by (induction xs) auto

lemma proto_user [simp]: "md_User (name_proto f) = 0"
  by (simp add: name_proto_def split: prod.split)

lemma find_file_filter:
  assumes "[h \<leftarrow> entries b. active h \<and> same_file (name_proto f) h] = [h \<leftarrow> entries b'. active h \<and> same_file (name_proto f) h]"
  shows "find_file f b = find_file f b'"
proof -
  let ?P = "\<lambda>h. md_User h = md_User (name_proto f) \<and> same_file (name_proto f) h"
  have F: "find ?P xs = find ?P [h \<leftarrow> xs. active h \<and> same_file (name_proto f) h]" for xs
    by (rule find_filter) (simp add: active_def)
  have found: "find ?P (entries b) = find ?P (entries b')"
    by (subst F, subst (2) F) (simp only: assms)
  have load: "load_dirent h b = load_dirent h b'" if "same_file (name_proto f) h" for h
  proof -
    have "same_file h = same_file (name_proto f)" using that by (auto simp: same_file_def)
    then show ?thesis using assms load_chain_filter [of h "entries b"] load_chain_filter [of h "entries b'"]
      by (simp add: load_dirent_def)
  qed
  show ?thesis
  proof (cases "find ?P (entries b')")
    case None then show ?thesis unfolding find_file_proto found by simp
  next
    case (Some h)
    then have "same_file (name_proto f) h" by (metis (mono_tags, lifting) find_Some_iff)
    then show ?thesis using Some load unfolding find_file_proto found by simp
  qed
qed

lemma directory_outside_clusters:
  assumes "list_all (\<lambda>c. 2 \<le> unat c \<and> unat c < 390) cs"
  shows "entries (write_chain MAX_FS_BYTES cs src b) = entries b"
proof -
  have "write_chain MAX_FS_BYTES cs src b i = b i" if "i < 0xB000" for i
    by (rule write_chain_outside) (use assms that in \<open>auto simp: list_all_iff in_clusters_def cluster_base_def\<close>)
  then have "read_header (write_chain MAX_FS_BYTES cs src b) (slot k) = read_header b (slot k)" if "k < 128" for k
    by (rule read_header_cong) (use that in \<open>simp add: slot_def\<close>)
  then show ?thesis by (simp add: entries_map)
qed

lemma read_chain_cong:
  assumes "\<And>c i. c \<in> set cs \<Longrightarrow> c \<noteq> 0 \<Longrightarrow> cluster_base (unat c) \<le> i \<Longrightarrow> i < cluster_base (unat c) + 2048 \<Longrightarrow>
      fs_bytes fs i = fs_bytes fs' i" and "fs_size fs = fs_size fs'"
  shows "read_chain fs cs r = read_chain fs' cs r"
  using assms
proof (induction cs arbitrary: r)
  case (Cons c cs)
  show ?case
  proof (cases "unat c * 2 < 2")
    case False
    then have "c \<noteq> 0" by auto
    then have "read_cluster fs (unat c * 2) r = read_cluster fs' (unat c * 2) r"
      by (intro read_cluster_cong Cons.prems) simp_all
    moreover have "read_chain fs cs r = read_chain fs' cs r" for r
      by (intro Cons.IH Cons.prems) simp_all
    ultimately show ?thesis by simp
  qed simp
qed simp

lemma load_chain_used: "set (fst (load_chain q (entries b))) \<subseteq> set (used_clusters b)"
proof -
  have "set (fst (load_chain q hs)) \<subseteq> set (concat (map md_FAT [h \<leftarrow> hs. active h]))" for hs
    by (induction hs) (auto simp: active_def split: prod.splits)
  then show ?thesis by (simp add: used_clusters_def)
qed

lemma found_chain_used: "set (de_chain (find_file f b)) \<subseteq> set (used_clusters b)"
proof (cases "find (\<lambda>h. md_User h = md_User (name_proto f) \<and> same_file (name_proto f) h) (entries b)")
  case None then show ?thesis unfolding find_file_proto by simp
next
  case (Some h)
  then have "find_file f b = load_dirent h b" unfolding find_file_proto by simp
  moreover have "de_chain (load_dirent h b) = fst (load_chain h (entries b))"
    by (simp add: load_dirent_def split: prod.split)
  ultimately show ?thesis using load_chain_used [of h b] by simp
qed

lemma filter_map_cong:
  "(\<And>x. x \<in> set xs \<Longrightarrow> f x = g x \<or> \<not> P (f x) \<and> \<not> P (g x)) \<Longrightarrow> filter P (map f xs) = filter P (map g xs)"
  by (induction xs) (simp, metis (no_types, lifting) filter.simps(2) list.map(2) list.set_intros)

lemma records_cover:
  fixes r :: nat
  shows "r \<le> 128 * ((r + 127) div 128)" "128 * ((r + 127) div 128) \<le> 2048 * ((r + 2047) div 2048)"
proof -
  show "r \<le> 128 * ((r + 127) div 128)"
    using div_mult_mod_eq [of "r + 127" 128] mod_less_divisor [of 128 "r + 127"] by linarith
  define q where "q = (r + 2047) div 2048"
  have "r \<le> 2048 * q"
    using div_mult_mod_eq [of "r + 2047" 2048] mod_less_divisor [of 2048 "r + 2047"] unfolding q_def by linarith
  then have "(r + 127) div 128 \<le> (127 + 128 * (16 * q)) div 128" by (intro div_le_mono) simp
  also have "\<dots> = 16 * q" by (subst div_mult_self2) simp_all
  finally show "128 * ((r + 127) div 128) \<le> 2048 * ((r + 2047) div 2048)" unfolding q_def by simp
qed


text \<open>C19: the frame of a save.  Saving a file on a full-size image leaves every file with another on-disk name
  as it was: its directory entries, and the clusters they list, are not touched (no entry in use may list
  cluster 1, which lies inside the directory; the program never assigns it).\<close>

theorem other_files_unchanged:
  assumes "fs_size fs = MAX_FS_BYTES" "save_file name content fs = Inr (True, internal, fs')"
    and "\<not> same_file (name_proto internal) (name_proto other)" "1 \<notin> set (used_clusters (fs_bytes fs))"
  shows "read_file other fs' = read_file other fs"
proof -
  let ?p = "name_proto internal" and ?q = "name_proto other"
  obtain chain b where s: "build_available_chain ((length content + 2047) div 2048) fs = Inr chain"
    "header_ok ?p" "active ?p" and a: "allocate_entries [0..<128] ?p 0 (length content) chain (fs_bytes fs) = Inr b"
    and fs': "fs' = fs\<lparr>taken_names := internal # taken_names fs, fs_bytes := write_chain MAX_FS_BYTES chain content b\<rparr>"
    using save_fileE [OF assms(2,1)] by metis
  note chain = available_chain [OF s(1) assms(1)]
  note keeps = allocate_keeps [OF a s(2,3) slots_ok]
  have dir: "entries (fs_bytes fs') = entries b" using directory_outside_clusters [OF chain(2)] by (simp add: fs')
  have "[h \<leftarrow> entries b. active h \<and> same_file ?q h] = [h \<leftarrow> entries (fs_bytes fs). active h \<and> same_file ?q h]"
    unfolding entries_map
  proof (rule filter_map_cong)
    fix k
    have "\<not> same_file ?q h" if "same_file ?p h" for h using that assms(3) by (auto simp: same_file_def)
    then show "read_header b (slot k) = read_header (fs_bytes fs) (slot k) \<or>
        \<not> (active (read_header b (slot k)) \<and> same_file ?q (read_header b (slot k))) \<and>
        \<not> (active (read_header (fs_bytes fs) (slot k)) \<and> same_file ?q (read_header (fs_bytes fs) (slot k)))"
      using conjunct2 [OF keeps, rule_format, of k] by blast
  qed
  then have found: "find_file other (fs_bytes fs') = find_file other (fs_bytes fs)"
    by (intro find_file_filter) (simp only: dir)
  have used: "set (de_chain (find_file other (fs_bytes fs))) \<subseteq> set (used_clusters (fs_bytes fs))"
    by (rule found_chain_used)
  have "read_chain fs' (de_chain (find_file other (fs_bytes fs))) r = read_chain fs (de_chain (find_file other (fs_bytes fs))) r" for r
  proof (rule read_chain_cong)
    fix c i assume c: "c \<in> set (de_chain (find_file other (fs_bytes fs)))" "c \<noteq> 0"
      and i: "cluster_base (unat c) \<le> i" "i < cluster_base (unat c) + 2048"
    have "c \<noteq> 1" "c \<notin> set chain" using c(1) used assms(4) chain(3) by auto
    then have "2 \<le> unat c" using c(2) by (metis One_nat_def Suc_1 le_antisym not_less_eq_eq unat_1 unat_eq_0 word_unat_eq_iff zero_le)
    then have "0xB000 \<le> i" using i(1) by (simp add: cluster_base_def)
    moreover have "\<not> in_clusters chain i"
    proof
      assume "in_clusters chain i"
      then obtain d where d: "d \<in> set chain" "cluster_base (unat d) \<le> i" "i < cluster_base (unat d) + 2048" by (auto simp: in_clusters_def)
      then have "unat c \<noteq> unat d" using \<open>c \<notin> set chain\<close> by (metis word_unat_eq_iff)
      then show False using clusters_disjoint [OF _ i] d(2,3) by blast
    qed
    moreover have "list_all (\<lambda>c. unat c < 390) chain" using chain(2) by (simp add: list_all_iff)
    ultimately show "fs_bytes fs' i = fs_bytes fs i" using conjunct1 [OF keeps] write_chain_outside by (simp add: fs')
  qed (simp add: fs')
  then show ?thesis by (simp add: read_file_def read_bytes_def found Let_def)
qed

lemma mount_append:
  "mount_files (xs @ ys) fs = bind_res (mount_files xs fs) (mount_files ys)"
proof (induction xs arbitrary: fs)
  case (Cons x xs)
  obtain name content where x: "x = (name, content)" by (cases x)
  show ?case using Cons.IH
    by (cases content; cases "save_file name (the content) fs") (auto simp: x split: sum.split)
qed simp

text \<open>C38: a bare name stops the mount.  When the directory holds a file whose name has no dot, the extension is
  taken from the position after the end of an empty text: the mount ends with \<^verbatim>\<open>std::out_of_range\<close> and the
  files after it are not put on the disk.\<close>

theorem mount_stops_at_bare_name:
  assumes "mount_files before fs = Inr fs'" "CHR ''.'' \<notin> set name" "0 < length content" "length content \<le> MAX_FS_BYTES"
    and "build_available_chain ((length content + 2047) div 2048) fs' = Inr chain" "chain \<noteq> []"
  shows "mount_local_dir (Some (before @ (name, Some content) # after)) fs = Inl Out_of_range"
proof -
  have "set (rev (takeWhile (\<lambda>c. \<not> is_separator c) (rev name))) \<subseteq> set name" using set_takeWhileD by fastforce
  then have "CHR ''.'' \<notin> set (rev (takeWhile (\<lambda>c. \<not> is_separator c) (rev name)))" using assms(2) by blast
  then have "unique_cpm_filename taken name = Inl Out_of_range" for taken
    by (simp add: unique_cpm_filename_def split_path_def Let_def rfind_char_absent str_toupper_def substr_def)
  then have "save_file name content fs' = Inl Out_of_range" using assms(5,6) by (simp add: save_file_def allocate_file_def)
  then show ?thesis using assms(1,3,4) by (simp add: mount_local_dir_def mount_append)
qed

section \<open>Examples\<close>

abbreviation blank_disk :: fsimage where
  "blank_disk \<equiv> FilesystemImage_new MAX_FS_BYTES"

lemma blank_header: "read_header (\<lambda>_. 0xE5) p = read_header (\<lambda>_. 0xE5) 0" "\<not> active (read_header (\<lambda>_. 0xE5) p)"
  by (simp_all add: read_header_def active_def)

lemma blank_disk_simps [simp]: "fs_bytes blank_disk = (\<lambda>_. 0xE5)" "fs_size blank_disk = MAX_FS_BYTES" "taken_names blank_disk = []"
  by (simp_all add: FilesystemImage_new_def)

lemma used_blank: "used_clusters (\<lambda>_. 0xE5) = []"
  by (simp add: used_clusters_def entries_map filter_map comp_def blank_header(2) del: upt_rec_numeral)

lemma first_clusters: "map word_of_nat [2..<390] = (2 :: u16) # 3 # map word_of_nat [4..<390]"
  by (simp add: upt_conv_Cons del: upt_rec_numeral)

lemma available_one:
  assumes "fs_size fs = MAX_FS_BYTES"
  shows "used_clusters (fs_bytes fs) = [] \<Longrightarrow> build_available_chain 1 fs = Inr [2]"
    "used_clusters (fs_bytes fs) = 2 # replicate 7 0 \<Longrightarrow> build_available_chain 1 fs = Inr [3]"
  using assms by (simp_all add: build_available_chain_def MAX_FS_BYTES_def Let_def first_clusters del: upt_rec_numeral)

lemma allocate_skip:
  "list_all (\<lambda>k. active (read_header b (slot k))) ks \<Longrightarrow>
     allocate_entries (ks @ ks') proto e r chain b = allocate_entries ks' proto e r chain b"
proof (induction ks)
  case (Cons k ks)
  then show ?case by (cases "r = 0"; cases ks') (simp_all add: active_def)
qed simp

definition small_header :: "MDHeader \<Rightarrow> nat \<Rightarrow> u16 \<Rightarrow> MDHeader" where
  "small_header proto n c = proto\<lparr>md_Records := word_of_nat ((n + 127) div 128), md_Extent := 0, md_FAT := c # replicate 7 0\<rparr>"

text \<open>A file that fits one cluster.\<close>

lemma save_small:
  assumes "build_available_chain 1 fs = Inr [c]" "unique_cpm_filename (taken_names fs) name = Inr (stem, ext)"
    and "0 < length content" "length content \<le> 2048" "[0..<128] = ks @ k # ks'"
    and "list_all (\<lambda>k. active (read_header (fs_bytes fs) (slot k))) ks" "\<not> active (read_header (fs_bytes fs) (slot k))"
  shows "save_file name content fs = Inr (True, candidate stem ext,
     fs\<lparr>taken_names := candidate stem ext # taken_names fs,
        fs_bytes := write_chain (fs_size fs) [c] content
          (put_bytes (slot k) (header_bytes (small_header (init_with_filename stem ext) (length content) c)) (fs_bytes fs))\<rparr>)"
proof -
  have "0 < l \<Longrightarrow> l \<le> 2048 \<Longrightarrow> (l + 2047) div 2048 = 1" for l :: nat by simp
  then have n: "(length content + 2047) div 2048 = 1" using assms(3,4) by blast
  have f: "fill_fat 8 (length content) [c] = Inr (c # replicate 7 0, 0, [])"
    using assms(3,4) by (simp add: eval_nat_numeral)
  have "(length content + 127) div 128 \<le> 128" using assms(4) by simp
  then have "allocate_entries [0..<128] (init_with_filename stem ext) 0 (length content) [c] (fs_bytes fs) =
      Inr (put_bytes (slot k) (header_bytes (small_header (init_with_filename stem ext) (length content) c)) (fs_bytes fs))"
    using assms(3,7) unfolding assms(5) allocate_skip [OF assms(6)]
    by (cases ks') (simp_all add: f active_def Let_def small_header_def min_absorb2)
  then show ?thesis using assms(1,2) by (simp add: save_file_def n allocate_file_def Let_def del: write_chain.simps)
qed

abbreviation one_file :: "u8 list \<Rightarrow> fsimage" where
  "one_file content \<equiv> blank_disk\<lparr>taken_names := [''A.B''], fs_bytes := write_chain MAX_FS_BYTES [2] content
     (put_bytes (slot 0) (header_bytes (small_header (init_with_filename ''A'' ''B'') (length content) 2)) (\<lambda>_. 0xE5))\<rparr>"

lemma example_names:
  "unique_cpm_filename [] ''a.b'' = Inr (''A'', ''B'')" "unique_cpm_filename [''A.B''] ''c.d'' = Inr (''C'', ''D'')"
  "name_proto ''A.B'' = init_with_filename ''A'' ''B''" "name_proto ''C.D'' = init_with_filename ''C'' ''D''"
  "\<not> same_file (name_proto ''C.D'') (name_proto ''A.B'')"
  by code_simp+

lemma save_first:
  assumes "0 < length content" "length content \<le> 2048"
  shows "save_file ''a.b'' content blank_disk = Inr (True, ''A.B'', one_file content)"
  using save_small [of blank_disk 2 "''a.b''" "''A''" "''B''" content "[]" 0 "[1..<128]"] assms
    available_one(1) [of blank_disk] example_names(1) blank_header(2)
  by (simp add: used_blank candidate_def upt_conv_Cons del: upt_rec_numeral write_chain.simps)

lemma blank_free: "list_all (\<lambda>h. \<not> active h) (entries (\<lambda>_. 0xE5))" "[h \<leftarrow> entries (\<lambda>_. 0xE5). \<not> active h] = entries (\<lambda>_. 0xE5)"
  by (simp_all add: list_all_iff filter_id_conv entries_map blank_header(2) del: upt_rec_numeral)


theorem mount_stops_at_bare_name_witness:
  "mount_local_dir (Some ([(''src'', None)] @ (''README'', Some [0x41]) # [(''a.b'', Some [0x76])])) blank_disk = Inl Out_of_range"
proof -
  have chain: "build_available_chain ((length [0x41 :: u8] + 2047) div 2048) blank_disk = Inr [2]"
    using available_one(1) [of blank_disk] by (simp add: used_blank)
  show ?thesis by (rule mount_stops_at_bare_name [OF _ _ _ _ chain]) (simp_all add: MAX_FS_BYTES_def)
qed

lemma one_file_slots:
  assumes "0 < length content" "length content \<le> 2048"
  shows "entries (fs_bytes (one_file content)) =
      small_header (init_with_filename ''A'' ''B'') (length content) 2 # map (\<lambda>k. read_header (\<lambda>_. 0xE5) (slot k)) [1..<128]"
proof -
  let ?h = "small_header (init_with_filename ''A'' ''B'') (length content) 2"
  have h: "header_ok ?h" using init_header(1) [of "''A''" "''B''"] by (simp add: small_header_def header_ok_def)
  have "entries (fs_bytes (one_file content)) = entries (put_bytes (slot 0) (header_bytes ?h) (\<lambda>_. 0xE5))"
    using directory_outside_clusters [of "[2]"] by (simp del: write_chain.simps)
  moreover have "[0..<128] = 0 # [1..<128::nat]" by (simp add: upt_conv_Cons del: upt_rec_numeral)
  moreover have "map (\<lambda>k. read_header (put_bytes (slot 0) (header_bytes ?h) b) (slot k)) [1..<128] =
      map (\<lambda>k. read_header b (slot k)) [1..<128]" for b
    by (rule map_cong) (auto intro!: read_other_header [OF h] simp del: upt_rec_numeral)
  ultimately show ?thesis using read_put_header [OF h] by (simp add: entries_map del: upt_rec_numeral)
qed

theorem other_files_unchanged_witness:
  "\<exists>fs' fs''. save_file ''a.b'' [0x76, 0xC9] blank_disk = Inr (True, ''A.B'', fs') \<and>
     save_file ''c.d'' [0xC7] fs' = Inr (True, ''C.D'', fs'') \<and> read_file ''A.B'' fs'' = read_file ''A.B'' fs'"
proof -
  let ?fs = "one_file [0x76, 0xC9]" and ?h = "small_header (init_with_filename ''A'' ''B'') (length [0x76, 0xC9 :: u8]) 2"
  have dir: "entries (fs_bytes ?fs) = ?h # map (\<lambda>k. read_header (\<lambda>_. 0xE5) (slot k)) [1..<128]"
    by (rule one_file_slots) simp_all
  have act: "active ?h" by (simp add: small_header_def active_def)
  then have used: "used_clusters (fs_bytes ?fs) = 2 # replicate 7 0" unfolding used_clusters_def dir
    by (simp add: filter_map comp_def blank_header(2) small_header_def del: upt_rec_numeral)
  have at: "read_header (fs_bytes ?fs) (slot 0) = ?h" "\<not> active (read_header (fs_bytes ?fs) (slot 1))"
  proof -
    have "entries (fs_bytes ?fs) ! 0 = ?h" "entries (fs_bytes ?fs) ! 1 = read_header (\<lambda>_. 0xE5) (slot 1)" unfolding dir by simp_all
    then show "read_header (fs_bytes ?fs) (slot 0) = ?h" "\<not> active (read_header (fs_bytes ?fs) (slot 1))"
      using blank_header(2) by (simp_all add: entries_map del: upt_rec_numeral write_chain.simps)
  qed
  have split: "[0..<128] = [0] @ 1 # [2..<128::nat]" by (simp add: upt_conv_Cons del: upt_rec_numeral)
  have size': "fs_size ?fs = MAX_FS_BYTES" "taken_names ?fs = [''A.B'']" by simp_all
  have s: "save_file ''a.b'' [0x76, 0xC9] blank_disk = Inr (True, ''A.B'', ?fs)"
    by (rule save_first) simp_all
  obtain fs'' where s': "save_file ''c.d'' [0xC7] ?fs = Inr (True, ''C.D'', fs'')"
    using save_small [OF available_one(2) [OF size'(1) used], of "''c.d''" "''C''" "''D''" "[0xC7]" "[0]" 1 "[2..<128]", OF _ _ _ split]
      at act example_names(2) size'(2) by (simp add: candidate_def del: write_chain.simps upt_rec_numeral)
  have "1 \<notin> set (used_clusters (fs_bytes ?fs))" unfolding used by simp
  then have "read_file ''A.B'' fs'' = read_file ''A.B'' ?fs"
    using other_files_unchanged [OF size'(1) s' example_names(5)] by blast
  with s s' show ?thesis by blast
qed

end
