(* ===== verification/Png.thy ===== *)
theory Png
  imports Prelude
begin

text \<open>
  The pictures the agent interface returns (\<^verbatim>\<open>debugger/agent/png_encoder.cpp\<close>): PNG files with
  stored blocks, and base64.  The checksums are compared with their definitions, a shift register
  fed bit by bit and two sums over the integers; the files with a decoder of the formats
  (PNG, zlib, stored DEFLATE) that checks every length and checksum.
\<close>

section \<open>The code\<close>

subsection \<open>Checksums\<close>

definition crc_step :: "u32 \<Rightarrow> u32" where
  "crc_step c = (if c AND 1 \<noteq> 0 then 0xEDB88320 XOR drop_bit 1 c else drop_bit 1 c)"

definition crc_table :: "u32 list" where
  "crc_table = map (\<lambda>n. (crc_step ^^ 8) (word_of_nat n)) [0..<256]"

definition crc_byte :: "u8 \<Rightarrow> u32 \<Rightarrow> u32" where
  "crc_byte d c = crc_table ! unat ((c XOR ucast d) AND 0xFF) XOR drop_bit 8 c"

definition crc32Compute :: "u8 list \<Rightarrow> u32" where
  "crc32Compute data = fold crc_byte data 0xFFFFFFFF XOR 0xFFFFFFFF"

definition adler_step :: "u8 \<Rightarrow> u32 \<times> u32 \<Rightarrow> u32 \<times> u32" where
  "adler_step d st = (let (a, b) = st; a = a + ucast d in (a, b + a))"

function adler_loop :: "u8 list \<Rightarrow> u32 \<times> u32 \<Rightarrow> u32 \<times> u32" where
  "adler_loop data st =
     (if data = [] then st
      else let (a, b) = fold adler_step (take 5552 data) st
        in adler_loop (drop 5552 data) (a mod 65521, b mod 65521))"
  by pat_completeness auto
termination by (relation "measure (\<lambda>(data, st). length data)") auto

declare adler_loop.simps [simp del]

definition adler32Compute :: "u8 list \<Rightarrow> u32" where
  "adler32Compute data = (let (a, b) = adler_loop data (1, 0) in push_bit 16 b OR a)"

subsection \<open>Chunks\<close>

definition pushBE32 :: "u32 \<Rightarrow> u8 list" where
  "pushBE32 v = [ucast (drop_bit 24 v AND 0xFF), ucast (drop_bit 16 v AND 0xFF),
     ucast (drop_bit 8 v AND 0xFF), ucast (v AND 0xFF)]"

definition ascii :: "string \<Rightarrow> u8 list" where
  "ascii s = map (\<lambda>c. word_of_nat (of_char c)) s"

definition appendChunk :: "u8 list \<Rightarrow> u8 list \<Rightarrow> u8 list \<Rightarrow> u8 list" where
  "appendChunk out ty data =
     (let out = out @ pushBE32 (word_of_nat (length data)); crcStart = length out; out = out @ ty @ data
      in out @ pushBE32 (crc32Compute (drop crcStart out)))"

subsection \<open>The picture\<close>

definition png_signature :: "u8 list" where
  "png_signature = [0x89, 0x50, 0x4E, 0x47, 0x0D, 0x0A, 0x1A, 0x0A]"

definition ihdr_data :: "int \<Rightarrow> int \<Rightarrow> u8 list" where
  "ihdr_data width height = pushBE32 (word_of_int width) @ pushBE32 (word_of_int height) @ [8, 6, 0, 0, 0]"

definition raw_rows :: "u8 list \<Rightarrow> nat \<Rightarrow> nat \<Rightarrow> u8 list" where
  "raw_rows rgba rowBytes height = concat (map (\<lambda>y. 0 # take rowBytes (drop (y * rowBytes) rgba)) [0..<height])"

function stored_blocks :: "u8 list \<Rightarrow> u8 list" where
  "stored_blocks raw =
     (let n = min (length raw) 65535; nlen = NOT (word_of_nat n) :: u16;
          block = [if length raw \<le> 65535 then 1 else 0, lo8 (word_of_nat n), hi8 (word_of_nat n), lo8 nlen, hi8 nlen] @ take n raw
      in if drop n raw = [] then block else block @ stored_blocks (drop n raw))"
  by pat_completeness auto
termination by (relation "measure length") auto

declare stored_blocks.simps [simp del]

definition zlib_data :: "u8 list \<Rightarrow> u8 list" where
  "zlib_data raw = [0x78, 0x01] @ stored_blocks raw @ pushBE32 (adler32Compute raw)"

text \<open>A null pointer is \<open>None\<close>; reading past the end of the pixels is undefined.\<close>

definition encodeRGBA :: "u8 list option \<Rightarrow> int \<Rightarrow> int \<Rightarrow> u8 list res" where
  "encodeRGBA rgba width height =
     (if width \<le> 0 \<or> height \<le> 0 then Inr [] else case rgba of None \<Rightarrow> Inr []
      | Some pixels \<Rightarrow>
          let rowBytes = nat width * 4
          in if length pixels < rowBytes * nat height then Inl Undefined
             else let out = appendChunk png_signature (ascii ''IHDR'') (ihdr_data width height);
                      out = appendChunk out (ascii ''IDAT'') (zlib_data (raw_rows pixels rowBytes (nat height)))
               in Inr (appendChunk out (ascii ''IEND'') []))"

subsection \<open>Base64\<close>

definition ALPHABET :: string where
  "ALPHABET = ''ABCDEFGHIJKLMNOPQRSTUVWXYZabcdefghijklmnopqrstuvwxyz0123456789+/''"

definition sextet :: "u32 \<Rightarrow> nat \<Rightarrow> char" where
  "sextet n k = ALPHABET ! unat (drop_bit k n AND 0x3F)"

fun base64Encode :: "u8 list \<Rightarrow> string" where
  "base64Encode (x # y # z # rest) =
     (let n = push_bit 16 (ucast x) OR push_bit 8 (ucast y) OR ucast z
      in [sextet n 18, sextet n 12, sextet n 6, sextet n 0] @ base64Encode rest)"
| "base64Encode [x, y] =
     (let n = push_bit 16 (ucast x) OR push_bit 8 (ucast y) in [sextet n 18, sextet n 12, sextet n 6, CHR ''=''])"
| "base64Encode [x] = (let n = push_bit 16 (ucast x) in [sextet n 18, sextet n 12, CHR ''='', CHR ''=''])"
| "base64Encode [] = []"

section \<open>Checksums against their definitions\<close>

text \<open>The shift register of the CRC, fed with the bits of the message, low bits first.\<close>

definition crc_bit :: "bool \<Rightarrow> u32 \<Rightarrow> u32" where
  "crc_bit x c = (if bit c 0 \<noteq> x then drop_bit 1 c XOR 0xEDB88320 else drop_bit 1 c)"

definition message_bits :: "u8 list \<Rightarrow> bool list" where
  "message_bits data = concat (map (\<lambda>d. map (bit d) [0..<8]) data)"

definition crc32_spec :: "u8 list \<Rightarrow> u32" where
  "crc32_spec data = NOT (fold crc_bit (message_bits data) (NOT 0))"

definition adler_a :: "u8 list \<Rightarrow> nat" where
  "adler_a data = 1 + sum_list (map unat data)"

definition adler_b :: "u8 list \<Rightarrow> nat" where
  "adler_b data = (\<Sum>i \<leftarrow> [1..<Suc (length data)]. adler_a (take i data))"

definition adler32_spec :: "u8 list \<Rightarrow> nat" where
  "adler32_spec data = adler_b data mod 65521 * 65536 + adler_a data mod 65521"

lemma crc_step_odd: "crc_step c = (if odd c then 0xEDB88320 XOR drop_bit 1 c else drop_bit 1 c)"
  by (simp add: crc_step_def and_one_eq odd_iff_mod_2_eq_one)

lemma crc_step_xor: "crc_step (x XOR y) = crc_step x XOR crc_step y"
  by (simp add: crc_step_odd even_xor_iff ac_simps)

lemma crc_steps_xor: "(crc_step ^^ k) (x XOR y) = (crc_step ^^ k) x XOR (crc_step ^^ k) y"
  by (induction k arbitrary: x y) (simp_all add: crc_step_xor)

lemma crc_steps_high:
  "(\<And>i. i < k \<Longrightarrow> \<not> bit c i) \<Longrightarrow> (crc_step ^^ k) c = drop_bit k c"
proof (induction k)
  case (Suc k)
  have "even (drop_bit k c)" using Suc.prems [of k] by (simp add: even_drop_bit_iff_not_bit)
  then show ?case using Suc by (simp add: crc_step_odd)
qed simp

lemma crc_bit_step: "crc_bit x c = crc_step (c XOR of_bool x)"
  by (cases x) (auto simp: crc_bit_def crc_step_odd bit_0 even_xor_iff ac_simps drop_bit_xor)


lemma take_bit_Suc_xor: "take_bit (Suc k) d = take_bit k d XOR push_bit k (of_bool (bit d k))" for d :: "'a::len word"
  by (rule bit_word_eqI) (auto simp: bit_simps less_Suc_eq)

lemma crc_bits_steps:
  "k \<le> 8 \<Longrightarrow> fold crc_bit (map (bit d) [0..<k]) c = (crc_step ^^ k) (c XOR ucast (take_bit k (d :: u8)))"
proof (induction k)
  case (Suc k)
  have "(crc_step ^^ k) (push_bit k (of_bool (bit d k))) = drop_bit k (push_bit k (of_bool (bit d k)))"
    by (rule crc_steps_high) (simp add: bit_simps)
  also have "\<dots> = of_bool (bit d k)" using Suc.prems by (auto intro!: bit_word_eqI simp: bit_simps)
  finally have b: "(crc_step ^^ k) (push_bit k (of_bool (bit d k))) = of_bool (bit d k)" .
  have u: "ucast (take_bit (Suc k) d) = ucast (take_bit k d) XOR (push_bit k (of_bool (bit d k)) :: u32)"
    using Suc.prems by (auto intro!: bit_word_eqI simp: bit_simps less_Suc_eq)
  have "fold crc_bit (map (bit d) [0..<Suc k]) c = crc_step ((crc_step ^^ k) (c XOR ucast (take_bit k d)) XOR of_bool (bit d k))"
    using Suc by (simp add: crc_bit_step [of "bit d k"])
  also have "\<dots> = crc_step ((crc_step ^^ k) (c XOR ucast (take_bit (Suc k) d)))"
    unfolding u using b by (simp add: crc_steps_xor xor.assoc)
  finally show ?case by simp
qed simp

lemma crc_byte_bits: "fold crc_bit (map (bit d) [0..<8]) c = crc_byte d c"
proof -
  let ?x = "c XOR ucast d"
  have x: "?x = (?x AND 0xFF) XOR (?x AND NOT 0xFF)"
    by (rule bit_word_eqI) (auto simp: bit_simps)
  have FF: "(0xFF :: u32) = mask 8" by (simp add: mask_eq_exp_minus_1)
  have low: "\<not> bit (?x AND NOT 0xFF) i" if "i < 8" for i using that unfolding FF by (auto simp: bit_simps)
  have high: "drop_bit 8 (?x AND NOT 0xFF) = drop_bit 8 c" unfolding FF
    by (rule bit_word_eqI) (auto simp: bit_simps dest: bit_u8_bound bit_imp_le_length)
  have small: "unat (?x AND 0xFF) < 256" unfolding FF take_bit_eq_mask [symmetric]
    by (simp add: unsigned_take_bit_eq take_bit_eq_mod unat_mod)
  have "fold crc_bit (map (bit d) [0..<8]) c = (crc_step ^^ 8) ?x"
    using crc_bits_steps [of 8 d c] take_bit_word_eq_self [of 8 d] by simp
  also have "\<dots> = (crc_step ^^ 8) (?x AND 0xFF) XOR drop_bit 8 c"
    using crc_steps_high [OF low] high crc_steps_xor [of 8 "?x AND 0xFF" "?x AND NOT 0xFF"] x by metis
  also have "(crc_step ^^ 8) (?x AND 0xFF) = crc_table ! unat (?x AND 0xFF)"
    using small by (simp add: crc_table_def del: upt_rec_numeral funpow.simps)
  finally show ?thesis by (simp add: crc_byte_def)
qed

lemma crc_spec: "crc32Compute data = crc32_spec data"
proof -
  have "fold crc_bit (message_bits data) c = fold crc_byte data c" for c
    by (induction data arbitrary: c) (simp_all add: message_bits_def crc_byte_bits del: upt_rec_numeral)
  moreover have "(0xFFFFFFFF :: u32) = - 1" by simp
  moreover have "x XOR - 1 = NOT x" for x :: u32 by (rule bit_word_eqI) (auto simp: bit_simps)
  ultimately show ?thesis by (simp only: crc32Compute_def crc32_spec_def bit.compl_zero)
qed

definition adler_nat :: "u8 \<Rightarrow> nat \<times> nat \<Rightarrow> nat \<times> nat" where
  "adler_nat d st = (fst st + unat d, snd st + fst st + unat d)"

lemma adler_nat_sums: "fold adler_nat data (1, 0) = (adler_a data, adler_b data)"
proof (induction data rule: rev_induct)
  case (snoc d data)
  have "(\<Sum>i \<leftarrow> [1..<Suc (length data)]. adler_a (take i (data @ [d]))) = (\<Sum>i \<leftarrow> [1..<Suc (length data)]. adler_a (take i data))"
    by (rule arg_cong [where f = sum_list], rule map_cong) auto
  then show ?case using snoc by (simp add: adler_nat_def adler_a_def adler_b_def)
qed (simp add: adler_a_def adler_b_def)

lemma fst_adler_nat: "fst (fold adler_nat data st) = fst st + sum_list (map unat data)"
  by (induction data rule: rev_induct) (simp_all add: adler_nat_def)

lemma adler_nat_shift:
  "snd (fold adler_nat data st) = snd st + length data * fst st + snd (fold adler_nat data (0, 0))"
proof (induction data rule: rev_induct)
  case (snoc d data)
  have "snd (adler_nat d st) = snd st + fst st + unat d" for st by (simp add: adler_nat_def)
  then show ?case using snoc fst_adler_nat [of data st] fst_adler_nat [of data "(0, 0)"] by simp
qed simp

lemma adler_nat_mod:
  assumes "a mod m = a' mod m" "b mod m = b' mod m"
  shows "fst (fold adler_nat data (a, b)) mod m = fst (fold adler_nat data (a', b')) mod m"
    "snd (fold adler_nat data (a, b)) mod m = snd (fold adler_nat data (a', b')) mod m"
proof -
  show "fst (fold adler_nat data (a, b)) mod m = fst (fold adler_nat data (a', b')) mod m"
    using assms unfolding fst_adler_nat fst_conv by (intro mod_add_cong) simp_all
  show "snd (fold adler_nat data (a, b)) mod m = snd (fold adler_nat data (a', b')) mod m"
    using assms unfolding adler_nat_shift [of data "(a, b)"] adler_nat_shift [of data "(a', b')"] fst_conv snd_conv
    by (intro mod_add_cong mod_mult_cong) simp_all
qed

text \<open>Within a block of 5552 bytes the sums stay below \<open>2 ^ 32\<close>.\<close>

lemma adler_nat_bound:
  assumes "a < 65521" "b < 65521" "length data \<le> 5552"
  shows "fst (fold adler_nat data (a, b)) < 4294967296" "snd (fold adler_nat data (a, b)) < 4294967296"
proof -
  have "sum_list (map unat data) \<le> 255 * length data \<and> 2 * snd (fold adler_nat data (0, 0)) \<le> 255 * (length data * (length data + 1))"
  proof (induction data rule: rev_induct)
    case (snoc d data)
    have "unat d \<le> 255" using unat_u8_lt [of d] by linarith
    moreover have "snd (fold adler_nat (data @ [d]) (0, 0)) = snd (fold adler_nat data (0, 0)) + sum_list (map unat data) + unat d"
      using fst_adler_nat [of data "(0, 0)"] by (simp add: adler_nat_def)
    ultimately show ?case using snoc by (simp add: algebra_simps)
  qed simp
  moreover have "length data * (length data + 1) \<le> 5552 * 5553" using assms(3) by (intro mult_le_mono) simp_all
  moreover have "length data * a \<le> 5552 * 65520" using assms(1,3) by (intro mult_le_mono) simp_all
  ultimately show "fst (fold adler_nat data (a, b)) < 4294967296" "snd (fold adler_nat data (a, b)) < 4294967296"
    using assms unfolding fst_adler_nat adler_nat_shift [of data "(a, b)"] fst_conv snd_conv by linarith+
qed

lemma adler_step_nat:
  assumes "fst (fold adler_nat data (unat a, unat b)) < 4294967296" "snd (fold adler_nat data (unat a, unat b)) < 4294967296"
  shows "fold adler_step data (a, b) = map_prod word_of_nat word_of_nat (fold adler_nat data (unat a, unat b))"
  by (induction data rule: rev_induct)
    (auto simp: adler_step_def adler_nat_def Let_def split_beta)

lemma adler_loop_nat:
  assumes "unat a < 65521" "unat b < 65521"
  shows "adler_loop data (a, b) =
    (word_of_nat (fst (fold adler_nat data (unat a, unat b)) mod 65521), word_of_nat (snd (fold adler_nat data (unat a, unat b)) mod 65521))"
  using assms
proof (induction "length data" arbitrary: data a b rule: less_induct)
  case less
  show ?case
  proof (cases "data = []")
    case True
    then show ?thesis using less.prems by (simp add: adler_loop.simps)
  next
    case False
    let ?t = "fold adler_nat (take 5552 data) (unat a, unat b)"
    have bound: "fst ?t < 4294967296" "snd ?t < 4294967296" using adler_nat_bound [OF less.prems] by simp_all
    define a' b' where "a' = (word_of_nat (fst ?t) :: u32) mod 65521" and "b' = (word_of_nat (snd ?t) :: u32) mod 65521"
    have u: "unat a' = fst ?t mod 65521" "unat b' = snd ?t mod 65521"
      using bound by (simp_all add: a'_def b'_def unat_mod unat_of_nat)
    have "adler_loop data (a, b) = adler_loop (drop 5552 data) (a', b')"
      using False adler_step_nat [OF bound] by (subst adler_loop.simps) (simp add: a'_def b'_def split_beta)
    also have "\<dots> = (word_of_nat (fst (fold adler_nat (drop 5552 data) (unat a', unat b')) mod 65521),
        word_of_nat (snd (fold adler_nat (drop 5552 data) (unat a', unat b')) mod 65521))"
      using False u by (intro less.hyps) simp_all
    also have "fst (fold adler_nat (drop 5552 data) (unat a', unat b')) mod 65521 = fst (fold adler_nat (drop 5552 data) (fst ?t, snd ?t)) mod 65521"
      by (rule adler_nat_mod) (simp_all add: u)
    also have "snd (fold adler_nat (drop 5552 data) (unat a', unat b')) mod 65521 = snd (fold adler_nat (drop 5552 data) (fst ?t, snd ?t)) mod 65521"
      by (rule adler_nat_mod) (simp_all add: u)
    finally show ?thesis
      by (metis append_take_drop_id comp_apply fold_append prod.collapse)
  qed
qed

lemma adler_spec: "adler32Compute data = word_of_nat (adler32_spec data)" "adler32_spec data < 4294967296"
proof -
  let ?a = "adler_a data mod 65521" and ?b = "adler_b data mod 65521"
  have l: "adler_loop data (1, 0) = (word_of_nat ?a, word_of_nat ?b)"
    using adler_loop_nat [of 1 0 data] by (simp add: adler_nat_sums del: One_nat_def)
  have lt: "?a < 65521" "?b < 65521" by simp_all
  then show "adler32_spec data < 4294967296" unfolding adler32_spec_def by linarith
  have "push_bit 16 (word_of_nat ?b) OR (word_of_nat ?a :: u32) = word_of_nat (?a OR push_bit 16 ?b)"
    by (simp add: of_nat_or_eq of_nat_push_bit or.commute del: of_nat_mod)
  also have "?a OR push_bit 16 ?b = adler32_spec data"
    using or_shifted_digit [of ?a 16 ?b] lt by (simp add: adler32_spec_def push_bit_eq_mult)
  finally show "adler32Compute data = word_of_nat (adler32_spec data)" by (simp add: adler32Compute_def l)
qed

section \<open>A decoder of the formats\<close>

fun read_be32 :: "u8 list \<Rightarrow> (nat \<times> u8 list) option" where
  "read_be32 (a # b # c # d # rest) = Some (((unat a * 256 + unat b) * 256 + unat c) * 256 + unat d, rest)"
| "read_be32 _ = None"

text \<open>A chunk: its type, its data and the bytes after it.\<close>

definition read_chunk :: "u8 list \<Rightarrow> (u8 list \<times> u8 list \<times> u8 list) option" where
  "read_chunk bs = (case read_be32 bs of None \<Rightarrow> None
     | Some (n, r) \<Rightarrow> if length r < n + 4 then None
         else case read_be32 (drop (n + 4) r) of None \<Rightarrow> None
           | Some (crc, rest) \<Rightarrow>
               if word_of_nat crc = crc32_spec (take (n + 4) r) then Some (take 4 r, drop 4 (take (n + 4) r), rest) else None)"

function inflate_stored :: "u8 list \<Rightarrow> (u8 list \<times> u8 list) option" where
  "inflate_stored bs = (case bs of
     f # a # b # c # d # r \<Rightarrow>
       let n = mk16 b a
       in if bit f 1 \<or> bit f 2 \<or> mk16 d c \<noteq> NOT n \<or> length r < unat n then None
          else if bit f 0 then Some (take (unat n) r, drop (unat n) r)
          else (case inflate_stored (drop (unat n) r) of None \<Rightarrow> None
                | Some (x, rest) \<Rightarrow> Some (take (unat n) r @ x, rest))
   | _ \<Rightarrow> None)"
  by pat_completeness auto
termination by (relation "measure length") auto

declare inflate_stored.simps [simp del]

definition zlib_decode :: "u8 list \<Rightarrow> u8 list option" where
  "zlib_decode bs = (case bs of
     cmf # flg # r \<Rightarrow>
       if unat cmf mod 16 \<noteq> 8 \<or> (unat cmf * 256 + unat flg) mod 31 \<noteq> 0 \<or> bit flg 5 then None
       else (case inflate_stored r of None \<Rightarrow> None
         | Some (raw, t) \<Rightarrow> (case read_be32 t of None \<Rightarrow> None
             | Some (s, rest) \<Rightarrow> if s = adler32_spec raw \<and> rest = [] then Some raw else None))
   | _ \<Rightarrow> None)"

text \<open>Rows of \<open>n\<close> bytes, each after the filter type 0.\<close>

fun unfilter :: "nat \<Rightarrow> nat \<Rightarrow> u8 list \<Rightarrow> u8 list option" where
  "unfilter n 0 raw = (if raw = [] then Some [] else None)"
| "unfilter n (Suc h) raw = (case raw of
     f # r \<Rightarrow> if f \<noteq> 0 \<or> length r < n then None
       else map_option ((@) (take n r)) (unfilter n h (drop n r))
   | [] \<Rightarrow> None)"

text \<open>Width, height and pixels of a picture of eight-bit RGBA values.\<close>

definition decode_png :: "u8 list \<Rightarrow> (nat \<times> nat \<times> u8 list) option" where
  "decode_png bs =
     (if take 8 bs \<noteq> png_signature then None
      else case read_chunk (drop 8 bs) of None \<Rightarrow> None
      | Some (t1, ihdr, r1) \<Rightarrow> (case read_chunk r1 of None \<Rightarrow> None
        | Some (t2, idat, r2) \<Rightarrow> (case read_chunk r2 of None \<Rightarrow> None
          | Some (t3, iend, r3) \<Rightarrow>
              if t1 \<noteq> ascii ''IHDR'' \<or> t2 \<noteq> ascii ''IDAT'' \<or> t3 \<noteq> ascii ''IEND'' \<or> iend \<noteq> [] \<or> r3 \<noteq> [] then None
              else case read_be32 ihdr of None \<Rightarrow> None
              | Some (w, q) \<Rightarrow> (case read_be32 q of None \<Rightarrow> None
                | Some (h, q) \<Rightarrow> if q \<noteq> [8, 6, 0, 0, 0] then None
                    else (case zlib_decode idat of None \<Rightarrow> None
                      | Some raw \<Rightarrow> map_option (\<lambda>pix. (w, h, pix)) (unfilter (w * 4) h raw))))))"

lemma length_pushBE32 [simp]: "length (pushBE32 v) = 4"
  by (simp add: pushBE32_def)

lemma read_pushBE32: "read_be32 (pushBE32 v @ rest) = Some (unat v, rest)"
proof -
  have FF: "(0xFF :: u32) = mask 8" by (simp add: mask_eq_exp_minus_1)
  have byte: "unat (ucast (w AND 0xFF) :: u8) = unat w mod 256" for w :: u32
  proof -
    have "unat (w AND 0xFF) = unat w mod 256"
      unfolding FF take_bit_eq_mask [symmetric] by (simp add: unsigned_take_bit_eq take_bit_eq_mod unat_mod)
    then show ?thesis by (simp add: unsigned_ucast_eq take_bit_eq_mod)
  qed
  let ?n = "unat v"
  have "?n < 4294967296" using unsigned_less [of v] by simp
  define q1 q2 q3 where "q1 = ?n div 256" and "q2 = q1 div 256" and "q3 = q2 div 256"
  have "?n div 65536 = q2" "?n div 16777216 = q3" by (simp_all add: q1_def q2_def q3_def flip: div_mult2_eq)
  moreover have "q3 < 256" using \<open>?n < 4294967296\<close> unfolding q1_def q2_def q3_def by (simp flip: div_mult2_eq)
  ultimately have "((?n div 16777216 mod 256 * 256 + ?n div 65536 mod 256) * 256 + ?n div 256 mod 256) * 256 + ?n mod 256 = ?n"
    using div_mult_mod_eq [of ?n 256] div_mult_mod_eq [of q1 256] div_mult_mod_eq [of q2 256]
    by (simp flip: q1_def q2_def q3_def)
  moreover have "?n div 16777216 mod 256 = ?n div 16777216" using \<open>?n < 4294967296\<close> by simp
  ultimately show ?thesis by (simp add: pushBE32_def byte unat_drop_bit_eq drop_bit_eq_div unat_div)
qed

lemma read_chunk_append:
  assumes "length ty = 4" "length data + 4 < 4294967296"
  shows "\<exists>chunk. appendChunk out ty data = out @ chunk \<and> (\<forall>rest. read_chunk (chunk @ rest) = Some (ty, data, rest))"
proof (intro exI conjI allI)
  let ?chunk = "pushBE32 (word_of_nat (length data)) @ ty @ data @ pushBE32 (crc32Compute (ty @ data))"
  show "appendChunk out ty data = out @ ?chunk" by (simp add: appendChunk_def Let_def)
  fix rest
  have n: "unat (word_of_nat (length data) :: u32) = length data" using assms(2) by (simp add: unat_of_nat)
  have "read_be32 (?chunk @ rest) = Some (length data, ty @ data @ pushBE32 (crc32Compute (ty @ data)) @ rest)"
    using read_pushBE32 [of "word_of_nat (length data)"] n by simp
  moreover have "read_be32 (drop (length data + 4) (ty @ data @ pushBE32 (crc32Compute (ty @ data)) @ rest)) =
      Some (unat (crc32Compute (ty @ data)), rest)"
    using assms(1) by (simp add: read_pushBE32)
  ultimately show "read_chunk (?chunk @ rest) = Some (ty, data, rest)"
    using assms(1) by (simp add: read_chunk_def crc_spec)
qed

lemma inflate_stored_blocks: "inflate_stored (stored_blocks raw @ rest) = Some (raw, rest)"
proof (induction "length raw" arbitrary: raw rule: less_induct)
  case less
  let ?n = "min (length raw) 65535"
  have n: "unat (word_of_nat ?n :: u16) = ?n" by (simp add: unat_of_nat min_def)
  show ?case
  proof (cases "length raw \<le> 65535")
    case True
    then have "stored_blocks raw = [1, lo8 (word_of_nat ?n), hi8 (word_of_nat ?n), lo8 (NOT (word_of_nat ?n)), hi8 (NOT (word_of_nat ?n))] @ raw"
      by (subst stored_blocks.simps) (simp add: Let_def)
    then show ?thesis using True n by (subst inflate_stored.simps) (simp add: Let_def)
  next
    case False
    then have s: "stored_blocks raw = [0, lo8 (word_of_nat ?n), hi8 (word_of_nat ?n), lo8 (NOT (word_of_nat ?n)), hi8 (NOT (word_of_nat ?n))] @
        take ?n raw @ stored_blocks (drop ?n raw)"
      by (subst stored_blocks.simps) (simp add: Let_def)
    have "inflate_stored (stored_blocks (drop ?n raw) @ rest) = Some (drop ?n raw, rest)"
      using False by (intro less.hyps) simp
    then show ?thesis using False n unfolding s by (subst inflate_stored.simps) (simp add: Let_def)
  qed
qed

lemma zlib_round_trip: "zlib_decode (zlib_data raw) = Some raw"
proof -
  have s: "unat (adler32Compute raw) = adler32_spec raw" using adler_spec [of raw] by (simp add: unat_of_nat)
  have f: "\<not> bit (1 :: u8) 5" by simp
  show ?thesis using inflate_stored_blocks [of raw "pushBE32 (adler32Compute raw)"] read_pushBE32 [of "adler32Compute raw" "[]"] s f
    by (simp add: zlib_data_def zlib_decode_def)
qed

lemma unfilter_rows:
  "n * h \<le> length pix \<Longrightarrow> unfilter n h (raw_rows pix n h) = Some (take (n * h) pix)"
proof (induction h arbitrary: pix)
  case (Suc h)
  have "raw_rows pix n (Suc h) = (0 # take n pix) @ raw_rows (drop n pix) n h"
    by (simp add: raw_rows_def upt_conv_Cons map_Suc_upt [symmetric] comp_def add.commute del: upt_Suc map_Suc_upt)
  moreover have "unfilter n h (raw_rows (drop n pix) n h) = Some (take (n * h) (drop n pix))"
    using Suc.prems by (intro Suc.IH) simp
  ultimately show ?case using Suc.prems by (simp add: take_add min_absorb2)
qed (simp add: raw_rows_def)

section \<open>Pictures and texts are decoded\<close>

text \<open>C21: a picture is encoded as a valid PNG file.  A decoder of the format, which checks the signature, the
  lengths, the CRC-32 of every chunk, the stored DEFLATE blocks and the Adler-32 of the pixels, gives back
  width, height and pixels.\<close>

theorem png_decodes:
  assumes "0 < width" "0 < height" "nat width * 4 * nat height \<le> length pixels"
    and "width < 2147483648" "height < 2147483648" "length (zlib_data (raw_rows pixels (nat width * 4) (nat height))) < 4294967292"
  shows "\<exists>png. encodeRGBA (Some pixels) width height = Inr png \<and>
     decode_png png = Some (nat width, nat height, take (nat width * 4 * nat height) pixels)"
proof -
  let ?idat = "zlib_data (raw_rows pixels (nat width * 4) (nat height))"
  obtain c1 where c1: "appendChunk png_signature (ascii ''IHDR'') (ihdr_data width height) = png_signature @ c1"
    "\<And>rest. read_chunk (c1 @ rest) = Some (ascii ''IHDR'', ihdr_data width height, rest)"
    using read_chunk_append [of "ascii ''IHDR''" "ihdr_data width height" png_signature] by (auto simp: ascii_def ihdr_data_def)
  obtain c2 where c2: "appendChunk (png_signature @ c1) (ascii ''IDAT'') ?idat = (png_signature @ c1) @ c2"
    "\<And>rest. read_chunk (c2 @ rest) = Some (ascii ''IDAT'', ?idat, rest)"
    using read_chunk_append [of "ascii ''IDAT''" ?idat "png_signature @ c1"] assms(6) by (auto simp: ascii_def)
  obtain c3 where c3: "appendChunk ((png_signature @ c1) @ c2) (ascii ''IEND'') [] = ((png_signature @ c1) @ c2) @ c3"
    "\<And>rest. read_chunk (c3 @ rest) = Some (ascii ''IEND'', [], rest)"
    using read_chunk_append [of "ascii ''IEND''" "[]" "(png_signature @ c1) @ c2"] by (auto simp: ascii_def)
  let ?png = "png_signature @ c1 @ c2 @ c3"
  have "encodeRGBA (Some pixels) width height = Inr ?png"
    using assms(1-3) c1(1) c2(1) c3(1) by (simp add: encodeRGBA_def Let_def)
  moreover have "take 8 ?png = png_signature" "drop 8 ?png = c1 @ c2 @ c3" by (simp_all add: png_signature_def)
  moreover have "unat (word_of_int width :: u32) = nat width" "unat (word_of_int height :: u32) = nat height"
    using assms(1,2,4,5) by (simp_all add: unsigned_of_int take_bit_int_eq_self)
  moreover have "read_chunk c3 = Some (ascii ''IEND'', [], [])" using c3(2) [of "[]"] by simp
  moreover have "unfilter (nat width * 4) (nat height) (raw_rows pixels (nat width * 4) (nat height)) = Some (take (nat width * 4 * nat height) pixels)"
    using assms(3) by (rule unfilter_rows)
  ultimately have "decode_png ?png = Some (nat width, nat height, take (nat width * 4 * nat height) pixels)"
    by (simp add: decode_png_def c1(2) c2(2) ihdr_data_def read_pushBE32 zlib_round_trip)
  with \<open>encodeRGBA (Some pixels) width height = Inr ?png\<close> show ?thesis by blast
qed

theorem png_decodes_witness:
  "\<exists>png. encodeRGBA (Some [1, 2, 3, 255, 4, 5, 6, 255]) 1 2 = Inr png \<and>
     decode_png png = Some (1, 2, [1, 2, 3, 255, 4, 5, 6, 255])"
  using png_decodes [of 1 2 "[1, 2, 3, 255, 4, 5, 6, 255]"]
  by (simp add: zlib_data_def raw_rows_def stored_blocks.simps upt_conv_Cons)

text \<open>Decoding base64, with the padding.\<close>

definition sextet_value :: "char \<Rightarrow> u32" where
  "sextet_value c = word_of_nat (length (takeWhile (\<lambda>d. d \<noteq> c) ALPHABET))"

definition join_sextets :: "char \<Rightarrow> char \<Rightarrow> char \<Rightarrow> char \<Rightarrow> u32" where
  "join_sextets p q r s = push_bit 18 (sextet_value p) OR push_bit 12 (sextet_value q) OR push_bit 6 (sextet_value r) OR sextet_value s"

fun base64_decode :: "string \<Rightarrow> u8 list" where
  "base64_decode (p # q # r # s # rest) =
     (if r = CHR ''='' then [ucast (drop_bit 16 (join_sextets p q (CHR ''A'') (CHR ''A'')))]
      else if s = CHR ''='' then (let n = join_sextets p q r (CHR ''A'') in [ucast (drop_bit 16 n), ucast (drop_bit 8 n)])
      else (let n = join_sextets p q r s in [ucast (drop_bit 16 n), ucast (drop_bit 8 n), ucast n] @ base64_decode rest))"
| "base64_decode _ = []"

lemma alphabet_facts: "length ALPHABET = 64" "distinct ALPHABET" "CHR ''='' \<notin> set ALPHABET"
  by (simp_all add: ALPHABET_def)

lemma mask_6: "(0x3F :: u32) = mask 6"
  by (simp add: mask_eq_exp_minus_1)

lemma sextet_ok:
  "sextet_value (sextet n k) = drop_bit k n AND 0x3F" "sextet n k \<noteq> CHR ''=''"
proof -
  have lt: "unat (drop_bit k n AND 0x3F) < 64" unfolding mask_6 take_bit_eq_mask [symmetric]
    by (simp add: unsigned_take_bit_eq take_bit_eq_mod unat_mod)
  let ?i = "unat (drop_bit k n AND 0x3F)"
  have "takeWhile (\<lambda>d. d \<noteq> ALPHABET ! ?i) ALPHABET = take ?i ALPHABET"
    using alphabet_facts(1,2) lt by (intro takeWhile_eq_take_P_nth) (auto simp: nth_eq_iff_index_eq)
  then show "sextet_value (sextet n k) = drop_bit k n AND 0x3F"
    using lt alphabet_facts(1) by (simp add: sextet_value_def sextet_def)
  have "ALPHABET ! ?i \<in> set ALPHABET" using lt by (simp add: alphabet_facts(1))
  then show "sextet n k \<noteq> CHR ''=''" using alphabet_facts(3) by (auto simp: sextet_def)
qed

lemma join_sextet:
  fixes n :: u32
  assumes "\<And>i. 24 \<le> i \<Longrightarrow> \<not> bit n i"
  shows "push_bit 18 (drop_bit 18 n AND 0x3F) OR push_bit 12 (drop_bit 12 n AND 0x3F) OR
    push_bit 6 (drop_bit 6 n AND 0x3F) OR (n AND 0x3F) = n"
  unfolding mask_6
proof (rule bit_word_eqI)
  fix i assume i: "i < LENGTH(32)"
  consider "i < 6" | "6 \<le> i" "i < 12" | "12 \<le> i" "i < 18" | "18 \<le> i" "i < 24" | "24 \<le> i" by linarith
  then show "bit (push_bit 18 (drop_bit 18 n AND mask 6) OR push_bit 12 (drop_bit 12 n AND mask 6) OR
      push_bit 6 (drop_bit 6 n AND mask 6) OR (n AND mask 6)) i = bit n i"
    using i by cases (simp_all add: bit_simps assms less_diff_conv2)
qed

text \<open>base64 is decoded.  Decoding the text of any bytes gives the bytes back, for each of the three ways
  the last group can be padded.\<close>

theorem base64_round_trip: "base64_decode (base64Encode data) = data"
proof (induction data rule: base64Encode.induct)
  case (1 x y z rest)
  let ?n = "push_bit 16 (ucast x) OR push_bit 8 (ucast y) OR ucast z :: u32"
  have "\<not> bit ?n i" if "24 \<le> i" for i using that by (auto simp: bit_simps dest: bit_u8_bound)
  note j = join_sextet [OF this]
  have b: "ucast (drop_bit 16 ?n) = x" "ucast (drop_bit 8 ?n) = y" "ucast ?n = z"
    by (rule bit_word_eqI, auto simp: bit_simps dest: bit_u8_bound)+
  show ?case using 1 j b by (simp add: Let_def sextet_ok join_sextets_def)
next
  case (2 x y)
  let ?n = "push_bit 16 (ucast x) OR push_bit 8 (ucast y) :: u32"
  have "\<not> bit ?n i" if "24 \<le> i" for i using that by (auto simp: bit_simps dest: bit_u8_bound)
  note j = join_sextet [OF this]
  have a: "sextet_value (CHR ''A'') = 0" by code_simp
  have "?n AND 0x3F = 0" unfolding mask_6 by (rule bit_word_eqI) (auto simp: bit_simps)
  moreover have b: "ucast (drop_bit 16 ?n) = x" "ucast (drop_bit 8 ?n) = y"
    by (rule bit_word_eqI, auto simp: bit_simps dest: bit_u8_bound)+
  ultimately show ?case using j a by (simp add: Let_def sextet_ok join_sextets_def)
next
  case (3 x)
  let ?n = "push_bit 16 (ucast x) :: u32"
  have "\<not> bit ?n i" if "24 \<le> i" for i using that by (auto simp: bit_simps dest: bit_u8_bound)
  note j = join_sextet [OF this]
  have a: "sextet_value (CHR ''A'') = 0" by code_simp
  have "?n AND 0x3F = 0" "drop_bit 6 ?n AND 0x3F = 0" unfolding mask_6 by (rule bit_word_eqI, auto simp: bit_simps)+
  moreover have b: "ucast (drop_bit 16 ?n) = x"
    by (rule bit_word_eqI) (auto simp: bit_simps dest: bit_u8_bound)
  ultimately show ?case using j a by (simp add: Let_def sextet_ok join_sextets_def)
qed simp

end
