(* ===== verification/Gdb.thy ===== *)
theory Gdb
  imports Rdb Board_Debug
begin

text \<open>
  The debugger protocol of GDB (\<^verbatim>\<open>src/server.cpp\<close>): packets, the handler of a session, and what it
  does to the board.  The network library delivers pieces of at most 4096 bytes; one piece is one call
  of \<open>handle_read\<close>, as in the code.  \<^verbatim>\<open>std::invalid_argument\<close> is caught and answered; every other
  exception leaves the handler and is \<open>Inl Out_of_range\<close>.  Reading or writing past a buffer, and signed
  overflow, are \<open>Inl Undefined\<close>.  Boost is the parameter \<open>boost_lib\<close> with the law \<open>boost_ok\<close>, its
  documented behaviour, shown to be satisfiable by \<open>boost_functions\<close>.
\<close>

section \<open>The code\<close>

subsection \<open>Packets\<close>

record GdbPacket =
  gp_command :: char
  gp_params :: string

definition max_length :: nat where "max_length = 4096"

text \<open>The constructor.  The two bytes after the end of the packet are read too; an empty packet asks for a
  text of length -1.\<close>

definition GdbPacket_new :: "string \<Rightarrow> GdbPacket res" where
  "GdbPacket_new data =
     (let i = length (takeWhile (\<lambda>c. c = CHR ''$'' \<or> c = CHR ''+'') data)
      in if length data \<le> i
         then (if max_length \<le> i then Inl Undefined else Inr \<lparr>gp_command = CHR 0x00, gp_params = []\<rparr>)
         else let p = i + 1; plen = length (takeWhile (\<lambda>c. c \<noteq> CHR ''#'') (drop i data)); i = i + plen
           in if plen = 0 then Inl Out_of_range
              else if max_length < i + 3 then Inl Undefined
              else Inr \<lparr>gp_command = data ! (p - 1), gp_params = take (plen - 1) (drop p data)\<rparr>)"

definition calc_crc :: "string \<Rightarrow> string" where
  "calc_crc s = hex2 (word_of_nat (sum_list (map of_char s)))"

definition STD_OK :: string where "STD_OK = ''OK''"
definition STD_EMPTY :: string where "STD_EMPTY = ''''"
definition STD_INTERRUPT :: string where "STD_INTERRUPT = ''T05''"
definition STD_ERROR :: string where "STD_ERROR = ''E00''"
definition STD_IGNORE :: string where "STD_IGNORE = ''------------------''"

subsection \<open>Numbers\<close>

datatype number = Number nat | Invalid_argument | Number_out_of_range

definition digit_of :: "nat \<Rightarrow> char \<Rightarrow> bool" where
  "digit_of base c \<longleftrightarrow> (case hex_value c of None \<Rightarrow> False | Some d \<Rightarrow> d < base)"

definition stoul :: "nat \<Rightarrow> string \<Rightarrow> number" where
  "stoul base str =
     (let s = dropWhile isspace str;
          neg = (s \<noteq> [] \<and> hd s = CHR ''-'');
          s = (if s \<noteq> [] \<and> hd s \<in> {CHR ''-'', CHR ''+''} then tl s else s);
          s = (if base = 16 \<and> 2 < length s \<and> s ! 0 = CHR ''0'' \<and> s ! 1 \<in> {CHR ''x'', CHR ''X''} \<and> isxdigit (s ! 2)
               then drop 2 s else s);
          ds = takeWhile (digit_of base) s; n = fold (\<lambda>c n. base * n + the (hex_value c)) ds 0
      in if ds = [] then Invalid_argument
         else if 2 ^ 64 \<le> n then Number_out_of_range
         else Number (if neg then (2 ^ 64 - n) mod 2 ^ 64 else n))"

text \<open>An \<^verbatim>\<open>unsigned long\<close> stored in an \<^verbatim>\<open>int\<close>.\<close>

definition to_int :: "nat \<Rightarrow> int" where
  "to_int n = sint (word_of_nat n :: u32)"

definition with_number :: "number \<Rightarrow> 'a \<Rightarrow> (nat \<Rightarrow> 'a res) \<Rightarrow> 'a res" where
  "with_number v err f = (case v of Number n \<Rightarrow> f n | Invalid_argument \<Rightarrow> Inr err | Number_out_of_range \<Rightarrow> Inl Out_of_range)"

text \<open>The text functions of Boost, which the code calls.\<close>

record boost_lib =
  bl_split :: "(char \<Rightarrow> bool) \<Rightarrow> string \<Rightarrow> string list"
  bl_starts_with :: "string \<Rightarrow> string \<Rightarrow> bool"

definition vec_at :: "nat \<Rightarrow> string list \<Rightarrow> string res" where
  "vec_at i parts = (if i < length parts then Inr (parts ! i) else Inl Out_of_range)"

subsection \<open>Commands\<close>

record 'x Session =
  ss_board :: "'x board"
  ss_closing :: bool

definition on_board :: "('x board \<Rightarrow> string \<times> 'x board) \<Rightarrow> 'x Session \<Rightarrow> string \<times> 'x Session" where
  "on_board f s = (let (response, b) = f (ss_board s) in (response, s\<lparr>ss_board := b\<rparr>))"

definition general_response :: "boost_lib \<Rightarrow> string \<Rightarrow> string" where
  "general_response B params =
     (if bl_starts_with B params ''Supported'' then ''PacketSize=4000''
      else if params = ''C'' then STD_EMPTY
      else if params = ''Attached'' then ''1''
      else if params = ''TStatus'' then STD_EMPTY
      else STD_OK)"

text \<open>\<^verbatim>\<open>Board::read_memory\<close> fills an array of \<open>2 * len + 1\<close> characters; with no byte to read it returns the
  array unwritten.\<close>

definition packet_read_memory :: "boost_lib \<Rightarrow> string \<Rightarrow> 'x Session \<Rightarrow> (string \<times> 'x Session) res" where
  "packet_read_memory B params s =
     (let parts = bl_split B (\<lambda>c. c = CHR '','') params
      in bind_res (vec_at 0 parts) (\<lambda>p. with_number (stoul 16 p) (STD_ERROR, s) (\<lambda>addr.
         bind_res (vec_at 1 parts) (\<lambda>p. with_number (stoul 16 p) (STD_ERROR, s) (\<lambda>len.
           if to_int len \<le> 0 \<or> 2 ^ 30 \<le> to_int len \<or> 2 ^ 31 \<le> to_int addr + to_int len then Inl Undefined
           else Inr (on_board (read_memory (word_of_nat addr) (nat (to_int len))) s))))))"

fun write_loop :: "int \<Rightarrow> nat \<Rightarrow> string \<Rightarrow> 'x Session \<Rightarrow> (string \<times> 'x Session) res" where
  "write_loop addr (Suc n) (x # y # rest) s =
     with_number (stoul 16 [x, y]) (STD_ERROR, s) (\<lambda>bytt.
       if 2 ^ 31 \<le> addr then Inl Undefined
       else write_loop (addr + 1) n rest
         (s\<lparr>ss_board := write_memory_byte (word_of_int addr) (ucast (word_of_nat bytt :: u8)) (ss_board s)\<rparr>))"
| "write_loop addr n ostr s = Inr (STD_OK, s)"

definition packet_write_memory :: "boost_lib \<Rightarrow> string \<Rightarrow> 'x Session \<Rightarrow> (string \<times> 'x Session) res" where
  "packet_write_memory B params s =
     (let parts = bl_split B (\<lambda>c. c = CHR '','' \<or> c = CHR '':'') params
      in bind_res (vec_at 0 parts) (\<lambda>p. with_number (stoul 16 p) (STD_ERROR, s) (\<lambda>addr.
         bind_res (vec_at 1 parts) (\<lambda>p. with_number (stoul 16 p) (STD_ERROR, s) (\<lambda>len.
           if to_int len \<le> 0 then Inr (STD_OK, s)
           else bind_res (vec_at 2 parts) (\<lambda>ostr.
             write_loop (to_int addr) (nat (to_int len)) (takeWhile (\<lambda>c. c \<noteq> CHR 0x00) ostr) s))))))"

text \<open>The text of the packet is released before it is read; \<open>freed\<close> is what the storage then holds.\<close>

fun read_pairs :: "nat \<Rightarrow> string \<Rightarrow> 'a \<Rightarrow> (u8 list \<Rightarrow> 'a res) \<Rightarrow> 'a res" where
  "read_pairs 0 cstr err f = f []"
| "read_pairs (Suc n) (x # y # rest) err f =
     with_number (stoul 16 [x, y]) err (\<lambda>v. read_pairs n rest err (\<lambda>vs. f (word_of_nat v # vs)))"
| "read_pairs (Suc n) cstr err f = Inl Undefined"

definition packet_write_registers :: "(string \<Rightarrow> string) \<Rightarrow> string \<Rightarrow> 'x Session \<Rightarrow> (string \<times> 'x Session) res" where
  "packet_write_registers freed params s =
     read_pairs 26 (freed params) (STD_ERROR, s) (\<lambda>regs.
       bind_res (write_registers regs (ss_board s)) (\<lambda>b. Inr (STD_OK, s\<lparr>ss_board := b\<rparr>)))"

definition packet_breakpoint ::
    "boost_lib \<Rightarrow> (int \<Rightarrow> int \<Rightarrow> int \<Rightarrow> 'x board \<Rightarrow> string \<times> 'x board) \<Rightarrow> string \<Rightarrow> 'x Session \<Rightarrow> (string \<times> 'x Session) res" where
  "packet_breakpoint B f params s =
     (let parts = bl_split B (\<lambda>c. c = CHR '','') params
      in bind_res (vec_at 0 parts) (\<lambda>p. with_number (stoul 10 p) (STD_ERROR, s) (\<lambda>ty.
         bind_res (vec_at 1 parts) (\<lambda>p. with_number (stoul 16 p) (STD_ERROR, s) (\<lambda>addr.
         bind_res (vec_at 2 parts) (\<lambda>p. with_number (stoul 10 p) (STD_ERROR, s) (\<lambda>kind.
           Inr (on_board (f (to_int ty) (to_int addr) (to_int kind)) s))))))))"

subsection \<open>The session\<close>

text \<open>The switch over the command; \<open>nofdc\<close> is the option the board steps with.\<close>

definition dispatch :: "boost_lib \<Rightarrow> bool \<Rightarrow> (string \<Rightarrow> string) \<Rightarrow> GdbPacket \<Rightarrow> 'x Session \<Rightarrow> (string \<times> 'x Session) res" where
  "dispatch B nofdc freed packet s =
     (let c = gp_command packet; params = gp_params packet
      in if c = CHR 0x00 then Inr (STD_IGNORE, s)
         else if c = CHR 0x03 then Inr (on_board (\<lambda>b. (STD_INTERRUPT, debugger_break b)) s)
         else if c = CHR ''c'' then Inr (on_board (\<lambda>b. (STD_IGNORE, debugger_continue b)) s)
         else if c = CHR ''q'' then Inr (general_response B params, s)
         else if c = CHR ''H'' then Inr (STD_OK, s)
         else if c = CHR ''?'' then Inr (''S05'', s)
         else if c = CHR ''g'' then Inr (read_registers (ss_board s), s)
         else if c = CHR ''G'' then packet_write_registers freed params s
         else if c = CHR ''m'' then packet_read_memory B params s
         else if c = CHR ''M'' then packet_write_memory B params s
         else if c = CHR ''Z'' then packet_breakpoint B insert_breakpoint params s
         else if c = CHR ''z'' then packet_breakpoint B remove_breakpoint params s
         else if c = CHR ''s'' then bind_res (single_step nofdc True (ss_board s)) (\<lambda>b. Inr (''T05'', s\<lparr>ss_board := b\<rparr>))
         else if c = CHR ''D'' then Inr (STD_OK, s\<lparr>ss_board := debugger_detached (ss_board s), ss_closing := True\<rparr>)
         else Inr ([], s))"

definition framed :: "string \<Rightarrow> string" where
  "framed response = ''+$'' @ response @ ''#'' @ calc_crc response"

definition format_response :: "boost_lib \<Rightarrow> bool \<Rightarrow> (string \<Rightarrow> string) \<Rightarrow> GdbPacket \<Rightarrow> 'x Session \<Rightarrow> (string \<times> 'x Session) res" where
  "format_response B nofdc freed packet s =
     bind_res (dispatch B nofdc freed packet s) (\<lambda>(response, s).
       if response = STD_IGNORE then Inr (''+'', s)
       else if max_length < length (framed response) + 1 then Inl Undefined
       else Inr (framed response, s))"

text \<open>One piece of input: the text sent back, and the session.  A session that is closing reads no more.\<close>

definition handle_read :: "boost_lib \<Rightarrow> bool \<Rightarrow> (string \<Rightarrow> string) \<Rightarrow> string \<Rightarrow> 'x Session \<Rightarrow> (string \<times> 'x Session) res" where
  "handle_read B nofdc freed data s = bind_res (GdbPacket_new data) (\<lambda>packet. format_response B nofdc freed packet s)"

fun session_run :: "boost_lib \<Rightarrow> bool \<Rightarrow> (string \<Rightarrow> string) \<Rightarrow> string list \<Rightarrow> 'x Session \<Rightarrow> (string list \<times> 'x Session) res" where
  "session_run B nofdc freed [] s = Inr ([], s)"
| "session_run B nofdc freed (data # inputs) s =
     (if ss_closing s then Inr ([], s)
      else bind_res (handle_read B nofdc freed data s) (\<lambda>(reply, s).
        bind_res (session_run B nofdc freed inputs s) (\<lambda>(replies, s). Inr (reply # replies, s))))"

definition Session_new :: "'x board \<Rightarrow> 'x Session" where
  "Session_new b = \<lparr>ss_board = b, ss_closing = False\<rparr>"

definition session_start :: "'x Session \<Rightarrow> 'x Session" where
  "session_start s = s\<lparr>ss_board := debugger_attached (ss_board s)\<rparr>"

definition onbreakpoint_text :: string where
  "onbreakpoint_text = framed ''T05''"


section \<open>The text functions\<close>

definition boost_ok :: "boost_lib \<Rightarrow> bool" where
  "boost_ok B \<longleftrightarrow>
     (\<forall>sep x. list_all (\<lambda>c. \<not> sep c) x \<longrightarrow> bl_split B sep x = [x]) \<and>
     (\<forall>sep x c t. list_all (\<lambda>c. \<not> sep c) x \<and> sep c \<longrightarrow> bl_split B sep (x @ c # t) = x # bl_split B sep t) \<and>
     (\<forall>s p. bl_starts_with B s p \<longleftrightarrow> take (length p) s = p)"

lemma boost_split:
  assumes "boost_ok B"
  shows "list_all (\<lambda>c. \<not> sep c) x \<Longrightarrow> bl_split B sep x = [x]"
    "list_all (\<lambda>c. \<not> sep c) x \<Longrightarrow> sep c \<Longrightarrow> bl_split B sep (x @ c # t) = x # bl_split B sep t"
  using assms by (simp_all add: boost_ok_def)

function split_any :: "(char \<Rightarrow> bool) \<Rightarrow> string \<Rightarrow> string list" where
  "split_any sep s = (case dropWhile (\<lambda>c. \<not> sep c) s of [] \<Rightarrow> [s]
     | _ # t \<Rightarrow> takeWhile (\<lambda>c. \<not> sep c) s # split_any sep t)"
  by pat_completeness auto
termination
  by (relation "measure (\<lambda>(sep, s). length s)") (auto, metis length_dropWhile_le le_imp_less_Suc length_Cons not_less_eq order_le_less_trans lessI less_le_trans)

declare split_any.simps [simp del]

lemma split_any_last: "list_all (\<lambda>c. \<not> sep c) x \<Longrightarrow> split_any sep x = [x]"
  by (subst split_any.simps) (auto simp: list_all_iff split: list.split dest: dropWhile_eq_Nil_conv [THEN iffD2])

lemma split_any_piece: "list_all (\<lambda>c. \<not> sep c) x \<Longrightarrow> sep c \<Longrightarrow> split_any sep (x @ c # t) = x # split_any sep t"
  by (subst split_any.simps) (simp add: list_all_iff dropWhile_append takeWhile_append)

definition boost_functions :: boost_lib where
  "boost_functions = \<lparr>bl_split = split_any, bl_starts_with = (\<lambda>s p. take (length p) s = p)\<rparr>"

lemma boost_functions_ok: "boost_ok boost_functions"
  by (simp add: boost_ok_def boost_functions_def split_any_last split_any_piece)

section \<open>Texts of the protocol\<close>

text \<open>Numbers as GDB writes them.\<close>

fun lhex :: "nat \<Rightarrow> string" where
  "lhex n = (if n < 16 then [hex_digit n] else lhex (n div 16) @ [hex_digit (n mod 16)])"

declare lhex.simps [simp del]

definition gdb_packet :: "string \<Rightarrow> string" where
  "gdb_packet text = ''$'' @ text @ ''#'' @ calc_crc text"

definition special :: "char set" where
  "special = {CHR ''$'', CHR ''+'', CHR ''-'', CHR ''#'', CHR '','', CHR '':'', CHR 0x00}"

lemma hex_digit_value:
  assumes "d < 16"
  shows "hex_value (hex_digit d) = Some d" "hex_digit d \<notin> special"
proof -
  have "list_all (\<lambda>d. hex_value (hex_digit d) = Some d \<and> hex_digit d \<notin> special) [0..<16]" by code_simp
  then show "hex_value (hex_digit d) = Some d" "hex_digit d \<notin> special" using assms by (simp_all add: list_all_iff)
qed

lemma isxdigit_hex_digit: "d < 16 \<Longrightarrow> isxdigit (hex_digit d)"
  by (simp add: isxdigit_def hex_digit_value)

lemma lhex_ok:
  "list_all isxdigit (lhex n)" "hex_number (lhex n) = n" "lhex n \<noteq> []" "set (lhex n) \<inter> special = {}"
proof (induction n rule: lhex.induct)
  case (1 n)
  { case 1 show ?case using "1.IH"(1) by (subst lhex.simps) (simp add: isxdigit_hex_digit) }
  { case 2 show ?case using "1.IH"(2) by (subst lhex.simps) (simp add: hex_number_append hex_digit_value hex_number_def) }
  { case 3 show ?case by (subst lhex.simps) simp }
  { case 4 show ?case using "1.IH"(4) by (subst lhex.simps) (auto simp: hex_digit_value) }
qed

lemma length_lhex: "n < 16 ^ Suc k \<Longrightarrow> length (lhex n) \<le> Suc k"
proof (induction k arbitrary: n)
  case (Suc k)
  then have "n div 16 < 16 ^ Suc k" by (simp add: less_mult_imp_div_less mult.commute)
  then show ?case using Suc.IH [of "n div 16"] by (subst lhex.simps) simp
qed (simp add: lhex.simps)

lemma stoul_digits:
  assumes "list_all isxdigit ds" "ds \<noteq> []" "hex_number ds < 2 ^ 64"
  shows "stoul 16 ds = Number (hex_number ds)"
proof -
  have d: "list_all (digit_of 16) ds"
    using assms(1) by (auto simp: list_all_iff digit_of_def isxdigit_def hex_value_def Let_def split: if_splits option.splits)
  have s: "dropWhile isspace ds = ds" "hd ds \<notin> {CHR ''-'', CHR ''+''}" "takeWhile (digit_of 16) ds = ds"
    using assms(1,2) d isxdigit_not [of "hd ds"] by (auto simp: list_all_iff dropWhile_eq_self_iff)
  have "ds ! 1 \<notin> {CHR ''x'', CHR ''X''}" if "2 < length ds"
    using assms(1) isxdigit_not [of "ds ! 1"] that by (auto simp: list_all_length)
  then show ?thesis using assms(2,3) s(1,2) by (auto simp: stoul_def Let_def hex_number_def s(3))
qed

lemma stoul_lhex: "n < 2 ^ 64 \<Longrightarrow> stoul 16 (lhex n) = Number n"
  using stoul_digits [of "lhex n"] lhex_ok by simp

lemma stoul_hex2: "stoul 16 (hex2 v) = Number (unat v)"
proof -
  have v: "unat v div 16 < 16" "unat v mod 16 < 16" using unat_u8_lt [of v] by linarith+
  have "hex_number (hex2 v) = unat v" using v by (simp add: hex2_def hex_number_def hex_digit_value)
  moreover have "unat v < 2 ^ 64" using unat_u8_lt [of v] by (rule order.strict_trans) simp
  ultimately show ?thesis using stoul_digits [of "hex2 v"] v by (simp add: hex2_def isxdigit_def hex_digit_value)
qed

lemma hex2_chars: "set (hex2 v) \<inter> special = {}" "length (hex2 v) = 2"
proof -
  have "unat v div 16 < 16" "unat v mod 16 < 16" using unat_u8_lt [of v] by linarith+
  then show "set (hex2 v) \<inter> special = {}" "length (hex2 v) = 2" by (auto simp: hex2_def hex_digit_value)
qed

lemma hexes_chars: "set (concat (map hex2 vs)) \<inter> special = {}" "length (concat (map hex2 vs)) = 2 * length vs"
  by (induction vs) (use hex2_chars in auto)

lemma packet_parsed:
  assumes "c \<notin> {CHR ''$'', CHR ''+'', CHR ''#''}" "CHR ''#'' \<notin> set params" "length params + 5 \<le> max_length"
  shows "GdbPacket_new (gdb_packet (c # params)) = Inr \<lparr>gp_command = c, gp_params = params\<rparr>"
proof -
  have "takeWhile (\<lambda>d. d = CHR ''$'' \<or> d = CHR ''+'') (gdb_packet (c # params)) = ''$''"
    using assms(1) by (simp add: gdb_packet_def)
  moreover have "takeWhile (\<lambda>d. d \<noteq> CHR ''#'') (drop 1 (gdb_packet (c # params))) = c # params"
    using assms(1,2) by (simp add: gdb_packet_def takeWhile_append)
  ultimately show ?thesis using assms(3) by (simp add: GdbPacket_new_def Let_def gdb_packet_def)
qed

text \<open>What a client makes of a reply: the text between the marks when its checksum is right.\<close>

definition client_reads :: "string \<Rightarrow> string option" where
  "client_reads reply = (case reply of
     a # d # t \<Rightarrow>
       let r = takeWhile (\<lambda>c. c \<noteq> CHR ''#'') t
       in if a = CHR ''+'' \<and> d = CHR ''$'' \<and> drop (length r) t = ''#'' @ calc_crc r then Some r else None
   | _ \<Rightarrow> None)"

lemma client_reads_framed: "CHR ''#'' \<notin> set r \<Longrightarrow> client_reads (framed r) = Some r"
  by (simp add: client_reads_def framed_def takeWhile_append Let_def)

section \<open>Memory over the protocol\<close>

abbreviation board_memory :: "'x board \<Rightarrow> 'x dbg memory" where
  "board_memory b \<equiv> kvaz (mio (bus (core b)))"

lemma low_address: "(x :: u32) AND 0xffff = ucast (ucast x :: u16)"
proof -
  have m: "(0xffff :: u32) = mask 16" by (simp add: mask_eq_exp_minus_1)
  show ?thesis unfolding m by (rule bit_word_eqI) (auto simp: bit_simps)
qed

lemma mem_peek_low: "mem_peek m x st = mem_peek m (ucast (ucast x :: u16)) st"
  by (simp add: mem_peek_def low_address ucast_and_ffff flip: low_address)

lemma peek_write_memory_byte:
  fixes x v :: u32 and b :: "'x board"
  assumes "memory_ok (board_memory b)" "bootbytes (board_memory b) = []"
  defines "b' \<equiv> write_memory_byte x v b"
  shows "memory_ok (board_memory b')" "bootbytes (board_memory b') = []"
    "mem_peek (board_memory b') (ucast y) False = (if ucast x = (y :: u16) then ucast v else mem_peek (board_memory b) (ucast y) False)"
proof -
  have k: "board_memory b' = fst (mem_write x (ucast v) False (board_memory b, menv (bus (core b))))"
    by (simp add: b'_def write_memory_byte_def upd_bus_def kvaz_memory_write)
  show "memory_ok (board_memory b')" "bootbytes (board_memory b') = []"
    unfolding k using assms(1,2) by (simp_all add: mem_write_ok)
  have "\<not> in_boot (board_memory b) z" for z using assms(2) by (simp add: in_boot_def)
  moreover have "select (board_memory b) x False = select (board_memory b) (ucast y) False \<longleftrightarrow> ucast x = y"
    unfolding low_address using select_inj [OF assms(1), of "ucast x" False y] by (simp add: ucast_and_ffff low_address)
  ultimately show "mem_peek (board_memory b') (ucast y) False = (if ucast x = y then ucast v else mem_peek (board_memory b) (ucast y) False)"
    unfolding k mem_peek_write [OF assms(1)] by simp
qed

lemma mem_read_io_memory: "fst (mem_read_io x b) = mem_peek (board_memory b) x False" "board_memory (snd (mem_read_io x b)) = board_memory b"
  by (simp_all add: mem_read_io_def upd_bus_def mem_read_fst split: prod.split) (metis fst_conv mem_read_fst)

lemma read_loop_text:
  "fst (read_loop x n b) = concat (map (\<lambda>i. hex2 (mem_peek (board_memory b) (x + word_of_nat i) False)) [0..<n])"
proof (induction n arbitrary: x b)
  case (Suc n)
  obtain v b' where r: "mem_read_io x b = (v, b')" by (cases "mem_read_io x b")
  then have v: "v = mem_peek (board_memory b) x False" "board_memory b' = board_memory b"
    using mem_read_io_memory [of x b] by simp_all
  have "map (\<lambda>i. hex2 (mem_peek (board_memory b) (x + word_of_nat i) False)) [0..<Suc n] =
      hex2 v # map (\<lambda>i. hex2 (mem_peek (board_memory b) (x + 1 + word_of_nat i) False)) [0..<n]"
    unfolding upt_conv_Cons [OF zero_less_Suc] map_Suc_upt [symmetric] by (simp add: v comp_def ac_simps)
  then show ?case using Suc.IH [of "x + 1" b'] by (simp add: r v(2) split_beta del: upt_Suc)
qed simp

fun board_writes :: "int \<Rightarrow> u8 list \<Rightarrow> 'x board \<Rightarrow> 'x board" where
  "board_writes a [] b = b"
| "board_writes a (v # vs) b = board_writes (a + 1) vs (write_memory_byte (word_of_int a) (ucast v) b)"

lemma write_loop_writes:
  "a + int (length vs) \<le> 2 ^ 31 \<Longrightarrow> write_loop a (length vs) (concat (map hex2 vs)) s =
     Inr (STD_OK, s\<lparr>ss_board := board_writes a vs (ss_board s)\<rparr>)"
proof (induction vs arbitrary: a s)
  case (Cons v vs)
  obtain x y where h: "hex2 v = [x, y]" by (simp add: hex2_def)
  then have "stoul 16 [x, y] = Number (unat v)" using stoul_hex2 [of v] by simp
  then show ?case using Cons by (simp add: h with_number_def)
qed simp

lemma word_of_address: "(ucast (word_of_int (int n) :: u32) :: u16) = word_of_nat n"
  by (rule bit_word_eqI) (simp add: bit_simps)

lemma board_writes_peek:
  assumes "memory_ok (board_memory b)" "bootbytes (board_memory b) = []" "a + length vs \<le> 65536"
  shows "memory_ok (board_memory (board_writes (int a) vs b)) \<and> bootbytes (board_memory (board_writes (int a) vs b)) = [] \<and>
    mem_peek (board_memory (board_writes (int a) vs b)) (ucast (y :: u16)) False =
      (if a \<le> unat y \<and> unat y < a + length vs then vs ! (unat y - a) else mem_peek (board_memory b) (ucast y) False)"
  using assms
proof (induction vs arbitrary: a b)
  case (Cons v vs)
  let ?b = "write_memory_byte (word_of_int (int a)) (ucast v) b"
  note w = peek_write_memory_byte [OF Cons.prems(1,2), of "word_of_int (int a)" "ucast v"]
  have eq: "ucast (word_of_int (int a) :: u32) = y \<longleftrightarrow> unat y = a"
    using Cons.prems(3) unfolding word_of_address by (auto simp: unat_of_nat word_unat_eq_iff)
  have IH: "memory_ok (board_memory (board_writes (int (Suc a)) vs ?b)) \<and> bootbytes (board_memory (board_writes (int (Suc a)) vs ?b)) = [] \<and>
    mem_peek (board_memory (board_writes (int (Suc a)) vs ?b)) (ucast y) False =
      (if Suc a \<le> unat y \<and> unat y < Suc a + length vs then vs ! (unat y - Suc a) else mem_peek (board_memory ?b) (ucast y) False)"
    using Cons.prems(3) by (intro Cons.IH w(1,2)) simp
  have v: "(ucast (ucast v :: u32) :: u8) = v" by (rule bit_word_eqI) (auto simp: bit_simps dest: bit_u8_bound)
  have s: "int a + 1 = int (Suc a)" by simp
  show ?case using IH w(3) [of y] unfolding eq v board_writes.simps s by (auto simp: nth_Cons' Suc_diff_Suc)
qed auto

lemma writes_read_back:
  assumes "memory_ok (board_memory b)" "bootbytes (board_memory b) = []" "a + length vs \<le> 65536"
  shows "fst (read_memory (word_of_nat a) (length vs) (board_writes (int a) vs b)) = concat (map hex2 vs)"
proof -
  let ?b = "board_writes (int a) vs b"
  have "mem_peek (board_memory ?b) (word_of_nat a + word_of_nat i) False = vs ! i" if "i < length vs" for i
  proof -
    have "(ucast (word_of_nat a + word_of_nat i :: u32) :: u16) = word_of_nat (a + i)"
      using word_of_address [of "a + i"] by simp
    moreover have "unat (word_of_nat (a + i) :: u16) = a + i" using assms(3) that by (subst unat_of_nat) simp
    ultimately show ?thesis
      using that board_writes_peek [OF assms, of "word_of_nat (a + i)"] by (subst mem_peek_low) simp
  qed
  then have "map (\<lambda>i. hex2 (mem_peek (board_memory ?b) (word_of_nat a + word_of_nat i) False)) [0..<length vs] = map hex2 vs"
    by (intro nth_equalityI) simp_all
  then show ?thesis by (simp add: read_memory_def read_loop_text)
qed

definition read_command :: "nat \<Rightarrow> nat \<Rightarrow> string" where
  "read_command a n = ''m'' @ lhex a @ '','' @ lhex n"

definition write_command :: "nat \<Rightarrow> u8 list \<Rightarrow> string" where
  "write_command a vs = ''M'' @ lhex a @ '','' @ lhex (length vs) @ '':'' @ concat (map hex2 vs)"

lemma special_seps:
  "set x \<inter> special = {} \<Longrightarrow> list_all (\<lambda>c. c \<noteq> CHR '','') x \<and> list_all (\<lambda>c. \<not> (c = CHR '','' \<or> c = CHR '':'')) x \<and>
     CHR ''#'' \<notin> set x \<and> takeWhile (\<lambda>c. c \<noteq> CHR 0x00) x = x \<and> x \<noteq> STD_IGNORE"
  by (auto simp: special_def list_all_iff takeWhile_eq_all_conv STD_IGNORE_def)

lemma to_int_small: "n < 2 ^ 31 \<Longrightarrow> to_int n = int n"
  by (simp add: to_int_def signed_of_nat signed_take_bit_int_eq_self)

lemma read_parts: "boost_ok B \<Longrightarrow> bl_split B (\<lambda>c. c = CHR '','') (lhex a @ CHR '','' # lhex n) = [lhex a, lhex n]"
  using special_seps [OF lhex_ok(4)] by (simp add: boost_split)

lemma write_parts:
  "boost_ok B \<Longrightarrow> bl_split B (\<lambda>c. c = CHR '','' \<or> c = CHR '':'') (lhex a @ CHR '','' # lhex n @ CHR '':'' # concat (map hex2 vs)) =
     [lhex a, lhex n, concat (map hex2 vs)]"
  using special_seps [OF lhex_ok(4)] special_seps [OF hexes_chars(1), of vs] by (simp add: boost_split)

lemma reply_framed:
  "dispatch B nofdc freed p s = Inr (r, s') \<Longrightarrow> r \<noteq> STD_IGNORE \<Longrightarrow> length r \<le> 4090 \<Longrightarrow>
     format_response B nofdc freed p s = Inr (framed r, s')"
  by (simp add: format_response_def framed_def max_length_def calc_crc_def hex2_chars(2))

lemma read_handled:
  assumes "boost_ok B" "a < 65536" "0 < n" "n < 2 ^ 30"
  shows "handle_read B nofdc freed (gdb_packet (read_command a n)) s =
     format_response B nofdc freed \<lparr>gp_command = CHR ''m'', gp_params = lhex a @ CHR '','' # lhex n\<rparr> s"
    "dispatch B nofdc freed \<lparr>gp_command = CHR ''m'', gp_params = lhex a @ CHR '','' # lhex n\<rparr> s =
     Inr (on_board (read_memory (word_of_nat a) n) s)"
proof -
  have "length (lhex a) \<le> Suc 3" "length (lhex n) \<le> Suc 7" using assms(2-4) by (intro length_lhex; simp)+
  then show "handle_read B nofdc freed (gdb_packet (read_command a n)) s =
     format_response B nofdc freed \<lparr>gp_command = CHR ''m'', gp_params = lhex a @ CHR '','' # lhex n\<rparr> s"
    using special_seps [OF lhex_ok(4)] by (simp add: handle_read_def read_command_def packet_parsed max_length_def)
  show "dispatch B nofdc freed \<lparr>gp_command = CHR ''m'', gp_params = lhex a @ CHR '','' # lhex n\<rparr> s =
     Inr (on_board (read_memory (word_of_nat a) n) s)"
    using assms by (simp add: dispatch_def packet_read_memory_def read_parts [OF assms(1)] vec_at_def stoul_lhex with_number_def to_int_small)
qed

text \<open>C20: memory through the protocol.  After a packet that writes bytes to addresses of the 64 KB space, in
  RAM, a packet that reads the same addresses is answered with exactly these bytes, in a frame whose
  checksum is right.\<close>

theorem memory_over_protocol:
  assumes "boost_ok B" "memory_ok (board_memory (ss_board s))" "bootbytes (board_memory (ss_board s)) = []"
    and "vs \<noteq> []" "length vs \<le> 2040" "a + length vs \<le> 65536"
  shows "\<exists>s' s'' reply. handle_read B nofdc freed (gdb_packet (write_command a vs)) s = Inr (framed ''OK'', s') \<and>
     handle_read B nofdc freed (gdb_packet (read_command a (length vs))) s' = Inr (reply, s'') \<and>
     client_reads reply = Some (concat (map hex2 vs))"
proof -
  let ?params = "lhex a @ CHR '','' # lhex (length vs) @ CHR '':'' # concat (map hex2 vs)"
  let ?s = "s\<lparr>ss_board := board_writes (int a) vs (ss_board s)\<rparr>"
  have tw: "takeWhile (\<lambda>c. c \<noteq> CHR 0x00) (concat (map hex2 vs)) = concat (map hex2 vs)"
    using special_seps [OF hexes_chars(1), of vs] by blast
  have n: "0 < length vs" "length vs < 2 ^ 30" "a < 65536" using assms(4-6) by (cases vs; simp)+
  have "length (lhex a) \<le> Suc 3" "length (lhex (length vs)) \<le> Suc 2" using n(3) assms(5) by (intro length_lhex; simp)+
  then have "GdbPacket_new (gdb_packet (write_command a vs)) = Inr \<lparr>gp_command = CHR ''M'', gp_params = ?params\<rparr>"
    using special_seps [OF lhex_ok(4)] special_seps [OF hexes_chars(1), of vs] assms(5) hexes_chars(2) [of vs]
    by (simp add: write_command_def packet_parsed max_length_def)
  moreover have "dispatch B nofdc freed \<lparr>gp_command = CHR ''M'', gp_params = ?params\<rparr> s = Inr (''OK'', ?s)"
    using n assms(6) write_loop_writes [of "int a" vs s]
    by (simp add: tw dispatch_def packet_write_memory_def write_parts [OF assms(1)] vec_at_def stoul_lhex with_number_def to_int_small STD_OK_def)
  ultimately have w: "handle_read B nofdc freed (gdb_packet (write_command a vs)) s = Inr (framed ''OK'', ?s)"
    by (simp add: handle_read_def reply_framed STD_IGNORE_def)
  obtain s'' where r: "on_board (read_memory (word_of_nat a) (length vs)) ?s = (concat (map hex2 vs), s'')"
    using writes_read_back [OF assms(2,3,6)] by (cases "on_board (read_memory (word_of_nat a) (length vs)) ?s") (auto simp: on_board_def split_beta)
  then have "handle_read B nofdc freed (gdb_packet (read_command a (length vs))) ?s = Inr (framed (concat (map hex2 vs)), s'')"
    unfolding read_handled(1) [OF assms(1) n(3,1,2)] using read_handled(2) [OF assms(1) n(3,1,2), of nofdc freed ?s] assms(5) hexes_chars(2) [of vs]
      special_seps [OF hexes_chars(1), of vs] by (intro reply_framed) simp_all
  then show ?thesis using w client_reads_framed special_seps [OF hexes_chars(1), of vs] by blast
qed

theorem memory_over_protocol_witness:
  "\<exists>s' s'' reply. handle_read boost_functions False id (gdb_packet (write_command 0x100 [0x76, 0xC9])) (Session_new board_on) = Inr (framed ''OK'', s') \<and>
     handle_read boost_functions False id (gdb_packet (read_command 0x100 2)) s' = Inr (reply, s'') \<and> client_reads reply = Some ''76c9''"
proof -
  have "concat (map hex2 [0x76, 0xC9]) = ''76c9''" by code_simp
  then show ?thesis using memory_over_protocol [where B = boost_functions and s = "Session_new board_on" and vs = "[0x76, 0xC9]" and a = "0x100" and nofdc = False and freed = id] boost_functions_ok
    by (simp add: Session_new_def numeral_2_eq_2)
qed

text \<open>C39: input that leaves the handler by an exception or overruns it.  An empty packet, which the protocol uses
  to keep a connection alive, and a read command without a length both end in an exception nobody catches;
  a read of 2046 bytes or more writes past the 4096 characters of the reply buffer, although the packet
  size announced to the client (4000, hexadecimal) allows 8190.\<close>

theorem input_escapes_handler:
  assumes "boost_ok B" "a < 65536" "2046 \<le> n" "n < 2 ^ 30"
  shows "handle_read B nofdc freed (gdb_packet []) s = Inl Out_of_range \<and>
    handle_read B nofdc freed (gdb_packet (CHR ''m'' # lhex a)) s = Inl Out_of_range \<and>
    handle_read B nofdc freed (gdb_packet (read_command a n)) s = Inl Undefined"
proof (intro conjI)
  show "handle_read B nofdc freed (gdb_packet []) s = Inl Out_of_range"
    by (simp add: handle_read_def GdbPacket_new_def gdb_packet_def)
  have "length (lhex a) \<le> Suc 3" using assms(2) by (intro length_lhex) simp
  then have "GdbPacket_new (gdb_packet (CHR ''m'' # lhex a)) = Inr \<lparr>gp_command = CHR ''m'', gp_params = lhex a\<rparr>"
    using special_seps [OF lhex_ok(4)] by (simp add: packet_parsed max_length_def)
  moreover have "bl_split B (\<lambda>c. c = CHR '','') (lhex a) = [lhex a]"
    using special_seps [OF lhex_ok(4)] by (simp add: boost_split [OF assms(1)])
  ultimately show "handle_read B nofdc freed (gdb_packet (CHR ''m'' # lhex a)) s = Inl Out_of_range"
    using assms(2) by (simp add: handle_read_def format_response_def dispatch_def packet_read_memory_def vec_at_def stoul_lhex with_number_def)
  let ?r = "fst (on_board (read_memory (word_of_nat a) n) s)"
  have "length (concat (map hex2 vs)) = 2 * length vs" for vs by (rule hexes_chars(2))
  from this [of "map (\<lambda>i. mem_peek (board_memory (ss_board s)) (word_of_nat a + word_of_nat i) False) [0..<n]"]
  have len: "length ?r = 2 * n" by (simp add: on_board_def split_beta read_memory_def read_loop_text comp_def)
  then have "?r \<noteq> STD_IGNORE" using assms(3) by (auto simp: STD_IGNORE_def)
  moreover have "max_length < length (framed ?r) + 1" using len assms(3) by (simp add: framed_def max_length_def calc_crc_def hex2_chars(2))
  ultimately show "handle_read B nofdc freed (gdb_packet (read_command a n)) s = Inl Undefined"
    using assms read_handled [of B a n nofdc freed s] by (simp add: format_response_def split_beta)
qed

theorem input_escapes_handler_witness:
  "handle_read boost_functions False id (gdb_packet (read_command 0 2046)) (Session_new board_on) = Inl Undefined"
  using input_escapes_handler [of boost_functions 0 2046 False id "Session_new board_on"] boost_functions_ok by simp

end
