(* ===== verification/Project_File.thy ===== *)
theory Project_File
  imports Map_Loader
begin

text \<open>
  The project files of the debugger (\<^verbatim>\<open>project_file.cpp\<close>): symbols, regions and breakpoints written as
  JSON text and read back by searching for keys and quotes.  Positions in a string are modelled by what
  follows them; adding one to a position that was not found gives the beginning of the string again.
\<close>

section \<open>The code\<close>

abbreviation QUOTE :: char where "QUOTE \<equiv> CHR 0x22"
abbreviation BSLASH :: char where "BSLASH \<equiv> CHR 0x5C"

record DebuggerBreakpoint =
  bk_address :: u16
  bk_enabled :: bool

definition escapeJson :: "string \<Rightarrow> string" where
  "escapeJson s = concat (map (\<lambda>c. if c = QUOTE then [BSLASH, QUOTE] else if c = BSLASH then [BSLASH, BSLASH]
     else if c = LF then [BSLASH, CHR ''n''] else if c = CR then [BSLASH, CHR ''r'']
     else if c = TAB then [BSLASH, CHR ''t''] else [c]) s)"

definition pf_addrToHex :: "u16 \<Rightarrow> string" where
  "pf_addrToHex addr = fmt_hex addr 4"

definition pf_hexToAddr :: "(int \<Rightarrow> u32) \<Rightarrow> string \<Rightarrow> u16 option" where
  "pf_hexToAddr wide s = (case sscanf_x wide s of None \<Rightarrow> None
     | Some a \<Rightarrow> if 0xFFFF < a then None else Some (ucast a))"

definition dbgPathFromRom :: "string \<Rightarrow> string" where
  "dbgPathFromRom romPath = (case rfind_char CHR ''.'' romPath of
     None \<Rightarrow> romPath @ ''.dbg'' | Some dotPos \<Rightarrow> take dotPos romPath @ ''.dbg'')"

subsection \<open>Saving\<close>

definition quoted :: "string \<Rightarrow> string" where
  "quoted s = [QUOTE] @ s @ [QUOTE]"

text \<open>The lines of an array, with a comma after each but the last.\<close>

fun array_lines :: "string list \<Rightarrow> string" where
  "array_lines [] = []"
| "array_lines [x] = x @ [LF]"
| "array_lines (x # xs) = x @ '','' @ [LF] @ array_lines xs"

definition member :: "string \<Rightarrow> string \<Rightarrow> string" where
  "member key val = quoted key @ '': '' @ quoted val"

definition symbol_line :: "DebugSymbol \<Rightarrow> string" where
  "symbol_line sy = ''        {'' @ member ''address'' (pf_addrToHex (sy_address sy)) @ '', '' @
     member ''name'' (escapeJson (sy_name sy)) @ '', '' @
     member ''type'' (if sy_type sy = Sym_Function then ''function'' else ''label'') @ '', '' @
     member ''comment'' (escapeJson (sy_comment sy)) @ ''}''"

definition region_line :: "MemoryRegion \<Rightarrow> string" where
  "region_line reg = ''        {'' @ member ''start'' (pf_addrToHex (mr_start reg)) @ '', '' @
     member ''end'' (pf_addrToHex (mr_end reg)) @ '', '' @
     member ''type'' (case mr_type reg of Reg_Code \<Rightarrow> ''code'' | Reg_Data \<Rightarrow> ''data'' | Reg_Unknown \<Rightarrow> ''unknown'') @ '', '' @
     member ''comment'' (escapeJson (mr_comment reg)) @ ''}''"

text \<open>A disabled breakpoint is left out; the comma depends on the position in the whole list.\<close>

fun breakpoint_items :: "DebuggerBreakpoint list \<Rightarrow> string" where
  "breakpoint_items [] = []"
| "breakpoint_items (bp # bps) =
     (if bk_enabled bp then quoted (pf_addrToHex (bk_address bp)) @ (if bps \<noteq> [] then '', '' else []) else []) @
     breakpoint_items bps"

definition project_text :: "symdb \<Rightarrow> DebuggerBreakpoint list \<Rightarrow> string \<Rightarrow> string" where
  "project_text db breakpoints romPath =
     ''{'' @ [LF] @
     ''    '' @ quoted ''version'' @ '': 1,'' @ [LF] @
     ''    '' @ member ''rom_path'' (escapeJson romPath) @ '','' @ [LF] @
     ''    '' @ quoted ''symbols'' @ '': ['' @ [LF] @ array_lines (map symbol_line (allSymbols db)) @ ''    ],'' @ [LF] @
     ''    '' @ quoted ''regions'' @ '': ['' @ [LF] @ array_lines (map region_line (allRegions db)) @ ''    ],'' @ [LF] @
     ''    '' @ quoted ''breakpoints'' @ '': ['' @ breakpoint_items breakpoints @ '']'' @ [LF] @
     ''}'' @ [LF]"

text \<open>\<open>opens\<close> says whether the file can be opened for writing.\<close>

definition project_save ::
    "bool \<Rightarrow> string \<Rightarrow> symdb \<Rightarrow> DebuggerBreakpoint list \<Rightarrow> string \<Rightarrow> files \<Rightarrow> bool \<times> files" where
  "project_save opens path db breakpoints romPath fs =
     (if opens then (True, fs(path := Some (project_text db breakpoints romPath))) else (False, fs))"

subsection \<open>Loading\<close>

text \<open>\<^verbatim>\<open>find\<close>: the string from the first occurrence on.\<close>

definition find_text :: "string \<Rightarrow> string \<Rightarrow> string option" where
  "find_text needle s = map_option (\<lambda>p. drop p s) (find_str needle s)"

text \<open>The text between the next two quotes.\<close>

definition quoted_text :: "string \<Rightarrow> string option" where
  "quoted_text u = (case find_text [QUOTE] u of None \<Rightarrow> None
     | Some v \<Rightarrow> (case find_text [QUOTE] (tl v) of None \<Rightarrow> None
         | Some x \<Rightarrow> Some (take (length (tl v) - length x) (tl v))))"

definition field_value :: "string \<Rightarrow> string \<Rightarrow> string option" where
  "field_value key obj = (case find_text (quoted key) obj of None \<Rightarrow> None
     | Some t \<Rightarrow> quoted_text (case find_text '':'' t of None \<Rightarrow> obj | Some v \<Rightarrow> tl v))"

text \<open>The text between the brackets after a key.\<close>

definition array_section :: "string \<Rightarrow> string \<Rightarrow> string option" where
  "array_section key content = (case find_text (quoted key) content of None \<Rightarrow> None
     | Some t \<Rightarrow> (case find_text ''['' t of None \<Rightarrow> None
         | Some a \<Rightarrow> (case find_text '']'' a of None \<Rightarrow> None
             | Some b \<Rightarrow> Some (take (length a - length b - 1) (tl a)))))"

lemma seek_length: "find_text needle s = Some t \<Longrightarrow> length t \<le> length s"
  by (auto simp: find_text_def)

lemma seek_same: "n \<noteq> [] \<Longrightarrow> find_text n s = Some t \<Longrightarrow> t \<noteq> []"
proof (induction s arbitrary: t)
  case (Cons c s)
  then show ?case by (cases "find_str n s") (auto simp: find_text_def split: if_splits)
qed (simp add: find_text_def)

function array_objects :: "string \<Rightarrow> string list" where
  "array_objects s = (case find_text ''{'' s of None \<Rightarrow> []
     | Some t \<Rightarrow> (case find_text ''}'' t of None \<Rightarrow> []
         | Some u \<Rightarrow> take (length t - length u + 1) t # array_objects (tl u)))"
  by pat_completeness auto
termination
proof (relation "measure length")
  fix s t u :: string
  assume a: "find_text ''{'' s = Some t" "find_text ''}'' t = Some u"
  then have "length u \<le> length s" using seek_length [OF a(1)] seek_length [OF a(2)] by simp
  moreover have "u \<noteq> []" using seek_same [OF _ a(2)] by simp
  ultimately show "(tl u, s) \<in> measure length" by (cases u) auto
qed simp

declare array_objects.simps [simp del]

definition field_address :: "(int \<Rightarrow> u32) \<Rightarrow> string \<Rightarrow> string \<Rightarrow> u16" where
  "field_address wide key obj = (case field_value key obj of None \<Rightarrow> 0
     | Some t \<Rightarrow> (case pf_hexToAddr wide t of None \<Rightarrow> 0 | Some a \<Rightarrow> a))"

definition field_text :: "string \<Rightarrow> string \<Rightarrow> string" where
  "field_text key obj = (case field_value key obj of None \<Rightarrow> [] | Some t \<Rightarrow> t)"

definition load_symbol :: "(int \<Rightarrow> u32) \<Rightarrow> string \<Rightarrow> symdb \<Rightarrow> symdb" where
  "load_symbol wide obj db =
     (let addr = field_address wide ''address'' obj; name = field_text ''name'' obj;
          ty = (if field_value ''type'' obj = Some ''function'' then Sym_Function else Sym_Label);
          comment = field_text ''comment'' obj
      in if name = [] then db
         else (let db = snd (addSymbol addr name ty db) in if comment = [] then db else snd (setSymbolComment addr comment db)))"

definition load_region :: "(int \<Rightarrow> u32) \<Rightarrow> string \<Rightarrow> symdb \<Rightarrow> symdb" where
  "load_region wide obj db =
     (let ty = (case field_value ''type'' obj of None \<Rightarrow> Reg_Unknown
           | Some t \<Rightarrow> if t = ''code'' then Reg_Code else if t = ''data'' then Reg_Data else Reg_Unknown)
      in snd (setRegion (field_address wide ''start'' obj) (field_address wide ''end'' obj) ty db))"

function load_breakpoints :: "(int \<Rightarrow> u32) \<Rightarrow> string \<Rightarrow> DebuggerBreakpoint list" where
  "load_breakpoints wide s = (case find_text [QUOTE] s of None \<Rightarrow> []
     | Some t \<Rightarrow> (case find_text [QUOTE] (tl t) of None \<Rightarrow> []
         | Some u \<Rightarrow>
             (case pf_hexToAddr wide (take (length (tl t) - length u) (tl t)) of None \<Rightarrow> []
              | Some a \<Rightarrow> [\<lparr>bk_address = a, bk_enabled = True\<rparr>]) @ load_breakpoints wide (tl u)))"
  by pat_completeness auto
termination
proof (relation "measure (\<lambda>(_, s). length s)")
  fix wide and s t u :: string
  assume a: "find_text [QUOTE] s = Some t" "find_text [QUOTE] (tl t) = Some u"
  then have "length u \<le> length s" using seek_length [OF a(1)] seek_length [OF a(2)] by simp
  moreover have "u \<noteq> []" using seek_same [OF _ a(2)] by simp
  ultimately show "((wide, tl u), wide, s) \<in> measure (\<lambda>(_, s). length s)" by (cases u) auto
qed simp

declare load_breakpoints.simps [simp del]

definition load_rom_path :: "string \<Rightarrow> string" where
  "load_rom_path content = (case find_text (quoted ''rom_path'') content of None \<Rightarrow> []
     | Some t \<Rightarrow> (case find_text '':'' t of None \<Rightarrow> []
         | Some v \<Rightarrow> (case quoted_text (tl v) of None \<Rightarrow> [] | Some p \<Rightarrow> p)))"

definition project_load ::
    "(int \<Rightarrow> u32) \<Rightarrow> files \<Rightarrow> string \<Rightarrow> symdb \<times> DebuggerBreakpoint list \<times> string \<Rightarrow>
     bool \<times> symdb \<times> DebuggerBreakpoint list \<times> string" where
  "project_load wide fs path st = (case fs path of None \<Rightarrow> (False, st)
     | Some content \<Rightarrow>
         let (db, _, _) = st; db = clear_symbols db; romPath = load_rom_path content;
             db = (case array_section ''symbols'' content of None \<Rightarrow> db
                   | Some s \<Rightarrow> fold (load_symbol wide) (array_objects s) db);
             db = (case array_section ''regions'' content of None \<Rightarrow> db
                   | Some s \<Rightarrow> fold (load_region wide) (array_objects s) db);
             breakpoints = (case array_section ''breakpoints'' content of None \<Rightarrow> []
                   | Some s \<Rightarrow> load_breakpoints wide s)
         in (True, db, breakpoints, romPath))"


section \<open>Searching\<close>

text \<open>Keys are searched with their quotes; \<open>passes k x\<close> says that no occurrence starts in \<open>x\<close>.\<close>

definition passes :: "string \<Rightarrow> string \<Rightarrow> bool" where
  "passes n x \<longleftrightarrow> (\<forall>y. find_text n (x @ y) = find_text n y)"

lemma seek_Nil [simp]: "find_text (n # ns) [] = None"
  by (simp add: find_text_def)

lemma seek_Cons: "find_text (n # ns) (c # t) = (if take (length (n # ns)) (c # t) = n # ns then Some (c # t) else find_text (n # ns) t)"
  by (cases "find_str (n # ns) t") (auto simp: find_text_def)

lemma seek_passes: "passes n x \<Longrightarrow> find_text n (x @ y) = find_text n y"
  by (simp add: passes_def)

lemma passes_append: "passes n x \<Longrightarrow> passes n y \<Longrightarrow> passes n (x @ y)"
  by (simp add: passes_def)

lemma passes_Nil: "passes n []"
  by (simp add: passes_def)

lemma passes_free: "n \<notin> set x \<Longrightarrow> passes (n # ns) x"
proof (induction x)
  case (Cons c x)
  then have "passes (n # ns) [c]" by (auto simp: passes_def seek_Cons)
  then show ?case using passes_append [of "n # ns" "[c]" x] Cons by simp
qed (simp add: passes_Nil)

lemma seek_char: "c \<notin> set x \<Longrightarrow> find_text [c] (x @ c # y) = Some (c # y)"
  using seek_passes [OF passes_free, of c x "[]" "c # y"] by (simp add: seek_Cons)

lemma seek_char_None: "c \<notin> set x \<Longrightarrow> find_text [c] x = None"
  using seek_passes [OF passes_free, of c x "[]" "[]"] by simp

lemma seek_hit: "passes n x \<Longrightarrow> n \<noteq> [] \<Longrightarrow> find_text n (x @ n @ y) = Some (n @ y)"
  by (cases n) (simp_all add: seek_passes seek_Cons)

lemma free_prefix_eq: "c \<notin> set s \<Longrightarrow> c \<notin> set k \<Longrightarrow> take (Suc (length k)) (s @ c # y) = k @ [c] \<Longrightarrow> s = k"
proof (induction s arbitrary: k)
  case Nil then show ?case by (cases k) auto
next
  case (Cons d s) then show ?case by (cases k) auto
qed

lemma passes_quoted:
  assumes "QUOTE \<notin> set s" "QUOTE \<notin> set k" "s \<noteq> k" "k \<noteq> []" "c \<noteq> QUOTE" "hd k \<noteq> c"
  shows "passes (quoted k) (quoted s @ [c])"
proof -
  have 1: "passes (quoted k) (QUOTE # s @ [QUOTE, c])"
  proof (unfold passes_def, intro allI)
    fix y
    have k: "quoted k = QUOTE # k @ [QUOTE]" by (simp add: quoted_def)
    have "take (Suc (length k)) (s @ QUOTE # c # y) \<noteq> k @ [QUOTE]"
      using free_prefix_eq [OF assms(1,2), of "c # y"] assms(3) by blast
    then have "find_text (quoted k) (QUOTE # s @ QUOTE # c # y) = find_text (quoted k) (s @ QUOTE # c # y)"
      unfolding k by (subst seek_Cons) simp
    also have "\<dots> = find_text (quoted k) (QUOTE # c # y)"
      using seek_passes [OF passes_free [OF assms(1)]] unfolding k by simp
    also have "\<dots> = find_text (quoted k) y"
      using assms(4-6) unfolding k by (cases k) (simp_all add: seek_Cons)
    finally show "find_text (quoted k) ((QUOTE # s @ [QUOTE, c]) @ y) = find_text (quoted k) y" by simp
  qed
  then show ?thesis by (simp add: quoted_def)
qed

lemma passes_key: "QUOTE \<notin> set x \<Longrightarrow> passes (quoted k) x"
  by (simp add: quoted_def passes_free)

lemma passes_member:
  assumes "QUOTE \<notin> set key" "QUOTE \<notin> set v" "QUOTE \<notin> set k" "key \<noteq> k" "v \<noteq> k" "k \<noteq> []" "hd k \<notin> {CHR '':'', c}" "c \<noteq> QUOTE"
  shows "passes (quoted k) (member key v @ [c])"
proof -
  have "passes (quoted k) ((quoted key @ '':'') @ '' '' @ (quoted v @ [c]))"
    using assms by (intro passes_append passes_quoted passes_key) auto
  then show ?thesis by (simp add: member_def)
qed

lemma quoted_text_value: "QUOTE \<notin> set x \<Longrightarrow> QUOTE \<notin> set v \<Longrightarrow> quoted_text (x @ quoted v @ rest) = Some v"
  using seek_char [of QUOTE x "v @ QUOTE # rest"] seek_char [of QUOTE v rest] by (simp add: quoted_text_def quoted_def)

lemma field_value_member:
  assumes "passes (quoted k) pre" "QUOTE \<notin> set v" "CHR '':'' \<notin> set k"
  shows "field_value k (pre @ member k v @ rest) = Some v"
proof -
  have q: "quoted k \<noteq> []" by (simp add: quoted_def)
  have "find_text (quoted k) (pre @ member k v @ rest) = Some (quoted k @ '': '' @ quoted v @ rest)"
    using seek_hit [OF assms(1) q, of "'': '' @ quoted v @ rest"] by (simp add: member_def)
  moreover have "find_text '':'' (quoted k @ '': '' @ quoted v @ rest) = Some ('': '' @ quoted v @ rest)"
    using seek_char [of "CHR '':''" "quoted k" "'' '' @ quoted v @ rest"] assms(3) by (simp add: quoted_def)
  moreover have "quoted_text ('' '' @ quoted v @ rest) = Some v" using assms(2) by (intro quoted_text_value) simp_all
  ultimately show ?thesis by (simp add: field_value_def)
qed

lemma array_section_found:
  assumes "passes (quoted k) pre" "CHR ''['' \<notin> set k" "CHR '']'' \<notin> set inner"
  shows "array_section k (pre @ quoted k @ '': ['' @ inner @ '']'' @ rest) = Some inner"
proof -
  have q: "quoted k \<noteq> []" by (simp add: quoted_def)
  have "find_text ''['' (quoted k @ '': ['' @ inner @ '']'' @ rest) = Some (''['' @ inner @ '']'' @ rest)"
    using seek_char [of "CHR ''[''" "quoted k @ '': ''" "inner @ '']'' @ rest"] assms(2) by (simp add: quoted_def)
  moreover have "find_text '']'' (''['' @ inner @ '']'' @ rest) = Some ('']'' @ rest)"
    using seek_char [of "CHR '']''" "''['' @ inner" rest] assms(3) by simp
  ultimately show ?thesis using seek_hit [OF assms(1) q] by (simp add: array_section_def)
qed

lemma array_objects_step:
  assumes "CHR ''{'' \<notin> set pre" "CHR ''}'' \<notin> set body"
  shows "array_objects (pre @ ''{'' @ body @ ''}'' @ rest) = (''{'' @ body @ ''}'') # array_objects rest"
proof -
  have "find_text ''{'' (pre @ ''{'' @ body @ ''}'' @ rest) = Some (''{'' @ body @ ''}'' @ rest)"
    using seek_char [OF assms(1)] by simp
  moreover have "find_text ''}'' (''{'' @ body @ ''}'' @ rest) = Some (''}'' @ rest)"
    using seek_char [of "CHR ''}''" "''{'' @ body" rest] assms(2) by simp
  ultimately show ?thesis by (subst array_objects.simps) simp
qed

lemma array_objects_end: "CHR ''{'' \<notin> set x \<Longrightarrow> array_objects x = []"
  by (subst array_objects.simps) (simp add: seek_char_None)

lemma array_objects_lines:
  assumes "\<And>x. x \<in> set xs \<Longrightarrow> CHR ''}'' \<notin> set (body x)" "CHR ''{'' \<notin> set pre"
  shows "array_objects (pre @ array_lines (map (\<lambda>x. ''        {'' @ body x @ ''}'') xs) @ ''    '') = map (\<lambda>x. ''{'' @ body x @ ''}'') xs"
  using assms
proof (induction xs arbitrary: pre)
  case Nil then show ?case by (simp add: array_objects_end)
next
  case (Cons x xs)
  have step: "array_objects (pre @ (''        {'' @ body x @ ''}'') @ rest) = (''{'' @ body x @ ''}'') # array_objects rest" for rest
    using array_objects_step [of "pre @ ''        ''" "body x" rest] Cons.prems by simp
  show ?case
  proof (cases xs)
    case Nil
    then show ?thesis using step [of "[LF] @ ''    ''"] by (simp add: array_objects_end)
  next
    case (Cons y ys)
    then show ?thesis
      using step [of "'','' @ [LF] @ array_lines (map (\<lambda>x. ''        {'' @ body x @ ''}'') xs) @ ''    ''"]
        Cons.IH [of "'','' @ [LF]"] Cons.prems by simp
  qed
qed

section \<open>A project text\<close>

text \<open>The texts a project can hold: without the characters that are escaped or that end an array or an
  object, and different from the keys, since a search for a key finds such a text too.\<close>

definition project_keys :: "string list" where
  "project_keys = [''address'', ''name'', ''type'', ''comment'', ''start'', ''end'', ''rom_path'', ''symbols'', ''regions'', ''breakpoints'']"

definition text_ok :: "string \<Rightarrow> bool" where
  "text_ok s \<longleftrightarrow> list_all (\<lambda>c. c \<notin> {QUOTE, BSLASH, LF, CR, TAB, CHR '']'', CHR ''}''}) s \<and> s \<notin> set project_keys"

lemma escape_text_ok: "text_ok s \<Longrightarrow> escapeJson s = s"
  by (auto simp: text_ok_def escapeJson_def list_all_iff intro: concat_map_singleton [THEN trans [rotated]] cong: map_cong)

lemma text_ok_chars: "text_ok s \<Longrightarrow> QUOTE \<notin> set s \<and> CHR '']'' \<notin> set s \<and> CHR ''}'' \<notin> set s"
  by (auto simp: text_ok_def list_all_iff)

lemma xdigit_chars: "isxdigit c \<Longrightarrow> c \<notin> {QUOTE, BSLASH, LF, CR, TAB, CHR '']'', CHR ''}'', CHR ''n'', CHR ''t'', CHR ''r'', CHR ''s'', CHR ''o'', CHR ''y''}"
  by (auto simp: isxdigit_def hex_value_def)

lemma hex_text_ok: "text_ok (pf_addrToHex a)"
proof -
  have d: "list_all isxdigit (pf_addrToHex a)" by (simp add: pf_addrToHex_def fmt_hex_ok(2))
  have "\<forall>k \<in> set project_keys. \<exists>c \<in> set k. c \<in> {CHR ''n'', CHR ''t'', CHR ''r'', CHR ''s'', CHR ''o'', CHR ''y''}"
    by (simp add: project_keys_def)
  then have "pf_addrToHex a \<notin> set project_keys" using d xdigit_chars unfolding list_all_iff by blast
  then show ?thesis using d xdigit_chars unfolding text_ok_def list_all_iff by blast
qed

lemma pf_hex_round_trip: "pf_hexToAddr wide (pf_addrToHex a) = Some a"
proof -
  have "unat a < 2 ^ 32" using unat_u16_lt [of a] by (rule less_trans) simp
  then have "sscanf_x wide (fmt_hex a 4) = Some (ucast a)"
    using sscanf_x_digits [OF fmt_hex_ok(2) fmt_hex_nonempty, of a 4 wide] by (simp add: fmt_hex_ok(1))
  moreover have "\<not> 0xFFFF < (ucast a :: u32)"
  proof -
    have "unat a \<le> 65535" using unat_u16_lt [of a] by linarith
    then show ?thesis by (simp add: word_less_nat_alt)
  qed
  ultimately show ?thesis by (simp add: pf_hexToAddr_def pf_addrToHex_def)
qed

text \<open>The members of an object, each with the character after it.\<close>

lemma passes_member_ok:
  assumes "k \<in> set project_keys" "key \<in> set project_keys" "key \<noteq> k" "text_ok v" "c \<in> {CHR '','', CHR ''}''}"
  shows "passes (quoted k) (member key v @ [c])"
proof -
  have facts: "list_all (\<lambda>k. QUOTE \<notin> set k \<and> k \<noteq> [] \<and> hd k \<notin> {CHR '':'', CHR '','', CHR ''}''}) project_keys"
    by (simp add: project_keys_def)
  show ?thesis
    using facts assms text_ok_chars [OF assms(4)] by (intro passes_member) (auto simp: list_all_iff text_ok_def)
qed

definition member_list :: "(string \<times> string) list \<Rightarrow> string" where
  "member_list ms = concat (map (\<lambda>(key, v). member key v @ '', '') ms)"

lemma passes_members:
  assumes "k \<in> set project_keys" "list_all (\<lambda>(key, v). key \<in> set project_keys \<and> key \<noteq> k \<and> text_ok v) ms"
  shows "passes (quoted k) (member_list ms)"
  using assms(2)
proof (induction ms)
  case Nil then show ?case by (simp add: member_list_def passes_Nil)
next
  case (Cons m ms)
  obtain key v where m: "m = (key, v)" by (cases m)
  have "passes (quoted k) ((member key v @ [CHR '','']) @ '' '' @ member_list ms)"
    using Cons assms(1) by (intro passes_append [OF passes_member_ok passes_append [OF passes_key]]) (auto simp: m)
  then show ?case by (simp add: member_list_def m)
qed

lemma field_value_members:
  assumes "k \<in> set project_keys" "list_all (\<lambda>(key, v). key \<in> set project_keys \<and> key \<noteq> k \<and> text_ok v) ms" "text_ok v"
  shows "field_value k (''{'' @ member_list ms @ member k v @ rest) = Some v"
proof -
  have "list_all (\<lambda>k. CHR '':'' \<notin> set k) project_keys" by (simp add: project_keys_def)
  moreover have "passes (quoted k) (''{'' @ member_list ms)"
    by (intro passes_append passes_members assms passes_key) simp
  ultimately show ?thesis using field_value_member [of k "''{'' @ member_list ms" v rest] text_ok_chars [OF assms(3)] assms(1)
    by (simp add: list_all_iff)
qed

definition symbol_body :: "DebugSymbol \<Rightarrow> string" where
  "symbol_body sy = member_list [(''address'', pf_addrToHex (sy_address sy)), (''name'', sy_name sy),
     (''type'', if sy_type sy = Sym_Function then ''function'' else ''label'')] @ member ''comment'' (sy_comment sy)"

definition region_type :: "MemoryRegionType \<Rightarrow> string" where
  "region_type t = (case t of Reg_Code \<Rightarrow> ''code'' | Reg_Data \<Rightarrow> ''data'' | Reg_Unknown \<Rightarrow> ''unknown'')"

definition region_body :: "MemoryRegion \<Rightarrow> string" where
  "region_body reg = member_list [(''start'', pf_addrToHex (mr_start reg)), (''end'', pf_addrToHex (mr_end reg)),
     (''type'', region_type (mr_type reg))] @ member ''comment'' (mr_comment reg)"

lemma plain_words: "text_ok ''function''" "text_ok ''label''" "text_ok (region_type t)"
  by (cases t; simp add: text_ok_def project_keys_def region_type_def)+

lemma symbol_line_body: "text_ok (sy_name sy) \<Longrightarrow> text_ok (sy_comment sy) \<Longrightarrow> symbol_line sy = ''        {'' @ symbol_body sy @ ''}''"
  by (simp add: symbol_line_def symbol_body_def member_list_def escape_text_ok)

lemma region_line_body: "text_ok (mr_comment r) \<Longrightarrow> region_line r = ''        {'' @ region_body r @ ''}''"
  by (simp add: region_line_def region_body_def member_list_def escape_text_ok region_type_def)

lemma symbol_fields:
  assumes "text_ok (sy_name sy)" "text_ok (sy_comment sy)"
  defines "obj \<equiv> ''{'' @ symbol_body sy @ ''}''"
  shows "field_value ''address'' obj = Some (pf_addrToHex (sy_address sy))" "field_value ''name'' obj = Some (sy_name sy)"
    "field_value ''type'' obj = Some (if sy_type sy = Sym_Function then ''function'' else ''label'')"
    "field_value ''comment'' obj = Some (sy_comment sy)"
proof -
  let ?m = "[(''address'', pf_addrToHex (sy_address sy)), (''name'', sy_name sy),
     (''type'', if sy_type sy = Sym_Function then ''function'' else ''label'')]"
  have ty: "text_ok (if sy_type sy = Sym_Function then ''function'' else ''label'')" by (simp add: plain_words)
  note f = field_value_members [where k = "''address''" and ms = "[]"] field_value_members [where k = "''name''" and ms = "take 1 ?m"]
    field_value_members [where k = "''type''" and ms = "take 2 ?m"] field_value_members [where k = "''comment''" and ms = ?m]
  show "field_value ''address'' obj = Some (pf_addrToHex (sy_address sy))" "field_value ''name'' obj = Some (sy_name sy)"
    "field_value ''type'' obj = Some (if sy_type sy = Sym_Function then ''function'' else ''label'')"
    "field_value ''comment'' obj = Some (sy_comment sy)"
    using f(1) [of "pf_addrToHex (sy_address sy)"] f(2) [of "sy_name sy"]
      f(3) [of "if sy_type sy = Sym_Function then ''function'' else ''label''"] f(4) [of "sy_comment sy" "''}''"]
      assms(1,2) ty hex_text_ok
    by (simp_all add: obj_def symbol_body_def member_list_def project_keys_def numeral_2_eq_2)
qed

lemma region_fields:
  assumes "text_ok (mr_comment r)"
  defines "obj \<equiv> ''{'' @ region_body r @ ''}''"
  shows "field_value ''start'' obj = Some (pf_addrToHex (mr_start r))" "field_value ''end'' obj = Some (pf_addrToHex (mr_end r))"
    "field_value ''type'' obj = Some (region_type (mr_type r))"
proof -
  let ?m = "[(''start'', pf_addrToHex (mr_start r)), (''end'', pf_addrToHex (mr_end r)), (''type'', region_type (mr_type r))]"
  note f = field_value_members [where k = "''start''" and ms = "[]"] field_value_members [where k = "''end''" and ms = "take 1 ?m"]
    field_value_members [where k = "''type''" and ms = "take 2 ?m"]
  show "field_value ''start'' obj = Some (pf_addrToHex (mr_start r))" "field_value ''end'' obj = Some (pf_addrToHex (mr_end r))"
    "field_value ''type'' obj = Some (region_type (mr_type r))"
    using f(1) [of "pf_addrToHex (mr_start r)"] f(2) [of "pf_addrToHex (mr_end r)"] f(3) [of "region_type (mr_type r)"] hex_text_ok plain_words(3)
    by (simp_all add: obj_def region_body_def member_list_def project_keys_def numeral_2_eq_2)
qed

section \<open>Loading what was saved\<close>

definition saved_symbol :: "DebugSymbol \<Rightarrow> DebugSymbol" where
  "saved_symbol sy = \<lparr>sy_address = sy_address sy, sy_name = sy_name sy, sy_comment = normalizeRdbText (sy_comment sy),
     sy_type = sy_type sy, sy_sourceFile = '''', sy_sourceLine = 0, sy_fromMap = False\<rparr>"

definition symbol_ok :: "DebugSymbol \<Rightarrow> bool" where
  "symbol_ok sy \<longleftrightarrow> text_ok (sy_name sy) \<and> text_ok (sy_comment sy) \<and> sy_name sy \<noteq> []"

text \<open>What a project must be for its file to hold it.\<close>

definition project_ok :: "symdb \<Rightarrow> string \<Rightarrow> bool" where
  "project_ok db romPath \<longleftrightarrow> map_ok (db_symbols db) \<and>
     list_all (\<lambda>(k, sy). sy_address sy = k \<and> symbol_ok sy) (db_symbols db) \<and>
     regions_ok (db_regions db) \<and> list_all (\<lambda>r. text_ok (mr_comment r)) (db_regions db) \<and> text_ok romPath"

lemma load_symbol_object:
  assumes "symbol_ok sy" "map_ok (db_symbols db)" "map_of (db_symbols db) (sy_address sy) = None"
  shows "db_symbols (load_symbol wide (''{'' @ symbol_body sy @ ''}'') db) = map_put (sy_address sy) (saved_symbol sy) (db_symbols db) \<and>
    db_regions (load_symbol wide (''{'' @ symbol_body sy @ ''}'') db) = db_regions db"
proof -
  have f: "field_address wide ''address'' (''{'' @ symbol_body sy @ ''}'') = sy_address sy"
    "field_text ''name'' (''{'' @ symbol_body sy @ ''}'') = sy_name sy" "field_text ''comment'' (''{'' @ symbol_body sy @ ''}'') = sy_comment sy"
    "(field_value ''type'' (''{'' @ symbol_body sy @ ''}'') = Some ''function'') = (sy_type sy = Sym_Function)"
    using assms(1) unfolding symbol_ok_def field_address_def field_text_def
    by (simp_all only: symbol_fields option.case pf_hex_round_trip) simp
  have ty: "(if sy_type sy = Sym_Function then Sym_Function else Sym_Label) = sy_type sy" by (cases "sy_type sy") simp_all
  have n: "sy_name sy \<noteq> []" using assms(1) by (simp add: symbol_ok_def)
  show ?thesis unfolding load_symbol_def f ty Let_def
    using n assms(2,3) by (cases "sy_comment sy = []")
      (simp_all add: addSymbol_def setSymbolComment_def invalidateXrefs_def saved_symbol_def map_put_find map_put_twice)
qed

lemma load_symbols:
  assumes "list_all (\<lambda>(k, sy). sy_address sy = k \<and> symbol_ok sy) m" "distinct (map fst m)" "map_ok (db_symbols db)"
    and "\<And>k. k \<in> fst ` set m \<Longrightarrow> map_of (db_symbols db) k = None"
  shows "db_symbols (fold (load_symbol wide) (map (\<lambda>sy. ''{'' @ symbol_body sy @ ''}'') (map snd m)) db) =
      fold (\<lambda>(k, v) ps. map_put k (saved_symbol v) ps) m (db_symbols db) \<and>
    db_regions (fold (load_symbol wide) (map (\<lambda>sy. ''{'' @ symbol_body sy @ ''}'') (map snd m)) db) = db_regions db"
  using assms
proof (induction m arbitrary: db)
  case (Cons e m)
  obtain k sy where e: "e = (k, sy)" by (cases e)
  let ?db = "load_symbol wide (''{'' @ symbol_body sy @ ''}'') db"
  have l: "db_symbols ?db = map_put k (saved_symbol sy) (db_symbols db) \<and> db_regions ?db = db_regions db"
    using load_symbol_object [of sy db wide] Cons.prems by (simp add: e)
  have "db_symbols (fold (load_symbol wide) (map (\<lambda>sy. ''{'' @ symbol_body sy @ ''}'') (map snd m)) ?db) =
      fold (\<lambda>(k, v) ps. map_put k (saved_symbol v) ps) m (db_symbols ?db) \<and>
    db_regions (fold (load_symbol wide) (map (\<lambda>sy. ''{'' @ symbol_body sy @ ''}'') (map snd m)) ?db) = db_regions ?db"
  proof (rule Cons.IH)
    show "map_ok (db_symbols ?db)" using Cons.prems(3) l by (simp add: map_put_ok)
    show "map_of (db_symbols ?db) j = None" if "j \<in> fst ` set m" for j
      using that Cons.prems(2,4) l by (auto simp: e map_put_find [OF Cons.prems(3)])
  qed (use Cons.prems(1,2) in simp_all)
  then show ?case using l by (simp add: e)
qed simp

lemma load_region_object:
  assumes "text_ok (mr_comment r)" "mr_start r \<le> mr_end r" "list_all (\<lambda>q. mr_end q < mr_start r) (db_regions db)"
    and "sorted (map mr_start (db_regions db) @ [mr_start r])"
  shows "db_regions (load_region wide (''{'' @ region_body r @ ''}'') db) = db_regions db @ [r\<lparr>mr_comment := []\<rparr>] \<and>
    db_symbols (load_region wide (''{'' @ region_body r @ ''}'') db) = db_symbols db"
proof -
  have f: "field_address wide ''start'' (''{'' @ region_body r @ ''}'') = mr_start r" "field_address wide ''end'' (''{'' @ region_body r @ ''}'') = mr_end r"
    unfolding field_address_def by (simp_all only: region_fields [OF assms(1)] option.case pf_hex_round_trip)
  have ty: "(case field_value ''type'' (''{'' @ region_body r @ ''}'') of None \<Rightarrow> Reg_Unknown
           | Some t \<Rightarrow> if t = ''code'' then Reg_Code else if t = ''data'' then Reg_Data else Reg_Unknown) = mr_type r"
    unfolding region_fields [OF assms(1)] by (cases "mr_type r") (simp_all add: region_type_def)
  have "map (cut_region (mr_start r) (mr_end r)) (db_regions db) = map (\<lambda>q. [q]) (db_regions db)"
    using assms(3) by (auto simp: cut_region_def list_all_iff)
  then have cut: "concat (map (cut_region (mr_start r) (mr_end r)) (db_regions db)) = db_regions db"
    by (simp only: concat_map_singleton list.map_ident)
  have sorted: "sort_key mr_start (db_regions db @ [\<lparr>mr_start = mr_start r, mr_end = mr_end r, mr_type = mr_type r, mr_comment = []\<rparr>]) =
      db_regions db @ [\<lparr>mr_start = mr_start r, mr_end = mr_end r, mr_type = mr_type r, mr_comment = []\<rparr>]"
    using assms(4) by (intro sort_key_id_if_sorted) simp
  show ?thesis unfolding load_region_def f ty Let_def
    using setRegion_regions [OF assms(2), of "mr_type r" db] assms(2) sorted
    by (simp add: cut setRegion_def invalidateXrefs_def Let_def)
qed

lemma load_regions:
  assumes "regions_ok (db_regions db @ rs)" "list_all (\<lambda>r. text_ok (mr_comment r)) rs" "list_all (\<lambda>q. mr_comment q = []) (db_regions db)"
  shows "db_regions (fold (load_region wide) (map (\<lambda>r. ''{'' @ region_body r @ ''}'') rs) db) =
      db_regions db @ map (\<lambda>r. r\<lparr>mr_comment := []\<rparr>) rs \<and>
    db_symbols (fold (load_region wide) (map (\<lambda>r. ''{'' @ region_body r @ ''}'') rs) db) = db_symbols db"
  using assms
proof (induction rs arbitrary: db)
  case (Cons r rs)
  let ?db = "load_region wide (''{'' @ region_body r @ ''}'') db" and ?r = "r\<lparr>mr_comment := []\<rparr>"
  have ne: "mr_start r \<le> mr_end r" using Cons.prems(1) by (auto simp: regions_ok_def disjoint_regions_set nonempty_def)
  have "mr_end q < mr_start r" if "q \<in> set (db_regions db)" for q
  proof -
    have "\<not> meets q r" "mr_start q \<le> mr_start r"
      using Cons.prems(1) that by (auto simp: regions_ok_def disjoint_append sorted_append)
    moreover have "\<not> (mr_start q \<le> mr_start r \<and> mr_start r \<le> mr_end q)"
      using \<open>\<not> meets q r\<close> ne unfolding meets_def in_region_def by blast
    ultimately show ?thesis by simp
  qed
  then have before: "list_all (\<lambda>q. mr_end q < mr_start r) (db_regions db)" by (simp add: list_all_iff)
  have l: "db_regions ?db = db_regions db @ [?r] \<and> db_symbols ?db = db_symbols db"
    using Cons.prems(1,2) ne before by (intro load_region_object) (auto simp: regions_ok_def sorted_append)
  have eq: "meets ?r q = meets r q" "nonempty ?r = nonempty r" for q by (simp_all add: meets_def in_region_def nonempty_def)
  have "regions_ok (db_regions ?db @ rs)"
    using Cons.prems(1) l eq meets_sym by (simp add: regions_ok_def disjoint_regions_def sorted_wrt_append sorted_append)
  then show ?case using Cons.IH [of ?db] Cons.prems(2,3) l by simp
qed simp

lemma load_breakpoints_items: "load_breakpoints wide (breakpoint_items bps) = [b \<leftarrow> bps. bk_enabled b]"
proof -
  have skip: "load_breakpoints wide (x @ s) = load_breakpoints wide s" if "QUOTE \<notin> set x" for x s
    by (subst (1 2) load_breakpoints.simps) (simp add: seek_passes [OF passes_free [OF that]])
  have one: "load_breakpoints wide (quoted (pf_addrToHex a) @ rest) = \<lparr>bk_address = a, bk_enabled = True\<rparr> # load_breakpoints wide rest" for a rest
  proof -
    have q: "QUOTE \<notin> set (pf_addrToHex a)" using text_ok_chars [OF hex_text_ok] by blast
    have "find_text [QUOTE] (quoted (pf_addrToHex a) @ rest) = Some (quoted (pf_addrToHex a) @ rest)" by (simp add: quoted_def seek_Cons)
    moreover have "find_text [QUOTE] (tl (quoted (pf_addrToHex a) @ rest)) = Some (QUOTE # rest)"
      using seek_char [OF q, of rest] by (simp add: quoted_def)
    ultimately show ?thesis by (subst load_breakpoints.simps) (simp add: quoted_def pf_hex_round_trip)
  qed
  show ?thesis
  proof (induction bps)
    case Nil then show ?case by (subst load_breakpoints.simps) (simp add: find_text_def)
  next
    case (Cons bp bps)
    then show ?case using skip [of "'', ''" "breakpoint_items bps"] by (cases bp) (auto simp: one)
  qed
qed

subsection \<open>The whole text\<close>

lemma passes_lines: "(\<And>x. x \<in> set xs \<Longrightarrow> passes (quoted k) x) \<Longrightarrow> passes (quoted k) (array_lines xs)"
proof (induction xs rule: array_lines.induct)
  case (3 x y ys)
  have "passes (quoted k) (x @ [CHR '','', LF] @ array_lines (y # ys))"
    using 3 by (intro passes_append [OF _ passes_append [OF passes_key]]) simp_all
  then show ?case by simp
next
  case (2 x)
  then show ?case by (simp add: passes_append passes_key)
qed (simp add: passes_Nil)

lemma body_passes:
  assumes "k \<in> {''regions'', ''breakpoints''}"
  shows "symbol_ok sy \<Longrightarrow> passes (quoted k) (''        {'' @ symbol_body sy @ ''}'')"
    "text_ok (mr_comment r) \<Longrightarrow> passes (quoted k) (''        {'' @ region_body r @ ''}'')"
proof -
  have k: "k \<in> set project_keys" using assms by (auto simp: project_keys_def)
  have keys: "''address'' \<in> set project_keys" "''name'' \<in> set project_keys" "''type'' \<in> set project_keys" "''comment'' \<in> set project_keys"
    "''start'' \<in> set project_keys" "''end'' \<in> set project_keys" by (simp_all add: project_keys_def)
  have object: "passes (quoted k) (''        {'' @ (member_list ms @ member ''comment'' v) @ ''}'')"
    if "list_all (\<lambda>(key, v). key \<in> set project_keys \<and> key \<noteq> k \<and> text_ok v) ms" "text_ok v" for ms v
  proof -
    have "passes (quoted k) (''        {'' @ member_list ms @ (member ''comment'' v @ [CHR ''}'']))"
      using that assms keys k by (intro passes_append [OF passes_key passes_append [OF passes_members passes_member_ok]]) auto
    then show ?thesis by simp
  qed
  show "symbol_ok sy \<Longrightarrow> passes (quoted k) (''        {'' @ symbol_body sy @ ''}'')"
    unfolding symbol_body_def using assms keys hex_text_ok plain_words by (intro object) (auto simp: symbol_ok_def)
  show "text_ok (mr_comment r) \<Longrightarrow> passes (quoted k) (''        {'' @ region_body r @ ''}'')"
    unfolding region_body_def using assms keys hex_text_ok plain_words by (intro object) auto
qed

lemma body_chars:
  "symbol_ok sy \<Longrightarrow> CHR ''}'' \<notin> set (symbol_body sy) \<and> CHR '']'' \<notin> set (symbol_body sy)"
  "text_ok (mr_comment r) \<Longrightarrow> CHR ''}'' \<notin> set (region_body r) \<and> CHR '']'' \<notin> set (region_body r)"
  using text_ok_chars [OF hex_text_ok] text_ok_chars [OF plain_words(3)] text_ok_chars [of "sy_name sy"] text_ok_chars [of "sy_comment sy"]
    text_ok_chars [of "mr_comment r"]
  by (auto simp: symbol_ok_def symbol_body_def region_body_def member_list_def member_def quoted_def)

lemma lines_chars: "(\<And>x. x \<in> set xs \<Longrightarrow> c \<notin> set x) \<Longrightarrow> c \<notin> {LF, CHR '',''} \<Longrightarrow> c \<notin> set (array_lines xs)"
  by (induction xs rule: array_lines.induct) auto

lemma breakpoint_chars: "CHR '']'' \<notin> set (breakpoint_items bps)"
  using text_ok_chars [OF hex_text_ok] by (induction bps) (auto simp: quoted_def)

lemma load_rom_path_member:
  assumes "passes (quoted ''rom_path'') pre" "QUOTE \<notin> set v" "content = pre @ member ''rom_path'' v @ rest"
  shows "load_rom_path content = v"
proof -
  have q: "quoted ''rom_path'' \<noteq> []" by (simp add: quoted_def)
  have "find_text (quoted ''rom_path'') content = Some (quoted ''rom_path'' @ '': '' @ quoted v @ rest)"
    using seek_hit [OF assms(1) q, of "'': '' @ quoted v @ rest"] by (simp add: assms(3) member_def)
  moreover have "find_text '':'' (quoted ''rom_path'' @ '': '' @ quoted v @ rest) = Some ('': '' @ quoted v @ rest)"
    using seek_char [of "CHR '':''" "quoted ''rom_path''" "'' '' @ quoted v @ rest"] by (simp add: quoted_def)
  moreover have "quoted_text ('' '' @ quoted v @ rest) = Some v" using assms(2) by (intro quoted_text_value) simp_all
  ultimately show ?thesis by (simp add: load_rom_path_def)
qed

text \<open>The two arrays of objects.\<close>

definition symbols_text :: "DebugSymbol list \<Rightarrow> string" where
  "symbols_text sys = [LF] @ array_lines (map (\<lambda>sy. ''        {'' @ symbol_body sy @ ''}'') sys) @ ''    ''"

definition regions_text :: "MemoryRegion list \<Rightarrow> string" where
  "regions_text rs = [LF] @ array_lines (map (\<lambda>r. ''        {'' @ region_body r @ ''}'') rs) @ ''    ''"

lemma section_passes:
  assumes "\<And>x. x \<in> set xs \<Longrightarrow> passes (quoted k) (f x)"
  shows "passes (quoted k) ([LF] @ array_lines (map f xs) @ ''    '')"
proof (intro passes_append)
  show "passes (quoted k) (array_lines (map f xs))" by (rule passes_lines) (use assms in auto)
qed (simp_all add: passes_key)

lemma symbols_text_ok:
  assumes "list_all symbol_ok sys"
  shows "k \<in> {''regions'', ''breakpoints''} \<Longrightarrow> passes (quoted k) (symbols_text sys)" "CHR '']'' \<notin> set (symbols_text sys)"
    "array_objects (symbols_text sys) = map (\<lambda>sy. ''{'' @ symbol_body sy @ ''}'') sys"
proof -
  have sys: "symbol_ok sy" if "sy \<in> set sys" for sy using assms that by (simp add: list_all_iff)
  show "passes (quoted k) (symbols_text sys)" if k: "k \<in> {''regions'', ''breakpoints''}"
    unfolding symbols_text_def by (rule section_passes, rule body_passes(1) [OF k], rule sys)
  have "CHR '']'' \<notin> set (array_lines (map (\<lambda>sy. ''        {'' @ symbol_body sy @ ''}'') sys))"
    by (rule lines_chars) (use sys body_chars(1) in auto)
  then show "CHR '']'' \<notin> set (symbols_text sys)" by (simp add: symbols_text_def)
  show "array_objects (symbols_text sys) = map (\<lambda>sy. ''{'' @ symbol_body sy @ ''}'') sys"
    unfolding symbols_text_def by (rule array_objects_lines) (use sys body_chars(1) in auto)
qed

lemma regions_text_ok:
  assumes "list_all (\<lambda>r. text_ok (mr_comment r)) rs"
  shows "passes (quoted ''breakpoints'') (regions_text rs)" "CHR '']'' \<notin> set (regions_text rs)"
    "array_objects (regions_text rs) = map (\<lambda>r. ''{'' @ region_body r @ ''}'') rs"
proof -
  have rs: "text_ok (mr_comment r)" if "r \<in> set rs" for r using assms that by (simp add: list_all_iff)
  show "passes (quoted ''breakpoints'') (regions_text rs)"
    unfolding regions_text_def by (rule section_passes, rule body_passes(2)) (use rs in simp_all)
  have "CHR '']'' \<notin> set (array_lines (map (\<lambda>r. ''        {'' @ region_body r @ ''}'') rs))"
    by (rule lines_chars) (use rs body_chars(2) in auto)
  then show "CHR '']'' \<notin> set (regions_text rs)" by (simp add: regions_text_def)
  show "array_objects (regions_text rs) = map (\<lambda>r. ''{'' @ region_body r @ ''}'') rs"
    unfolding regions_text_def by (rule array_objects_lines) (use rs body_chars(2) in auto)
qed

text \<open>What the searches of \<open>project_load\<close> find.\<close>

lemma key_facts: "k \<in> set project_keys \<Longrightarrow> QUOTE \<notin> set k \<and> k \<noteq> [] \<and> hd k \<noteq> CHR '':''"
  by (auto simp: project_keys_def)

lemma project_sections:
  assumes "list_all symbol_ok (allSymbols db)" "list_all (\<lambda>r. text_ok (mr_comment r)) (allRegions db)" "text_ok romPath"
  shows "array_section ''symbols'' (project_text db bps romPath) = Some (symbols_text (allSymbols db))"
    "array_section ''regions'' (project_text db bps romPath) = Some (regions_text (allRegions db))"
    "array_section ''breakpoints'' (project_text db bps romPath) = Some (breakpoint_items bps)"
    "load_rom_path (project_text db bps romPath) = romPath"
proof -
  define S where "S = symbols_text (allSymbols db)"
  define G where "G = regions_text (allRegions db)"
  define head where "head = (''{'' @ [LF] @ ''    '') @ (quoted ''version'' @ [CHR '':'']) @ ('' 1,'' @ [LF] @ ''    '')"
  define rom where "rom = (member ''rom_path'' romPath @ [CHR '','']) @ ([LF] @ ''    '')"
  define syms where "syms = (quoted ''symbols'' @ [CHR '':'']) @ '' ['' @ S @ ('']'' @ '','' @ [LF] @ ''    '')"
  define regs where "regs = (quoted ''regions'' @ [CHR '':'']) @ '' ['' @ G @ ('']'' @ '','' @ [LF] @ ''    '')"
  define tail where "tail = quoted ''breakpoints'' @ '': ['' @ breakpoint_items bps @ '']'' @ [LF] @ ''}'' @ [LF]"
  have lines: "map symbol_line (allSymbols db) = map (\<lambda>sy. ''        {'' @ symbol_body sy @ ''}'') (allSymbols db)"
    "map region_line (allRegions db) = map (\<lambda>r. ''        {'' @ region_body r @ ''}'') (allRegions db)"
    using assms(1,2) symbol_line_body region_line_body by (simp_all add: symbol_ok_def list_all_iff)
  have content: "project_text db bps romPath = head @ rom @ syms @ regs @ tail"
    unfolding project_text_def lines escape_text_ok [OF assms(3)]
    by (simp add: head_def rom_def syms_def regs_def tail_def S_def G_def symbols_text_def regions_text_def)
  have head: "passes (quoted k) head" if "k \<in> set project_keys" for k
    unfolding head_def using that by (intro passes_append passes_quoted passes_key) (auto simp: project_keys_def)
  have rom: "passes (quoted k) rom" if "k \<in> {''symbols'', ''regions'', ''breakpoints''}" for k
    unfolding rom_def using that assms(3) by (intro passes_append passes_member_ok passes_key) (auto simp: project_keys_def)
  have block: "passes (quoted k) ((quoted key @ [CHR '':'']) @ '' ['' @ X @ ('']'' @ '','' @ [LF] @ ''    ''))"
    if "passes (quoted k) X" "key \<noteq> k" "key \<in> set project_keys" "k \<in> set project_keys" for k key X
    using that(2) key_facts [OF that(3)] key_facts [OF that(4)]
    by (intro passes_append [OF passes_quoted passes_append [OF passes_key passes_append [OF that(1) passes_key]]]) simp_all
  have syms: "passes (quoted k) syms" if "k \<in> {''regions'', ''breakpoints''}" for k
    unfolding syms_def S_def using that by (intro block symbols_text_ok(1) [OF assms(1)]) (auto simp: project_keys_def)
  have regs: "passes (quoted ''breakpoints'') regs"
    unfolding regs_def G_def by (intro block regions_text_ok(1) [OF assms(2)]) (auto simp: project_keys_def)
  have key: "''symbols'' \<in> set project_keys" "''regions'' \<in> set project_keys" "''breakpoints'' \<in> set project_keys" "''rom_path'' \<in> set project_keys"
    by (simp_all add: project_keys_def)
  show "array_section ''symbols'' (project_text db bps romPath) = Some (symbols_text (allSymbols db))"
    using array_section_found [of "''symbols''" "head @ rom" S "'','' @ [LF] @ ''    '' @ regs @ tail"] symbols_text_ok(2) [OF assms(1)]
      passes_append [OF head [OF key(1)] rom [of "''symbols''"]] by (simp add: content syms_def S_def)
  show "array_section ''regions'' (project_text db bps romPath) = Some (regions_text (allRegions db))"
    using array_section_found [of "''regions''" "head @ rom @ syms" G "'','' @ [LF] @ ''    '' @ tail"] regions_text_ok(2) [OF assms(2)]
      passes_append [OF head [OF key(2)] passes_append [OF rom [of "''regions''"] syms [of "''regions''"]]] by (simp add: content regs_def G_def)
  show "array_section ''breakpoints'' (project_text db bps romPath) = Some (breakpoint_items bps)"
    using array_section_found [of "''breakpoints''" "head @ rom @ syms @ regs" "breakpoint_items bps" "[LF] @ ''}'' @ [LF]"] breakpoint_chars [of bps]
      passes_append [OF head [OF key(3)] passes_append [OF rom [of "''breakpoints''"] passes_append [OF syms [of "''breakpoints''"] regs]]]
    by (simp add: content tail_def)
  show "load_rom_path (project_text db bps romPath) = romPath"
    using head [OF key(4)] text_ok_chars [OF assms(3)]
    by (intro load_rom_path_member [of head _ _ "'','' @ ([LF] @ ''    '') @ syms @ regs @ tail"]) (simp_all add: content rom_def)
qed



end
