(* ===== verification/Spec2Isabelle.thy ===== *)
theory Spec2Isabelle
  imports Machine_Inv Analyzer Map_Loader Ring_Buffer Sha256 Screen_Map Fsimage Png Gdb Project_File
begin

text \<open>
  A verification of the Vector-06C emulator core and of the parts of its debugger that compute.

  \<^bold>\<open>The program.\<close>  The emulator runs a home computer with an 8080 processor.  \<^verbatim>\<open>Board\<close>
  (\<^verbatim>\<open>src/board.cpp\<close>) executes it frame by frame: an instruction of the core
  (\<^verbatim>\<open>src/i8080.cpp\<close>) reaches memory, ports and the interrupt pin through
  \<^verbatim>\<open>src/hal.cpp\<close>; then the raster (\<^verbatim>\<open>src/filler.cpp\<close>) draws for the time the
  instruction took and commits its port write at the exact clock; then the interrupt logic, the tape
  and the sound devices advance.  The debugger stops the board, reads and writes it and saves and
  loads its state.

  \<^bold>\<open>The theories.\<close>
  \<^item> \<^verbatim>\<open>Prelude\<close>: machine integers, results that may be exceptions, shared lemmas.
  \<^item> \<^verbatim>\<open>I8080_Alu\<close>, \<^verbatim>\<open>I8080\<close>: the arithmetic macros and the core, over an arbitrary
    hardware abstraction layer; the switch is sixteen definitions of sixteen opcodes.
    \<^verbatim>\<open>I8080_Isa\<close> is the instruction set as a specification (decoder and effects over an abstract
    bus); \<^verbatim>\<open>I8080_Refine\<close> states the contract of the layer as the locale \<open>bus_refinement\<close>
    and proves inside it that the core implements the specification.  \<^verbatim>\<open>I8080_Inv\<close> lifts
    invariants of the layer to instructions (locale \<open>bus_invariant\<close>).
  \<^item> \<^verbatim>\<open>Serialize\<close>, \<^verbatim>\<open>Memory\<close>: chunks of a saved state; main memory, RAM disk and
    boot ROM.  Addresses stay inside the array, writes are read back, the video scrambling is a
    permutation.
  \<^item> \<^verbatim>\<open>Timer\<close> (8253), \<^verbatim>\<open>Keyboard\<close>, \<^verbatim>\<open>AY\<close>, \<^verbatim>\<open>FD1793\<close>: the devices, each
    with what a program sees of it (waves and counts, key matrix, samples, sectors).
  \<^item> \<^verbatim>\<open>Vio\<close>: the ports and the tape player; output is latched and committed later.
  \<^item> \<^verbatim>\<open>Filler\<close>: the raster.  The beam, the frame interrupt, the bounds of the pixel stores, the
    bit planes, and the equivalence of the two pixel extractions.
  \<^item> \<^verbatim>\<open>Hal\<close>: the layer bound to the machine, the interpretation of \<open>bus_refinement\<close> and of the
    stack contract \<open>ram_bus\<close>, and runs of the core against the specification.
  \<^item> \<^verbatim>\<open>Board\<close>, \<^verbatim>\<open>Board_Debug\<close>: reset, interrupts, single step and frame; the debugger's
    access, breakpoints, watchpoints and saved states.
  \<^item> \<^verbatim>\<open>Machine_Inv\<close>: the invariant of the whole machine over every reachable state
    (inductive relations \<open>board_op\<close> and \<open>reachable\<close>), by an interpretation of \<open>bus_invariant\<close>.

  \<^item> \<^verbatim>\<open>Disasm\<close>, \<^verbatim>\<open>Analyzer\<close>: the disassembler of the debugger
    (\<^verbatim>\<open>debugger/src/disassembler.cpp\<close>, \<^verbatim>\<open>opcode_info.h\<close>) against the decoder of
    \<^verbatim>\<open>I8080_Isa\<close>, and its code analyser (\<^verbatim>\<open>debugger/agent/code_analyzer.h\<close>) against the
    steps of the core and against reachability (inductive relation \<open>reach\<close>).
  \<^item> \<^verbatim>\<open>Std_Map\<close>: \<^verbatim>\<open>std::map\<close> as a sorted list of pairs behind the locale
    \<open>ordered_map\<close>.  \<^verbatim>\<open>Rdb_Text\<close>, \<^verbatim>\<open>Rdb\<close>: the database of annotated objects
    (\<^verbatim>\<open>debugger/rdb\<close>): what sanitizing does to a text, every edit, and saving and loading as a
    round trip through JSON.  The JSON library is the parameter \<open>json_lib\<close> with the law
    \<open>json_ok\<close>, shown to be satisfiable by a concrete library; the file system is a map from
    names to contents.  \<^verbatim>\<open>Symbols\<close>: symbols, memory regions and the cross-reference scan
    (\<^verbatim>\<open>debugger/src/symbol_database.cpp\<close>) against the decoder of \<^verbatim>\<open>I8080_Isa\<close>.
  \<^item> \<^verbatim>\<open>Map_Loader\<close>: linker maps (\<^verbatim>\<open>map_loader.cpp\<close>, \<^verbatim>\<open>map_import.cpp\<close>): what the
    linker prints is parsed back, and the import keeps what is there.  \<^verbatim>\<open>Ring_Buffer\<close>: the
    bounded histories, an interpretation of the locale \<open>bounded_log\<close>.  \<^verbatim>\<open>Sha256\<close>: the ROM digest
    against FIPS 180-4.  \<^verbatim>\<open>Screen_Map\<close>: the mapping between screen and video memory
    (\<^verbatim>\<open>vram_mapping.cpp\<close>) against the raster of \<^verbatim>\<open>Filler\<close>.
  \<^item> \<^verbatim>\<open>Fsimage\<close>: the floppy image made from a local directory (\<^verbatim>\<open>src/fsimage.cpp\<close>): what is saved
    is read back, and saving leaves the other files alone.
  \<^item> \<^verbatim>\<open>Gdb\<close>: the debugger protocol (\<^verbatim>\<open>src/server.cpp\<close>), packets and commands on the board of
    \<^verbatim>\<open>Board_Debug\<close>.  \<^verbatim>\<open>Png\<close>: the pictures of the agent interface
    (\<^verbatim>\<open>debugger/agent/png_encoder.cpp\<close>) against a decoder of the formats.
    \<^verbatim>\<open>Project_File\<close>: the project files (\<^verbatim>\<open>debugger/src/project_file.cpp\<close>), saved and loaded.

  \<^bold>\<open>Modelling.\<close>  A C++ object is a record, its methods are functions on it, references between
  objects are nesting or parameters.  \<^verbatim>\<open>uint8_t\<close>, \<^verbatim>\<open>uint16_t\<close> and \<^verbatim>\<open>uint32_t\<close> are
  words; an \<^verbatim>\<open>int\<close> is an \<open>int\<close> where it counts and a word where it only carries a byte, a port
  or an address.  Exceptions and undefined behaviour are values of \<open>fault\<close> in the result type
  \<open>res\<close>; reading past the end of a saved state is \<open>None\<close>.  Callbacks act on an environment
  type; a hook of the debugger or of a script is a parameter.  The frame loop has fuel
  (\<open>FRAME_FUEL\<close>, 14977): a frame has 119808 raster steps and an instruction takes at least eight of
  them, and \<open>frame_always_ends\<close> shows that the fuel is never used up.  All other loops terminate by
  a measure.  Uninitialised fields of a constructor are parameters.

  \<^bold>\<open>Not modelled.\<close>  The display, the audio output with its floating-point mixing and resampling,
  the frame cadence tables (floating point), command line and files, SDL events and threads, the
  network library under the GDB server, script bindings, and the windows, threads and JSON
  interfaces of the debugger; the values these supply are parameters.  Vendored and generated code
  is left out.
\<close>

end
